(* ===== verification/Prelude.thy ===== *)
theory Prelude
  imports Main "HOL-Library.Word" "HOL-Library.Char_ord" "HOL-Library.List_Lexorder"
begin

text \<open>
  What every component of the development shares: the machine integers of the
  Go code, the outcome of a fallible Go function (a result, an \<open>error\<close> value, or a
  run-time panic), the error values with the two ways Go asks about them
  (\<open>errors.Is\<close> and \<open>os.IsNotExist\<close>), optional metrics, Go maps and the order in
  which a \<open>range\<close> loop visits them, and the named collections \<open>go_defs\<close>,
  \<open>go_simps\<close> and \<open>go_outcome\<close> the component proofs draw on.
\<close>

named_theorems go_simps "rewrite rules of the modelled Go primitives"
named_theorems go_outcome "inversion and congruence of outcomes"

type_synonym u64 = "64 word"
type_synonym u32 = "32 word"

lemma unat_u64_bound: "unat (x :: u64) < 2 ^ 64"
proof -
  have "unat x < 2 ^ LENGTH(64)" by (rule unsigned_less)
  then show ?thesis by simp
qed

lemma unat_of_nat_u64: "n < 2 ^ 64 \<Longrightarrow> unat (of_nat n :: u64) = n"
  by (simp add: unat_of_nat take_bit_nat_eq_self_iff)

lemma unat_add_u64: "unat a + unat b < 2 ^ 64 \<Longrightarrow> unat ((a :: u64) + b) = unat a + unat b"
  by (simp add: unat_word_ariths)

lemma unat_sum_list:
  "sum_list (map unat ws) < 2 ^ 64 \<Longrightarrow> unat (sum_list ws :: u64) = sum_list (map unat ws)"
  by (induction ws) (simp_all add: unat_add_u64)

lemma unat_sub_u64: "unat b \<le> unat a \<Longrightarrow> unat ((a :: u64) - b) = unat a - unat b"
  by (simp add: unat_sub word_le_nat_alt)

text \<open>\<open>int64(x)\<close> of a \<open>uint64\<close>: the bits read as two's complement.\<close>

definition int64_of :: "u64 \<Rightarrow> int" where
  "int64_of x = sint x"

lemma int64_of_small [go_simps]:
  assumes "unat x < 2 ^ 63" shows "int64_of x = int (unat x)"
proof -
  have u: "uint x = int (unat x)" by simp
  have "int (unat x) < 2 ^ 63" using assms by (metis of_nat_less_iff of_nat_numeral of_nat_power)
  then have "signed_take_bit 63 (int (unat x)) = int (unat x)"
    using of_nat_0_le_iff[of "unat x", where 'a = int] by (intro signed_take_bit_int_eq_self) linarith+
  moreover have "sint x = signed_take_bit 63 (uint x)" by (simp add: sint_uint)
  ultimately show ?thesis by (simp only: int64_of_def u)
qed

text \<open>The value an \<open>int\<close> or \<open>int64\<close> holds after an operation with exact result \<open>i\<close>.\<close>

definition int_wrap :: "int \<Rightarrow> int" where
  "int_wrap i = sint (word_of_int i :: u64)"

lemma int_wrap_id [go_simps]: "- (2 ^ 63) \<le> i \<Longrightarrow> i < 2 ^ 63 \<Longrightarrow> int_wrap i = i"
  unfolding int_wrap_def by (simp add: signed_of_int signed_take_bit_int_eq_self_iff)

section \<open>Errors\<close>

text \<open>
  \<open>PathError\<close> is what the functions of package \<open>os\<close> return; \<open>Sentinel\<close> a package
  variable made by \<open>errors.New\<close>; \<open>Message\<close> an error made on the spot with no cause;
  \<open>Wrapped\<close> the result of \<open>fmt.Errorf\<close> with a \<open>%w\<close> verb. The texts keep the constant
  part of the message only.
\<close>

datatype errno = ENOENT | EACCES | EIO

datatype num_error = ErrSyntax | ErrRange

datatype go_error =
    PathError errno
  | NoSuchProcess
  | EOF
  | NumError num_error
  | Sentinel string
  | Message string
  | Wrapped string go_error

text \<open>\<open>errors.Is\<close> follows the chain of wrapped errors.\<close>

fun errors_Is :: "go_error \<Rightarrow> go_error \<Rightarrow> bool" where
  "errors_Is (Wrapped msg e) target = (Wrapped msg e = target \<or> errors_Is e target)"
| "errors_Is e target = (e = target)"

text \<open>
  \<open>os.IsNotExist\<close> predates wrapping: it looks inside the error types of package \<open>os\<close>
  only and never through a \<open>%w\<close>.
\<close>

fun os_IsNotExist :: "go_error \<Rightarrow> bool" where
  "os_IsNotExist (PathError n) = (n = ENOENT)"
| "os_IsNotExist _ = False"

lemma os_IsNotExist_iff [simp]: "os_IsNotExist e \<longleftrightarrow> e = PathError ENOENT"
  by (cases e) auto

lemma errors_Is_refl [simp]: "errors_Is e e"
  by (cases e) auto

section \<open>Outcomes\<close>

text \<open>
  A Go function of type \<open>(T, error)\<close> whose callers drop the \<open>T\<close> when the error is set
  is an \<open>outcome\<close>. \<open>Panic\<close> is a run-time panic (an index out of range): unlike an
  error it cannot be ignored by the caller.
\<close>

datatype 'a outcome = Ok 'a | Err go_error | Panic

definition and_then :: "'a outcome \<Rightarrow> ('a \<Rightarrow> 'b outcome) \<Rightarrow> 'b outcome" where
  "and_then x f = (case x of Ok v \<Rightarrow> f v | Err e \<Rightarrow> Err e | Panic \<Rightarrow> Panic)"

text \<open>\<open>if err != nil { return ..., fmt.Errorf("msg: %w", err) }\<close>.\<close>

definition wrap_err :: "string \<Rightarrow> 'a outcome \<Rightarrow> 'a outcome" where
  "wrap_err msg x = (case x of Ok v \<Rightarrow> Ok v | Err e \<Rightarrow> Err (Wrapped msg e) | Panic \<Rightarrow> Panic)"

text \<open>\<open>xs[i]\<close>: the index is checked at run time.\<close>

definition at_index :: "'a list \<Rightarrow> nat \<Rightarrow> 'a outcome" where
  "at_index xs i = (if i < length xs then Ok (xs ! i) else Panic)"

lemma and_then_simps [simp]:
  "and_then (Ok v) f = f v" "and_then (Err e) f = Err e" "and_then Panic f = Panic"
  by (simp_all add: and_then_def)

lemma wrap_err_simps [simp]:
  "wrap_err m (Ok v) = Ok v" "wrap_err m (Err e) = Err (Wrapped m e)" "wrap_err m Panic = Panic"
  by (simp_all add: wrap_err_def)

lemma and_then_Ok_iff [go_outcome]: "and_then x f = Ok w \<longleftrightarrow> (\<exists>v. x = Ok v \<and> f v = Ok w)"
  by (cases x) auto

lemma and_then_Panic_iff [go_outcome]:
  "and_then x f = Panic \<longleftrightarrow> x = Panic \<or> (\<exists>v. x = Ok v \<and> f v = Panic)"
  by (cases x) auto

lemma and_then_Err_iff [go_outcome]:
  "and_then x f = Err e \<longleftrightarrow> x = Err e \<or> (\<exists>v. x = Ok v \<and> f v = Err e)"
  by (cases x) auto

lemma wrap_err_Ok_iff [simp]: "wrap_err m x = Ok v \<longleftrightarrow> x = Ok v"
  by (cases x) auto

lemma wrap_err_Panic_iff [simp]: "wrap_err m x = Panic \<longleftrightarrow> x = Panic"
  by (cases x) auto

lemma wrap_err_Err_iff [go_outcome]: "wrap_err m x = Err e \<longleftrightarrow> (\<exists>e'. x = Err e' \<and> e = Wrapped m e')"
  by (cases x) auto

lemma at_index_Ok_iff [go_outcome]: "at_index xs i = Ok v \<longleftrightarrow> i < length xs \<and> v = xs ! i"
  by (auto simp: at_index_def)

lemma at_index_Panic_iff [go_outcome]: "at_index xs i = Panic \<longleftrightarrow> length xs \<le> i"
  by (auto simp: at_index_def)

lemma at_index_not_Err [simp]: "at_index xs i \<noteq> Err e"
  by (simp add: at_index_def)

lemma at_index_in [simp]: "i < length xs \<Longrightarrow> at_index xs i = Ok (xs ! i)"
  by (simp add: at_index_def)

section \<open>Optional metrics\<close>

text \<open>
  \<open>opt.Uint\<close>, \<open>opt.Int\<close> and \<open>opt.Float\<close> hold a value or none; \<open>opt.UintWith\<close> is
  \<open>Some\<close>, \<open>opt.NewUintNone\<close> and the zero struct are \<open>None\<close>, \<open>Exists\<close> is
  \<open>\<noteq> None\<close>, \<open>IsZero\<close> is \<open>= None\<close>.
\<close>

definition valueOr :: "'a \<Rightarrow> 'a option \<Rightarrow> 'a" where
  "valueOr d x = (case x of None \<Rightarrow> d | Some v \<Rightarrow> v)"

lemma valueOr_simps [simp]: "valueOr d None = d" "valueOr d (Some v) = v"
  by (simp_all add: valueOr_def)

section \<open>Maps and range loops\<close>

text \<open>
  A Go map is a partial function. A \<open>range\<close> loop over it visits every key once, in an
  order the language leaves open: the order is an argument of the definitions that
  loop, and \<open>iterates ks m\<close> says that \<open>ks\<close> is such an order.
\<close>

definition iterates :: "'k list \<Rightarrow> ('k \<rightharpoonup> 'v) \<Rightarrow> bool" where
  "iterates ks m \<longleftrightarrow> distinct ks \<and> set ks = dom m"

lemma iterates_the: "iterates ks m \<Longrightarrow> k \<in> set ks \<Longrightarrow> \<exists>v. m k = Some v"
  by (auto simp: iterates_def)

lemma iterates_perm: "iterates ks m \<Longrightarrow> iterates ks' m \<Longrightarrow> set ks = set ks' \<and> length ks = length ks'"
  by (auto simp: iterates_def distinct_card[symmetric])

lemma map_upds_dom_foldl:
  "dom (foldl (\<lambda>m x. m(f x \<mapsto> g x)) m xs) = dom m \<union> f ` set xs"
  by (induction xs arbitrary: m) auto

text \<open>
  Where a loop ranges over a map the code has just built, the order is a function of
  the map; \<open>range_order\<close> holds of the functions that give every finite map such an order.
\<close>

definition range_order :: "(('k \<rightharpoonup> 'v) \<Rightarrow> 'k list) \<Rightarrow> bool" where
  "range_order order \<longleftrightarrow> (\<forall>m. finite (dom m) \<longrightarrow> iterates (order m) m)"

definition sorted_keys :: "('k :: linorder \<rightharpoonup> 'v) \<Rightarrow> 'k list" where
  "sorted_keys m = sorted_list_of_set (dom m)"

lemma range_order_sorted: "range_order sorted_keys"
  by (simp add: range_order_def iterates_def sorted_keys_def)

lemma range_orderD: "range_order order \<Longrightarrow> finite (dom m) \<Longrightarrow> iterates (order m) m"
  by (simp add: range_order_def)

end
