(* ===== verification/Float64.thy ===== *)
theory Float64
  imports Prelude Complex_Main "HOL-Library.Log_Nat"
begin

text \<open>
  Go's \<open>float64\<close>: IEEE 754 binary64 with rounding to nearest, ties to even. A finite
  value is a sign and a rational magnitude; every operation computes the exact rational
  result and rounds it once (\<open>round53\<close>), so the model is executable and exact. The
  lemmas are the facts on rounding the metrics rest on: it is monotone, it is the
  identity on representable values, and its error is at most half a unit in the last
  place. The compiler may fuse a multiplication with an addition; no expression of the
  program has that shape, so every operation rounds.
\<close>

abbreviation p2 :: "int \<Rightarrow> rat" where
  "p2 k \<equiv> 2 powi k"

section \<open>Rounding to an integer\<close>

definition rne :: "rat \<Rightarrow> int" where
  "rne q = (let f = \<lfloor>q\<rfloor>; d = q - of_int f
            in if d < 1/2 \<or> (d = 1/2 \<and> even f) then f else f + 1)"

lemma rne_of_int [simp]: "rne (of_int k) = k"
  by (simp add: rne_def)

lemma rne_cases:
  "rne q = \<lfloor>q\<rfloor> \<and> q - of_int \<lfloor>q\<rfloor> \<le> 1/2 \<or> rne q = \<lfloor>q\<rfloor> + 1 \<and> 1/2 \<le> q - of_int \<lfloor>q\<rfloor>"
  unfolding rne_def Let_def by (cases "q - of_int \<lfloor>q\<rfloor> < 1/2") auto

lemma rne_dist: "\<bar>of_int (rne q) - q\<bar> \<le> 1/2"
proof -
  have "of_int \<lfloor>q\<rfloor> \<le> q" "q < of_int \<lfloor>q\<rfloor> + 1" by linarith+
  with rne_cases[of q] show ?thesis by (auto simp: abs_le_iff)
qed

lemma rne_mono:
  assumes "p \<le> q" shows "rne p \<le> rne q"
proof (cases "\<lfloor>p\<rfloor> = \<lfloor>q\<rfloor>")
  case True
  with assms show ?thesis by (auto simp: rne_def Let_def)
next
  case False
  with floor_mono[OF assms] have "\<lfloor>p\<rfloor> + 1 \<le> \<lfloor>q\<rfloor>" by linarith
  with rne_cases[of p] rne_cases[of q] show ?thesis by linarith
qed

lemma rne_nonneg: "0 \<le> q \<Longrightarrow> 0 \<le> rne q"
  using rne_mono[of 0 q] rne_of_int[of 0] by simp

section \<open>The binade of a positive rational\<close>

definition ilog2 :: "rat \<Rightarrow> int" where
  "ilog2 q = (let (n, d) = quotient_of q; e = bitlen n - bitlen d
              in if p2 e \<le> q then e else e - 1)"

lemma p2_pos [simp]: "0 < p2 k"
  by (simp add: zero_less_power_int)

lemma p2_nonneg [simp]: "0 \<le> p2 k"
  by (simp add: less_imp_le)

lemma p2_nz [simp]: "p2 k \<noteq> 0"
  by simp

lemma p2_add: "p2 (a + b) = p2 a * p2 b"
  by (simp add: power_int_add)

lemma p2_diff: "p2 (a - b) = p2 a / p2 b"
  by (simp add: power_int_diff)

lemma p2_Suc: "p2 (k + 1) = 2 * p2 k"
  by (simp add: p2_add)

lemma p2_le_iff [simp]: "p2 a \<le> p2 b \<longleftrightarrow> a \<le> b"
  by (meson not_le one_less_numeral_iff power_int_increasing power_int_strict_increasing
      one_le_numeral semiring_norm(76))

lemma p2_less_iff [simp]: "p2 a < p2 b \<longleftrightarrow> a < b"
  by (simp add: less_le_not_le)

lemma p2_nat: "0 \<le> k \<Longrightarrow> p2 k = of_int (2 ^ nat k)"
  by (simp add: power_int_nonneg_exp)

lemma p2_int: "p2 (numeral k) = of_int (2 ^ numeral k)"
  by simp

lemma ilog2_bounds:
  assumes "0 < q" shows "p2 (ilog2 q) \<le> q" and "q < p2 (ilog2 q + 1)"
proof -
  obtain n d where nd: "quotient_of q = (n, d)" by force
  have d: "0 < d" using quotient_of_denom_pos[OF nd] .
  have q: "q = of_int n / of_int d" by (rule quotient_of_div[OF nd])
  have n: "0 < n" using assms d q by (simp add: zero_less_divide_iff)
  let ?a = "bitlen n" and ?b = "bitlen d"
  have a1: "1 \<le> ?a" and b1: "1 \<le> ?b"
    using n d by (simp_all add: bitlen_ge_iff_power)
  have nb: "p2 (?a - 1) \<le> of_int n" "of_int n < p2 ?a"
    using bitlen_bounds[OF n] a1
    by (simp_all only: p2_nat diff_ge_0_iff_ge of_int_le_iff of_int_less_iff bitlen_nonneg)
  have db: "p2 (?b - 1) \<le> of_int d" "of_int d < p2 ?b"
    using bitlen_bounds[OF d] b1
    by (simp_all only: p2_nat diff_ge_0_iff_ge of_int_le_iff of_int_less_iff bitlen_nonneg)
  have up: "q < p2 (?a - ?b + 1)"
  proof -
    have "q \<le> of_int n / p2 (?b - 1)"
      unfolding q using db n d by (intro divide_left_mono) auto
    also have "\<dots> < p2 ?a / p2 (?b - 1)"
      using nb by (intro divide_strict_right_mono) auto
    also have "\<dots> = p2 (?a - ?b + 1)"
      by (simp only: p2_diff [symmetric]) (simp add: algebra_simps)
    finally show ?thesis .
  qed
  have lo: "p2 (?a - ?b - 1) \<le> q"
  proof -
    have "p2 (?a - ?b - 1) = p2 (?a - 1) / p2 ?b" by (simp flip: p2_diff add: algebra_simps)
    also have "\<dots> \<le> of_int n / p2 ?b" using nb by (intro divide_right_mono) auto
    also have "\<dots> \<le> q" unfolding q using db n d by (intro divide_left_mono) auto
    finally show ?thesis .
  qed
  show "p2 (ilog2 q) \<le> q" and "q < p2 (ilog2 q + 1)"
    using up lo by (auto simp: ilog2_def nd Let_def)
qed

lemma ilog2_unique:
  assumes "p2 e \<le> q" "q < p2 (e + 1)" shows "ilog2 q = e"
proof -
  have "0 < q" using assms(1) p2_pos[of e] by linarith
  note b = ilog2_bounds[OF this]
  have "p2 e < p2 (ilog2 q + 1)" "p2 (ilog2 q) < p2 (e + 1)" using assms b by linarith+
  then show ?thesis by simp
qed

lemma ilog2_less: "0 < q \<Longrightarrow> q < p2 e \<Longrightarrow> ilog2 q < e"
  using ilog2_bounds(1)[of q] by (meson le_less_trans p2_less_iff)

lemma ilog2_ge: "p2 e \<le> q \<Longrightarrow> e \<le> ilog2 q"
proof -
  assume a: "p2 e \<le> q"
  then have "0 < q" using p2_pos[of e] by linarith
  then have "p2 e < p2 (ilog2 q + 1)" using a ilog2_bounds(2)[of q] by linarith
  then show ?thesis by simp
qed

lemma ilog2_mono: "0 < p \<Longrightarrow> p \<le> q \<Longrightarrow> ilog2 p \<le> ilog2 q"
  by (meson ilog2_bounds(1) ilog2_ge order_trans)

section \<open>Rounding to 53 bits\<close>

definition ulp_exp :: "rat \<Rightarrow> int" where
  "ulp_exp q = max (ilog2 q - 52) (-1074)"

definition round53 :: "rat \<Rightarrow> rat" where
  "round53 q = (if q = 0 then 0 else of_int (rne (q / p2 (ulp_exp q))) * p2 (ulp_exp q))"

lemma round53_0 [simp]: "round53 0 = 0"
  by (simp add: round53_def)

lemma round53_nonneg [simp]: "0 \<le> q \<Longrightarrow> 0 \<le> round53 q"
  by (simp add: round53_def rne_nonneg)

lemma round53_grid: "q = of_int m * p2 (ulp_exp q) \<Longrightarrow> round53 q = q"
proof -
  assume q: "q = of_int m * p2 (ulp_exp q)"
  then have "q / p2 (ulp_exp q) = of_int m" by (metis nonzero_mult_div_cancel_right p2_nz)
  then have "round53 q = (if q = 0 then 0 else of_int m * p2 (ulp_exp q))"
    by (simp add: round53_def)
  with q show ?thesis by simp
qed

text \<open>Numbers \<open>m * 2^j\<close> with a 53-bit \<open>m\<close> are left alone.\<close>

lemma round53_exact_less:
  assumes "0 \<le> m" "m < 2 ^ 53" "-1074 \<le> j"
  shows "round53 (of_int m * p2 j) = of_int m * p2 j"
proof (cases "m = 0")
  case False
  let ?q = "of_int m * p2 j"
  have pos: "0 < ?q" using assms False by simp
  have "of_int m < p2 53"
    using assms(2) by (simp only: p2_int of_int_less_iff)
  then have "?q < p2 53 * p2 j" by (intro mult_strict_right_mono) auto
  then have "?q < p2 (53 + j)" by (simp only: p2_add)
  then have "ilog2 ?q < 53 + j" by (rule ilog2_less[OF pos])
  then have k: "ulp_exp ?q \<le> j" using assms(3) by (simp add: ulp_exp_def)
  have "p2 j = p2 (j - ulp_exp ?q) * p2 (ulp_exp ?q)" by (simp flip: p2_add)
  also have "p2 (j - ulp_exp ?q) = of_int (2 ^ nat (j - ulp_exp ?q))" using k by (intro p2_nat) simp
  finally have "?q = of_int (m * 2 ^ nat (j - ulp_exp ?q)) * p2 (ulp_exp ?q)" by simp
  then show ?thesis by (rule round53_grid)
qed simp

lemma round53_exact:
  assumes "0 \<le> m" "m \<le> 2 ^ 53" "-1074 \<le> j"
  shows "round53 (of_int m * p2 j) = of_int m * p2 j"
proof (cases "m = 2 ^ 53")
  case True
  have "of_int m * p2 j = of_int 1 * p2 (53 + j)" by (simp add: True p2_add)
  then show ?thesis using round53_exact_less[of 1 "53 + j"] assms by simp
qed (use assms in \<open>simp add: round53_exact_less\<close>)

lemma round53_p2: "-1074 \<le> j \<Longrightarrow> round53 (p2 j) = p2 j"
  using round53_exact[of 1 j] by simp

lemma round53_int: "0 \<le> m \<Longrightarrow> m \<le> 2 ^ 53 \<Longrightarrow> round53 (of_int m) = of_int m"
  using round53_exact[of m 0] by simp

lemma round53_same_binade:
  assumes "0 < p" "p \<le> q" "ulp_exp p = ulp_exp q" shows "round53 p \<le> round53 q"
proof -
  have "rne (p / p2 (ulp_exp q)) \<le> rne (q / p2 (ulp_exp q))"
    using assms by (intro rne_mono divide_right_mono) auto
  then show ?thesis using assms
    by (simp add: round53_def mult_right_mono)
qed

lemma round53_mono:
  assumes "0 \<le> p" "p \<le> q" shows "round53 p \<le> round53 q"
proof (cases "p = 0 \<or> ulp_exp p = ulp_exp q")
  case True
  then show ?thesis using assms round53_same_binade[of p q] by (cases "p = 0") auto
next
  case False
  then have p: "0 < p" and q: "0 < q" and ne: "ulp_exp p \<noteq> ulp_exp q" using assms by auto
  have le: "ulp_exp p < ulp_exp q" using ne ilog2_mono[OF p assms(2)]
    by (simp add: ulp_exp_def max_def split: if_splits)
  then have kq: "ulp_exp q = ilog2 q - 52" by (auto simp: ulp_exp_def)
  let ?B = "p2 (ilog2 q)"
  have "p < p2 (ilog2 p + 1)" by (rule ilog2_bounds(2)[OF p])
  moreover have "ilog2 p + 1 \<le> ulp_exp p + 53" by (simp add: ulp_exp_def)
  ultimately have pB: "p \<le> p2 (ulp_exp p + 53)" using p2_le_iff by (meson less_imp_le order_trans)
  have "p / p2 (ulp_exp p) \<le> of_int (2 ^ 53)"
  proof -
    have "p / p2 (ulp_exp p) \<le> p2 (ulp_exp p + 53) / p2 (ulp_exp p)"
      using pB by (rule divide_right_mono) simp
    also have "\<dots> = of_int (2 ^ 53)" by (simp add: p2_add)
    finally show ?thesis .
  qed
  then have "rne (p / p2 (ulp_exp p)) \<le> 2 ^ 53" using rne_mono rne_of_int by metis
  then have "of_int (rne (p / p2 (ulp_exp p))) \<le> p2 53"
    by (simp only: p2_int of_int_le_iff)
  then have "round53 p \<le> p2 53 * p2 (ulp_exp p)"
    using p by (simp add: round53_def mult_right_mono)
  also have "\<dots> = p2 (53 + ulp_exp p)" by (simp only: p2_add)
  also have "\<dots> \<le> ?B" using le kq by simp
  also have "?B \<le> round53 q"
  proof -
    have "of_int (2 ^ 52) \<le> q / p2 (ulp_exp q)"
    proof -
      have "of_int (2 ^ 52) = p2 (ilog2 q) / p2 (ulp_exp q)" by (simp add: kq flip: p2_diff)
      also have "\<dots> \<le> q / p2 (ulp_exp q)"
        using ilog2_bounds(1)[OF q] by (rule divide_right_mono) simp
      finally show ?thesis .
    qed
    then have "2 ^ 52 \<le> rne (q / p2 (ulp_exp q))" using rne_mono rne_of_int by metis
    then have "p2 52 \<le> of_int (rne (q / p2 (ulp_exp q)))"
      by (simp only: p2_int of_int_le_iff)
    then have "p2 52 * p2 (ulp_exp q) \<le> round53 q"
      using q by (simp add: round53_def mult_right_mono)
    then show ?thesis by (simp only: kq p2_add [symmetric]) simp
  qed
  finally show ?thesis .
qed

lemma round53_le: "0 \<le> q \<Longrightarrow> q \<le> x \<Longrightarrow> round53 x = x \<Longrightarrow> round53 q \<le> x"
  using round53_mono by metis

lemma round53_ge: "0 \<le> x \<Longrightarrow> x \<le> q \<Longrightarrow> round53 x = x \<Longrightarrow> x \<le> round53 q"
  using round53_mono by metis

text \<open>The error is at most half a unit in the last place.\<close>

lemma round53_error: "0 < q \<Longrightarrow> \<bar>round53 q - q\<bar> \<le> p2 (ulp_exp q) / 2"
proof -
  assume q: "0 < q"
  let ?u = "p2 (ulp_exp q)"
  have "round53 q - q = (of_int (rne (q / ?u)) - q / ?u) * ?u"
    using q by (simp add: round53_def algebra_simps)
  then have "\<bar>round53 q - q\<bar> = \<bar>of_int (rne (q / ?u)) - q / ?u\<bar> * ?u"
    by (simp add: abs_mult)
  also have "\<dots> \<le> 1/2 * ?u" by (intro mult_right_mono rne_dist) simp
  finally show ?thesis by simp
qed

lemma round53_error_below:
  assumes "0 < q" "q < p2 e" "-1021 \<le> e" shows "\<bar>round53 q - q\<bar> \<le> p2 (e - 54)"
proof -
  have "ilog2 q < e" using ilog2_less assms by blast
  then have "ulp_exp q \<le> e - 53" using assms(3) by (simp add: ulp_exp_def)
  then have "p2 (ulp_exp q) / 2 \<le> p2 (e - 53) / 2" by simp
  also have "p2 (e - 53) / 2 = p2 (e - 54)" using p2_Suc[of "e - 54"] by simp
  finally show ?thesis using round53_error[OF assms(1)] by linarith
qed

lemma round53_integer:
  assumes "0 < q" "p2 52 \<le> q" shows "\<exists>n. round53 q = of_int n"
proof -
  have "52 \<le> ilog2 q" using ilog2_ge[OF assms(2)] .
  then have "0 \<le> ulp_exp q" by (simp add: ulp_exp_def)
  then have "p2 (ulp_exp q) = of_int (2 ^ nat (ulp_exp q))" by (rule p2_nat)
  then have "round53 q = of_int (rne (q / p2 (ulp_exp q)) * 2 ^ nat (ulp_exp q))"
    using assms(1) by (simp add: round53_def)
  then show ?thesis by blast
qed

section \<open>Values\<close>

text \<open>
  \<open>F64Fin s m\<close> is the number of magnitude \<open>m\<close>, negative when \<open>s\<close>; the two zeros are
  told apart. \<open>f64_ok\<close> says that a magnitude is one of the format.
\<close>

datatype f64 = F64NaN | F64Inf bool | F64Fin bool rat

fun f64_ok :: "f64 \<Rightarrow> bool" where
  "f64_ok (F64Fin s m) = (0 \<le> m \<and> m < p2 1024 \<and> round53 m = m)"
| "f64_ok _ = True"

definition f64_round :: "bool \<Rightarrow> rat \<Rightarrow> f64" where
  "f64_round s q = (if p2 1024 \<le> round53 q then F64Inf s else F64Fin s (round53 q))"

fun f64_val :: "f64 \<Rightarrow> rat" where
  "f64_val (F64Fin s m) = (if s then - m else m)"
| "f64_val _ = 0"

definition f64_of_int :: "int \<Rightarrow> f64" where
  "f64_of_int i = f64_round (i < 0) \<bar>of_int i\<bar>"

text \<open>\<open>float64(x)\<close> of a \<open>uint64\<close>.\<close>

definition f64_of_u64 :: "u64 \<Rightarrow> f64" where
  "f64_of_u64 x = f64_of_int (uint x)"

section \<open>Arithmetic\<close>

fun f64_neg :: "f64 \<Rightarrow> f64" where
  "f64_neg F64NaN = F64NaN"
| "f64_neg (F64Inf s) = F64Inf (\<not> s)"
| "f64_neg (F64Fin s m) = F64Fin (\<not> s) m"

fun f64_add :: "f64 \<Rightarrow> f64 \<Rightarrow> f64" where
  "f64_add F64NaN _ = F64NaN"
| "f64_add _ F64NaN = F64NaN"
| "f64_add (F64Inf s) (F64Inf t) = (if s = t then F64Inf s else F64NaN)"
| "f64_add (F64Inf s) (F64Fin _ _) = F64Inf s"
| "f64_add (F64Fin _ _) (F64Inf t) = F64Inf t"
| "f64_add (F64Fin s a) (F64Fin t b) =
     (let v = f64_val (F64Fin s a) + f64_val (F64Fin t b)
      in if v = 0 then F64Fin (s \<and> t) 0 else f64_round (v < 0) \<bar>v\<bar>)"

definition f64_sub :: "f64 \<Rightarrow> f64 \<Rightarrow> f64" where
  "f64_sub x y = f64_add x (f64_neg y)"

fun f64_mul :: "f64 \<Rightarrow> f64 \<Rightarrow> f64" where
  "f64_mul F64NaN _ = F64NaN"
| "f64_mul _ F64NaN = F64NaN"
| "f64_mul (F64Inf s) (F64Inf t) = F64Inf (s \<noteq> t)"
| "f64_mul (F64Inf s) (F64Fin t b) = (if b = 0 then F64NaN else F64Inf (s \<noteq> t))"
| "f64_mul (F64Fin s a) (F64Inf t) = (if a = 0 then F64NaN else F64Inf (s \<noteq> t))"
| "f64_mul (F64Fin s a) (F64Fin t b) = f64_round (s \<noteq> t) (a * b)"

fun f64_div :: "f64 \<Rightarrow> f64 \<Rightarrow> f64" where
  "f64_div F64NaN _ = F64NaN"
| "f64_div _ F64NaN = F64NaN"
| "f64_div (F64Inf s) (F64Inf t) = F64NaN"
| "f64_div (F64Inf s) (F64Fin t b) = F64Inf (s \<noteq> t)"
| "f64_div (F64Fin s a) (F64Inf t) = F64Fin (s \<noteq> t) 0"
| "f64_div (F64Fin s a) (F64Fin t b) =
     (if b = 0 then (if a = 0 then F64NaN else F64Inf (s \<noteq> t)) else f64_round (s \<noteq> t) (a / b))"

section \<open>Floor, ceiling and fraction\<close>

fun f64_floor :: "f64 \<Rightarrow> f64" where
  "f64_floor (F64Fin s m) = F64Fin s (of_int (if s then \<lceil>m\<rceil> else \<lfloor>m\<rfloor>))"
| "f64_floor x = x"

fun f64_ceil :: "f64 \<Rightarrow> f64" where
  "f64_ceil (F64Fin s m) = F64Fin s (of_int (if s then \<lfloor>m\<rfloor> else \<lceil>m\<rceil>))"
| "f64_ceil x = x"

text \<open>The fractional part \<open>math.Modf\<close> returns; NaN for an infinity.\<close>

fun f64_frac :: "f64 \<Rightarrow> f64" where
  "f64_frac (F64Fin s m) = F64Fin s (m - of_int \<lfloor>m\<rfloor>)"
| "f64_frac _ = F64NaN"

section \<open>Comparison\<close>

fun f64_less :: "f64 \<Rightarrow> f64 \<Rightarrow> bool" where
  "f64_less F64NaN _ = False"
| "f64_less _ F64NaN = False"
| "f64_less (F64Inf s) (F64Inf t) = (s \<and> \<not> t)"
| "f64_less (F64Inf s) (F64Fin _ _) = s"
| "f64_less (F64Fin _ _) (F64Inf t) = (\<not> t)"
| "f64_less (F64Fin s a) (F64Fin t b) = (f64_val (F64Fin s a) < f64_val (F64Fin t b))"

fun f64_eq :: "f64 \<Rightarrow> f64 \<Rightarrow> bool" where
  "f64_eq (F64Inf s) (F64Inf t) = (s = t)"
| "f64_eq (F64Fin s a) (F64Fin t b) = (f64_val (F64Fin s a) = f64_val (F64Fin t b))"
| "f64_eq _ _ = False"

definition f64_le :: "f64 \<Rightarrow> f64 \<Rightarrow> bool" where
  "f64_le x y \<longleftrightarrow> f64_less x y \<or> f64_eq x y"

text \<open>A finite value in the interval from 0 to \<open>b\<close>.\<close>

fun f64_in :: "rat \<Rightarrow> f64 \<Rightarrow> bool" where
  "f64_in b (F64Fin s m) = (\<not> s \<and> 0 \<le> m \<and> m \<le> b)"
| "f64_in b _ = False"

section \<open>Lemmas on nonnegative values\<close>

lemma f64_round_fin:
  assumes "0 \<le> q" "q \<le> p2 1023" shows "f64_round s q = F64Fin s (round53 q)"
proof -
  have "round53 q \<le> p2 1023" using assms by (intro round53_le round53_p2) auto
  also have "p2 1023 < p2 1024" by (simp only: p2_less_iff)
  finally show ?thesis by (simp only: f64_round_def not_le [symmetric] simp_thms if_False)
qed

lemma uint_u64_bound: "uint (x :: u64) < 2 ^ 64"
proof -
  have "uint x < 2 ^ LENGTH(64)" by (rule unsigned_less)
  then show ?thesis by simp
qed

lemma p2_64_1023: "p2 64 \<le> p2 1023"
  by (simp only: p2_le_iff)

lemma f64_of_nonneg_int:
  assumes "0 \<le> i" "i \<le> 2 ^ 64" shows "f64_of_int i = F64Fin False (round53 (of_int i))"
proof -
  have "of_int i \<le> p2 64" using assms(2) by (simp only: p2_int of_int_le_iff)
  then have "of_int i \<le> p2 1023" using p2_64_1023 by (rule order_trans)
  then show ?thesis using assms(1) by (simp add: f64_of_int_def f64_round_fin)
qed

lemma f64_of_u64_fin: "f64_of_u64 x = F64Fin False (round53 (of_int (uint x)))"
  unfolding f64_of_u64_def using uint_u64_bound[of x] by (intro f64_of_nonneg_int) auto

lemma f64_of_small_int: "0 \<le> i \<Longrightarrow> i \<le> 2 ^ 53 \<Longrightarrow> f64_of_int i = F64Fin False (of_int i)"
  by (simp add: f64_of_nonneg_int round53_int)

lemma f64_div_fin:
  "0 \<le> a \<Longrightarrow> 0 < b \<Longrightarrow> a / b \<le> p2 1023 \<Longrightarrow>
     f64_div (F64Fin False a) (F64Fin False b) = F64Fin False (round53 (a / b))"
  by (simp add: f64_round_fin)

lemma p2_1000_1023: "q \<le> p2 1000 \<Longrightarrow> q \<le> p2 1023"
proof -
  assume "q \<le> p2 1000"
  also have "p2 1000 \<le> p2 1023" by (simp only: p2_le_iff)
  finally show ?thesis .
qed

lemma one_le_p2_1023: "1 \<le> p2 1023"
  using p2_le_iff[of 0 1023] by (simp del: p2_le_iff power_int_numeral)

text \<open>A quotient of counters, the smaller over the larger, is a ratio between 0 and 1.\<close>

lemma f64_int_ratio:
  assumes "0 \<le> i" "i \<le> j" "0 < j" "j \<le> 2 ^ 64"
  shows "f64_in 1 (f64_div (f64_of_int i) (f64_of_int j))"
proof -
  let ?a = "round53 (of_int i)" and ?b = "round53 (of_int j)"
  have ab: "?a \<le> ?b" using assms by (intro round53_mono) auto
  have "1 \<le> ?b" using assms round53_int[of 1] by (intro round53_ge) auto
  then have b: "0 < ?b" by linarith
  have le1: "?a / ?b \<le> 1" using ab b by (simp add: divide_le_eq)
  then have "?a / ?b \<le> p2 1023" using one_le_p2_1023 by (rule order_trans)
  then have "f64_div (f64_of_int i) (f64_of_int j) = F64Fin False (round53 (?a / ?b))"
    using b assms by (simp add: f64_of_nonneg_int f64_div_fin del: f64_div.simps)
  moreover have "round53 (?a / ?b) \<le> 1"
    using le1 b assms round53_int[of 1] by (intro round53_le) auto
  ultimately show ?thesis using b assms by simp
qed

lemma f64_ratio:
  assumes "uint x \<le> uint y" "0 < uint y"
  shows "f64_in 1 (f64_div (f64_of_u64 x) (f64_of_u64 y))"
  using assms uint_u64_bound[of y] unfolding f64_of_u64_def by (intro f64_int_ratio) auto

lemma f64_nat_ratio:
  "i \<le> j \<Longrightarrow> 0 < j \<Longrightarrow> j < 2 ^ 64 \<Longrightarrow> f64_in 1 (f64_div (f64_of_int (int i)) (f64_of_int (int j)))"
  by (intro f64_int_ratio) simp_all

end
