(* ===== verification/Go_Strings.thy ===== *)
theory Go_Strings
  imports Prelude "HOL-Library.Sublist"
begin

text \<open>
  The functions of packages \<open>strings\<close>, \<open>bytes\<close> and \<open>bufio\<close> that the parsers use, on
  byte strings (a HOL \<open>char\<close> is a byte): white space, \<open>Fields\<close>, \<open>TrimSpace\<close>,
  \<open>Split\<close>, \<open>SplitN\<close>, \<open>Contains\<close>, \<open>Join\<close>, \<open>ToLower\<close>, the line scanners of
  \<open>bufio\<close>, with the round trips the component proofs need.
\<close>

section \<open>White space\<close>

text \<open>
  \<open>ws_len s\<close> is the length in bytes of the white-space character at the front of \<open>s\<close>,
  0 if there is none: the ASCII ones and the UTF-8 forms of U+0085, U+00A0, U+1680,
  U+2000 to U+200A, U+2028, U+2029, U+202F, U+205F and U+3000. Their first bytes are
  never continuation bytes, so looking for them byte by byte finds the same characters
  as decoding the string does.
\<close>

definition code :: "char \<Rightarrow> nat" where
  "code c = of_char c"

definition ascii_ws :: "char \<Rightarrow> bool" where
  "ascii_ws c \<longleftrightarrow> code c = 32 \<or> (9 \<le> code c \<and> code c \<le> 13)"

fun ws_len :: "string \<Rightarrow> nat" where
  "ws_len [] = 0"
| "ws_len (c # cs) =
     (if ascii_ws c then 1
      else if code c < 128 then 0
      else if code c = 194 then
        (case cs of d # _ \<Rightarrow> if code d = 133 \<or> code d = 160 then 2 else 0 | [] \<Rightarrow> 0)
      else
        (case cs of d # e # _ \<Rightarrow>
           if (code c = 225 \<and> code d = 154 \<and> code e = 128)
            \<or> (code c = 226 \<and> code d = 128
                \<and> ((128 \<le> code e \<and> code e \<le> 138) \<or> code e = 168 \<or> code e = 169 \<or> code e = 175))
            \<or> (code c = 226 \<and> code d = 129 \<and> code e = 159)
            \<or> (code c = 227 \<and> code d = 128 \<and> code e = 128)
           then 3 else 0
         | _ \<Rightarrow> 0))"

lemma ws_len_le: "ws_len s \<le> length s"
  by (cases s) (auto split: list.splits)

text \<open>The characters every token of a kernel file consists of: visible ASCII.\<close>

definition plain_char :: "char \<Rightarrow> bool" where
  "plain_char c \<longleftrightarrow> 33 \<le> code c \<and> code c \<le> 126"

definition plain :: "string \<Rightarrow> bool" where
  "plain s \<longleftrightarrow> s \<noteq> [] \<and> list_all plain_char s"

lemma ws_len_plain [go_simps]: "plain_char c \<Longrightarrow> ws_len (c # cs) = 0"
  by (auto simp: plain_char_def ascii_ws_def)

lemma ascii_ws_len [go_simps]: "ascii_ws c \<Longrightarrow> ws_len (c # cs) = 1"
  by simp

lemma plain_not_ws [go_simps]: "plain_char c \<Longrightarrow> \<not> ascii_ws c"
  by (auto simp: plain_char_def ascii_ws_def)

declare ws_len.simps(2) [simp del]

section \<open>Fields\<close>

text \<open>\<open>strings.Fields\<close> and \<open>bytes.Fields\<close>; \<open>cur\<close> is the field being read.\<close>

function scan_fields :: "string \<Rightarrow> string \<Rightarrow> string list" where
  "scan_fields cur [] = (if cur = [] then [] else [cur])"
| "scan_fields cur (c # cs) =
     (if ws_len (c # cs) = 0 then scan_fields (cur @ [c]) cs
      else if cur = [] then scan_fields [] (drop (ws_len (c # cs) - 1) cs)
      else cur # scan_fields [] (drop (ws_len (c # cs) - 1) cs))"
  by pat_completeness auto
termination
  by (relation "measure (\<lambda>(cur, s). length s)") auto

definition Fields :: "string \<Rightarrow> string list" where
  "Fields s = scan_fields [] s"

lemma scan_fields_nonempty: "f \<in> set (scan_fields cur s) \<Longrightarrow> f \<noteq> []"
  by (induction cur s rule: scan_fields.induct) (auto split: if_splits)

lemma fields_nonempty: "f \<in> set (Fields s) \<Longrightarrow> f \<noteq> []"
  unfolding Fields_def by (rule scan_fields_nonempty)

lemma scan_fields_token:
  "list_all plain_char t \<Longrightarrow> scan_fields cur (t @ s) = scan_fields (cur @ t) s"
  by (induction t arbitrary: cur) (auto simp: go_simps)

lemma fields_Nil [simp]: "Fields [] = []"
  by (simp add: Fields_def)

lemma fields_ws: "ascii_ws c \<Longrightarrow> Fields (c # s) = Fields s"
  by (simp add: Fields_def go_simps)

lemma fields_token_ws:
  assumes "plain t" "ascii_ws c"
  shows "Fields (t @ c # s) = t # Fields s"
  using assms scan_fields_token[of t "[]" "c # s"]
  by (auto simp: Fields_def plain_def go_simps)

lemma fields_token: "plain t \<Longrightarrow> Fields t = [t]"
  using scan_fields_token[of t "[]" "[]"] by (auto simp: Fields_def plain_def)

lemma ascii_ws_space [simp]: "ascii_ws (CHR '' '')" "ascii_ws (CHR 0x09)" "ascii_ws (CHR 0x0A)"
  by (simp_all add: ascii_ws_def code_def)

section \<open>Split and join\<close>

text \<open>\<open>strings.Split\<close> on a one-byte separator.\<close>

fun split_on :: "char \<Rightarrow> string \<Rightarrow> string list" where
  "split_on sep [] = [[]]"
| "split_on sep (c # cs) =
     (if c = sep then [] # split_on sep cs
      else (case split_on sep cs of h # t \<Rightarrow> (c # h) # t | [] \<Rightarrow> [[c]]))"

lemma split_on_nonempty [simp]: "split_on sep s \<noteq> []"
  by (induction s) (auto split: list.splits)

text \<open>\<open>strings.SplitN(s, sep, 2)\<close>.\<close>

definition splitN2 :: "char \<Rightarrow> string \<Rightarrow> string list" where
  "splitN2 sep s =
     (if sep \<in> set s then [takeWhile (\<lambda>c. c \<noteq> sep) s, tl (dropWhile (\<lambda>c. c \<noteq> sep) s)] else [s])"

text \<open>\<open>strings.Join\<close> with a one-byte separator.\<close>

fun join :: "char \<Rightarrow> string list \<Rightarrow> string" where
  "join sep [] = []"
| "join sep [x] = x"
| "join sep (x # xs) = x @ sep # join sep xs"

lemma join_Cons: "xs \<noteq> [] \<Longrightarrow> join sep (x # xs) = x @ sep # join sep xs"
  by (cases xs) auto

lemma split_on_token: "sep \<notin> set t \<Longrightarrow> split_on sep t = [t]"
  by (induction t) auto

lemma split_on_append:
  "sep \<notin> set t \<Longrightarrow> split_on sep (t @ sep # s) = t # split_on sep s"
  by (induction t) auto

lemma split_on_join:
  "xs \<noteq> [] \<Longrightarrow> (\<And>x. x \<in> set xs \<Longrightarrow> sep \<notin> set x) \<Longrightarrow> split_on sep (join sep xs) = xs"
proof (induction xs)
  case Nil
  then show ?case by simp
next
  case (Cons x xs)
  then show ?case
    by (cases "xs = []") (simp_all add: split_on_token join_Cons split_on_append)
qed

lemma join_split_on: "join sep (split_on sep s) = s"
proof (induction s)
  case (Cons c cs)
  then show ?case
    by (cases "split_on sep cs" rule: list.exhaust; cases "tl (split_on sep cs)")
      (auto simp: join_Cons split: list.splits)
qed simp

lemma split_on_no_sep: "x \<in> set (split_on sep s) \<Longrightarrow> sep \<notin> set x"
  by (induction s arbitrary: x) (auto split: if_splits list.splits)

lemma length_split_on: "length (split_on sep s) = Suc (count_list s sep)"
  by (induction s) (auto split: list.splits)

lemma splitN2_at: "sep \<notin> set k \<Longrightarrow> splitN2 sep (k @ sep # v) = [k, v]"
  by (simp add: splitN2_def takeWhile_append dropWhile_append)

lemma splitN2_none: "sep \<notin> set s \<Longrightarrow> splitN2 sep s = [s]"
  by (simp add: splitN2_def)

text \<open>Tokens separated by single blanks or tabs come back from \<open>Fields\<close>.\<close>

lemma fields_join:
  "list_all plain xs \<Longrightarrow> ascii_ws sep \<Longrightarrow> Fields (join sep xs) = xs"
proof (induction xs)
  case Nil
  then show ?case by simp
next
  case (Cons x xs)
  then show ?case
    by (cases "xs = []") (simp_all add: fields_token join_Cons fields_token_ws)
qed

section \<open>Searching\<close>

text \<open>\<open>strings.Contains(s, sub)\<close>.\<close>

fun contains :: "string \<Rightarrow> string \<Rightarrow> bool" where
  "contains sub [] = (sub = [])"
| "contains sub (c # cs) = (prefix sub (c # cs) \<or> contains sub cs)"

lemma contains_iff: "contains sub s \<longleftrightarrow> (\<exists>a b. s = a @ sub @ b)"
proof (induction s)
  case Nil
  then show ?case by auto
next
  case (Cons c cs)
  then show ?case
    by (auto simp: prefix_def Cons_eq_append_conv)
qed

lemma contains_char [go_simps]: "contains [c] s \<longleftrightarrow> c \<in> set s"
  by (induction s) auto

text \<open>\<open>strings.TrimSuffix\<close>.\<close>

definition trim_suffix :: "string \<Rightarrow> string \<Rightarrow> string" where
  "trim_suffix s suf = (if suffix suf s then take (length s - length suf) s else s)"

text \<open>\<open>bytes.Index\<close> and \<open>bytes.LastIndex\<close> of one byte; \<open>None\<close> stands for -1.\<close>

fun index_of :: "char \<Rightarrow> string \<Rightarrow> nat option" where
  "index_of c [] = None"
| "index_of c (x # xs) = (if x = c then Some 0 else map_option Suc (index_of c xs))"

fun last_index_of :: "char \<Rightarrow> string \<Rightarrow> nat option" where
  "last_index_of c [] = None"
| "last_index_of c (x # xs) =
     (case last_index_of c xs of
        Some i \<Rightarrow> Some (Suc i)
      | None \<Rightarrow> if x = c then Some 0 else None)"

lemma index_of_None [go_simps]: "index_of c s = None \<longleftrightarrow> c \<notin> set s"
  by (induction s) auto

lemma last_index_of_None [go_simps]: "last_index_of c s = None \<longleftrightarrow> c \<notin> set s"
  by (induction s) (auto split: option.splits)

lemma index_of_append: "c \<notin> set a \<Longrightarrow> index_of c (a @ c # b) = Some (length a)"
  by (induction a) auto

lemma last_index_of_append: "c \<notin> set b \<Longrightarrow> last_index_of c (a @ c # b) = Some (length a)"
  by (induction a) (auto simp: go_simps split: option.splits)

section \<open>TrimSpace\<close>

function trim_left :: "string \<Rightarrow> string" where
  "trim_left [] = []"
| "trim_left (c # cs) =
     (if ws_len (c # cs) = 0 then c # cs else trim_left (drop (ws_len (c # cs) - 1) cs))"
  by pat_completeness auto
termination
  by (relation "measure length") auto

text \<open>Trimming at the end, on the reversed string.\<close>

fun trim_left_rev :: "string \<Rightarrow> string" where
  "trim_left_rev (c # d # e # cs) =
     (if ascii_ws c then trim_left_rev (d # e # cs)
      else if ws_len [d, c] = 2 then trim_left_rev (e # cs)
      else if ws_len [e, d, c] = 3 then trim_left_rev cs
      else c # d # e # cs)"
| "trim_left_rev [c, d] =
     (if ascii_ws c then trim_left_rev [d] else if ws_len [d, c] = 2 then [] else [c, d])"
| "trim_left_rev [c] = (if ascii_ws c then [] else [c])"
| "trim_left_rev [] = []"

definition trim_space :: "string \<Rightarrow> string" where
  "trim_space s = rev (trim_left_rev (rev (trim_left s)))"

lemma trim_left_plain: "s = [] \<or> plain_char (hd s) \<Longrightarrow> trim_left s = s"
  by (cases s) (auto simp: go_simps)

lemma ws_len_2_plain: "plain_char c \<Longrightarrow> ws_len [d, c] \<noteq> 2"
  by (auto simp: ws_len.simps plain_char_def)

lemma ws_len_3_plain: "plain_char c \<Longrightarrow> ws_len [e, d, c] \<noteq> 3"
  by (auto simp: ws_len.simps plain_char_def)

lemma trim_left_rev_plain: "s = [] \<or> plain_char (hd s) \<Longrightarrow> trim_left_rev s = s"
  by (cases s rule: trim_left_rev.cases) (auto simp: go_simps ws_len_2_plain ws_len_3_plain)

lemma trim_left_rev_ws: "ascii_ws c \<Longrightarrow> trim_left_rev (c # s) = trim_left_rev s"
  by (cases "c # s" rule: trim_left_rev.cases) auto

lemma trim_space_id:
  "s \<noteq> [] \<Longrightarrow> plain_char (hd s) \<Longrightarrow> plain_char (last s) \<Longrightarrow> trim_space s = s"
  by (simp add: trim_space_def trim_left_plain trim_left_rev_plain hd_rev)

lemma trim_space_plain: "plain s \<Longrightarrow> trim_space s = s"
  by (cases s) (auto simp: plain_def list_all_iff intro!: trim_space_id)

text \<open>Blanks around a token go away: the values of \<open>key: value\<close> lines, files that end in a newline.\<close>

lemma trim_left_blanks: "list_all ascii_ws a \<Longrightarrow> trim_left (a @ s) = trim_left s"
  by (induction a) (auto simp: go_simps)

lemma trim_left_rev_blanks: "list_all ascii_ws a \<Longrightarrow> trim_left_rev (a @ s) = trim_left_rev s"
  by (induction a) (auto simp: trim_left_rev_ws)

lemma trim_space_blanks:
  assumes "list_all ascii_ws a" "list_all ascii_ws b"
    and "s \<noteq> []" "plain_char (hd s)" "plain_char (last s)"
  shows "trim_space (a @ s @ b) = s"
proof -
  have "trim_left (a @ s @ b) = s @ b"
    using assms by (simp add: trim_left_blanks trim_left_plain)
  moreover have "trim_left_rev (rev b @ rev s) = rev s"
    using assms by (simp add: trim_left_rev_blanks trim_left_rev_plain hd_rev list_all_rev)
  ultimately show ?thesis by (simp add: trim_space_def)
qed

section \<open>Case\<close>

text \<open>\<open>strings.ToLower\<close> on ASCII; other bytes are kept.\<close>

definition to_lower :: "string \<Rightarrow> string" where
  "to_lower s = map (\<lambda>c. if 65 \<le> code c \<and> code c \<le> 90 then char_of (code c + 32) else c) s"

section \<open>Reading lines\<close>

definition newline :: char where
  "newline = CHR 0x0A"

definition drop_cr :: "string \<Rightarrow> string" where
  "drop_cr s = (if s \<noteq> [] \<and> last s = CHR 0x0D then butlast s else s)"

text \<open>The pieces of a file between newlines; a final newline opens no further line.\<close>

definition raw_lines :: "string \<Rightarrow> string list" where
  "raw_lines s = (let ps = split_on newline s in if last ps = [] then butlast ps else ps)"

text \<open>
  \<open>bufio.Scanner\<close> with \<open>ScanLines\<close>: the scan stops with \<open>bufio.ErrTooLong\<close> at a line
  that does not fit its buffer of 65536 bytes. The lines delivered before that, and
  \<open>sc.Err()\<close>.
\<close>

definition max_scan_token :: nat where
  "max_scan_token = 65536"

definition scan_lines :: "string \<Rightarrow> string list" where
  "scan_lines s = map drop_cr (takeWhile (\<lambda>l. length l < max_scan_token) (raw_lines s))"

definition err_too_long :: go_error where
  "err_too_long = Sentinel ''bufio.Scanner: token too long''"

definition scan_err :: "string \<Rightarrow> go_error option" where
  "scan_err s =
     (if list_all (\<lambda>l. length l < max_scan_token) (raw_lines s) then None else Some err_too_long)"

text \<open>A file of newline-terminated lines.\<close>

definition unlines :: "string list \<Rightarrow> string" where
  "unlines ls = concat (map (\<lambda>l. l @ [newline]) ls)"

definition is_line :: "string \<Rightarrow> bool" where
  "is_line l \<longleftrightarrow> newline \<notin> set l \<and> length l < max_scan_token \<and> (l = [] \<or> last l \<noteq> CHR 0x0D)"

lemma split_unlines:
  "(\<And>l. l \<in> set ls \<Longrightarrow> newline \<notin> set l) \<Longrightarrow> split_on newline (unlines ls) = ls @ [[]]"
  by (induction ls) (auto simp: unlines_def split_on_append)

lemma raw_lines_unlines:
  "(\<And>l. l \<in> set ls \<Longrightarrow> newline \<notin> set l) \<Longrightarrow> raw_lines (unlines ls) = ls"
  by (simp add: raw_lines_def split_unlines)

lemma scan_lines_unlines:
  assumes "list_all is_line ls"
  shows "scan_lines (unlines ls) = ls" and "scan_err (unlines ls) = None"
proof -
  have raw: "raw_lines (unlines ls) = ls"
    using assms by (intro raw_lines_unlines) (auto simp: list_all_iff is_line_def)
  have "takeWhile (\<lambda>l. length l < max_scan_token) ls = ls"
    using assms by (auto simp: takeWhile_eq_all_conv list_all_iff is_line_def)
  moreover have "map drop_cr ls = ls"
    using assms by (auto simp: list_all_iff is_line_def drop_cr_def intro!: map_idI)
  ultimately show "scan_lines (unlines ls) = ls"
    by (simp only: scan_lines_def raw)
  show "scan_err (unlines ls) = None"
    using assms by (auto simp: scan_err_def raw list_all_iff is_line_def)
qed

text \<open>Lines of visible characters, blanks and tabs.\<close>

definition text_char :: "char \<Rightarrow> bool" where
  "text_char c \<longleftrightarrow> plain_char c \<or> c = CHR '' '' \<or> c = CHR 0x09"

lemma text_char_simps [simp]: "plain_char c \<Longrightarrow> text_char c" "text_char (CHR '' '')" "text_char (CHR 0x09)"
  by (simp_all add: text_char_def)

lemma is_line_text:
  assumes "list_all text_char l" "length l < max_scan_token" shows "is_line l"
proof -
  have "\<not> text_char newline" "\<not> text_char (CHR 0x0D)"
    by (simp_all add: text_char_def plain_char_def newline_def code_def)
  then show ?thesis using assms last_in_set[of l] unfolding is_line_def list_all_iff by metis
qed

lemma join_text: "list_all plain xs \<Longrightarrow> text_char sep \<Longrightarrow> list_all text_char (join sep xs)"
proof (induction xs)
  case (Cons x xs)
  then show ?case by (cases "xs = []") (auto simp: join_Cons plain_def list_all_iff)
qed simp

lemma join_length: "length (join sep xs) \<le> sum_list (map (\<lambda>x. Suc (length x)) xs)"
proof (induction xs)
  case (Cons x xs)
  then show ?case by (cases "xs = []") (auto simp: join_Cons)
qed simp

lemma join_length_le:
  assumes "\<And>x. x \<in> set xs \<Longrightarrow> length x \<le> k" shows "length (join sep xs) \<le> Suc k * length xs"
proof -
  have "sum_list (map (\<lambda>x. Suc (length x)) xs) \<le> Suc k * length xs"
    using assms by (induction xs) fastforce+
  with join_length[of sep xs] show ?thesis by linarith
qed

end
