(* ===== verification/Go_Numbers.thy ===== *)
theory Go_Numbers
  imports Go_Strings
begin

text \<open>
  Package \<open>strconv\<close>: \<open>ParseUint(s, 10, 64)\<close>, \<open>ParseInt(s, 10, 64)\<close>, \<open>Atoi\<close> and
  \<open>Itoa\<close>, with their error values, the values they return beside a range error, and the
  round trip of printing and parsing; and the decimal scanner behind the \<open>%d\<close> verb of
  \<open>fmt.Sscanf\<close>.
\<close>

section \<open>Digits\<close>

definition is_digit :: "char \<Rightarrow> bool" where
  "is_digit c \<longleftrightarrow> 48 \<le> code c \<and> code c \<le> 57"

definition digit_val :: "char \<Rightarrow> nat" where
  "digit_val c = code c - 48"

definition digit_char :: "nat \<Rightarrow> char" where
  "digit_char d = char_of (48 + d)"

lemma code_digit_char [go_simps]: "d < 10 \<Longrightarrow> code (digit_char d) = 48 + d"
  by (simp add: digit_char_def code_def)

lemma is_digit_digit_char [simp]: "d < 10 \<Longrightarrow> is_digit (digit_char d)"
  by (simp add: is_digit_def go_simps)

lemma digit_val_digit_char [simp]: "d < 10 \<Longrightarrow> digit_val (digit_char d) = d"
  by (simp add: digit_val_def go_simps)

lemma digit_plain: "is_digit c \<Longrightarrow> plain_char c"
  by (simp add: is_digit_def plain_char_def)

section \<open>ParseUint\<close>

text \<open>
  The loop of \<open>ParseUint\<close>: a byte that is no digit is a syntax error, a value that
  leaves 64 bits a range error, whichever comes first from the left.
\<close>

fun parse_uint_loop :: "nat \<Rightarrow> string \<Rightarrow> num_error + nat" where
  "parse_uint_loop n [] = Inr n"
| "parse_uint_loop n (c # cs) =
     (if \<not> is_digit c then Inl ErrSyntax
      else if 2 ^ 64 \<le> 10 * n + digit_val c then Inl ErrRange
      else parse_uint_loop (10 * n + digit_val c) cs)"

definition parse_uint_nat :: "string \<Rightarrow> num_error + nat" where
  "parse_uint_nat s = (if s = [] then Inl ErrSyntax else parse_uint_loop 0 s)"

definition parse_uint :: "string \<Rightarrow> u64 outcome" where
  "parse_uint s = (case parse_uint_nat s of Inr n \<Rightarrow> Ok (of_nat n) | Inl e \<Rightarrow> Err (NumError e))"

lemma parse_uint_loop_bound: "parse_uint_loop n s = Inr m \<Longrightarrow> n < 2 ^ 64 \<Longrightarrow> m < 2 ^ 64"
  by (induction n s rule: parse_uint_loop.induct) (auto split: if_splits)

lemma parse_uint_nat_bound: "parse_uint_nat s = Inr m \<Longrightarrow> m < 2 ^ 64"
  using parse_uint_loop_bound[of 0 s m] by (simp add: parse_uint_nat_def split: if_splits)

lemma parse_uint_not_Panic [simp]: "parse_uint s \<noteq> Panic"
  by (simp add: parse_uint_def split: sum.splits)

lemma parse_uint_Ok_iff:
  "parse_uint s = Ok v \<longleftrightarrow> parse_uint_nat s = Inr (unat v)"
proof
  assume "parse_uint s = Ok v"
  then obtain n where n: "parse_uint_nat s = Inr n" "v = of_nat n"
    by (auto simp: parse_uint_def split: sum.splits)
  then show "parse_uint_nat s = Inr (unat v)"
    using parse_uint_nat_bound[OF n(1)] by (simp add: unat_of_nat_u64)
qed (simp add: parse_uint_def)

lemma parse_uint_Err_iff:
  "parse_uint s = Err e \<longleftrightarrow> (\<exists>k. parse_uint_nat s = Inl k \<and> e = NumError k)"
  by (auto simp: parse_uint_def split: sum.splits)

lemma parse_uint_loop_digits:
  "parse_uint_loop n s = Inr m \<Longrightarrow> list_all is_digit s"
  by (induction n s rule: parse_uint_loop.induct) (auto split: if_splits)

section \<open>ParseInt and Atoi\<close>

text \<open>
  The value and the error: on a range error \<open>ParseInt\<close> returns the nearest bound, on a
  syntax error 0.
\<close>

definition parse_int :: "string \<Rightarrow> int \<times> num_error option" where
  "parse_int s =
     (case s of [] \<Rightarrow> (0, Some ErrSyntax)
      | c # cs \<Rightarrow>
        (let neg = (c = CHR ''-'');
             body = (if c = CHR ''-'' \<or> c = CHR ''+'' then cs else c # cs)
         in case parse_uint_nat body of
              Inl ErrSyntax \<Rightarrow> (0, Some ErrSyntax)
            | Inl ErrRange \<Rightarrow> (if neg then - (2 ^ 63) else 2 ^ 63 - 1, Some ErrRange)
            | Inr n \<Rightarrow>
                if \<not> neg \<and> 2 ^ 63 \<le> n then (2 ^ 63 - 1, Some ErrRange)
                else if neg \<and> 2 ^ 63 < n then (- (2 ^ 63), Some ErrRange)
                else (if neg then - int n else int n, None)))"

definition atoi :: "string \<Rightarrow> int outcome" where
  "atoi s = (case parse_int s of (n, None) \<Rightarrow> Ok n | (_, Some e) \<Rightarrow> Err (NumError e))"

lemma atoi_not_Panic [simp]: "atoi s \<noteq> Panic"
  by (simp add: atoi_def split: prod.splits option.splits)

lemma parse_int_range: "- (2 ^ 63) \<le> fst (parse_int s) \<and> fst (parse_int s) < 2 ^ 63"
  by (simp add: parse_int_def Let_def split: list.splits sum.splits num_error.splits)

section \<open>Itoa\<close>

fun show_nat :: "nat \<Rightarrow> string" where
  "show_nat n = (if n < 10 then [digit_char n] else show_nat (n div 10) @ [digit_char (n mod 10)])"

declare show_nat.simps [simp del]

definition itoa :: "int \<Rightarrow> string" where
  "itoa i = (if i < 0 then CHR ''-'' # show_nat (nat (- i)) else show_nat (nat i))"

lemma show_nat_digits: "list_all is_digit (show_nat n)"
proof (induction n rule: show_nat.induct)
  case (1 n)
  then show ?case
    by (cases "n < 10") (simp_all add: show_nat.simps[of n])
qed

lemma length_show_nat: "n < 10 ^ k \<Longrightarrow> 0 < k \<Longrightarrow> length (show_nat n) \<le> k"
proof (induction k arbitrary: n)
  case (Suc k)
  show ?case
  proof (cases "n < 10")
    case True
    then show ?thesis by (subst show_nat.simps) simp
  next
    case False
    then have "0 < k" using Suc.prems by (cases k) auto
    moreover have "n div 10 < 10 ^ k" using Suc.prems by (simp add: less_mult_imp_div_less)
    ultimately have "length (show_nat (n div 10)) \<le> k" by (rule Suc.IH[rotated])
    then show ?thesis using False by (subst show_nat.simps) simp
  qed
qed simp

lemma show_nat_nonempty [simp]: "show_nat n \<noteq> []"
  by (subst show_nat.simps) simp

lemma show_nat_plain: "plain (show_nat n)"
  using show_nat_digits[of n] by (auto simp: plain_def list_all_iff digit_plain)

lemma length_show_u64: "length (show_nat (unat (w :: u64))) \<le> 20"
proof -
  have "(2 :: nat) ^ 64 < 10 ^ 20" by simp
  then show ?thesis using unat_u64_bound[of w] by (intro length_show_nat) linarith+
qed

lemma parse_uint_loop_append:
  "parse_uint_loop n s = Inr m \<Longrightarrow> parse_uint_loop n (s @ t) = parse_uint_loop m t"
  by (induction n s rule: parse_uint_loop.induct) (auto split: if_splits)

lemma parse_uint_loop_show:
  "n < 2 ^ 64 \<Longrightarrow> parse_uint_loop 0 (show_nat n) = Inr n"
proof (induction n rule: show_nat.induct)
  case (1 n)
  show ?case
  proof (cases "n < 10")
    case True
    then show ?thesis by (simp add: show_nat.simps[of n])
  next
    case False
    with 1 have "parse_uint_loop 0 (show_nat (n div 10)) = Inr (n div 10)" by simp
    from parse_uint_loop_append[OF this, of "[digit_char (n mod 10)]"] False 1(2)
    show ?thesis by (simp add: show_nat.simps[of n])
  qed
qed

lemma parse_uint_loop_range:
  "parse_uint_loop n s = Inl ErrRange \<Longrightarrow> parse_uint_loop n (s @ t) = Inl ErrRange"
  by (induction n s rule: parse_uint_loop.induct) (auto split: if_splits)

lemma parse_uint_loop_show_range:
  "2 ^ 64 \<le> n \<Longrightarrow> parse_uint_loop 0 (show_nat n) = Inl ErrRange"
proof (induction n rule: show_nat.induct)
  case (1 n)
  then have big: "\<not> n < 10" by simp
  then have sh: "show_nat n = show_nat (n div 10) @ [digit_char (n mod 10)]" by (subst show_nat.simps) simp
  show ?case
  proof (cases "n div 10 < 2 ^ 64")
    case True
    from parse_uint_loop_append[OF parse_uint_loop_show[OF True], of "[digit_char (n mod 10)]"] 1(2)
    show ?thesis by (simp add: sh)
  next
    case False
    with 1(1) big have "parse_uint_loop 0 (show_nat (n div 10)) = Inl ErrRange" by simp
    then show ?thesis unfolding sh by (rule parse_uint_loop_range)
  qed
qed

lemma parse_uint_show_range: "2 ^ 64 \<le> n \<Longrightarrow> parse_uint (show_nat n) = Err (NumError ErrRange)"
  by (simp add: parse_uint_def parse_uint_nat_def parse_uint_loop_show_range)

lemma parse_uint_signed: "parse_uint (CHR ''-'' # s) = Err (NumError ErrSyntax)"
  by (simp add: parse_uint_def parse_uint_nat_def is_digit_def code_def)

lemma parse_int_negative:
  "0 < n \<Longrightarrow> parse_int (CHR ''-'' # show_nat n) =
     (if n \<le> 2 ^ 63 then (- int n, None) else (- (2 ^ 63), Some ErrRange))"
  by (cases "n < 2 ^ 64")
    (auto simp: parse_int_def parse_uint_nat_def parse_uint_loop_show parse_uint_loop_show_range not_less)

lemma parse_uint_show [simp]: "n < 2 ^ 64 \<Longrightarrow> parse_uint (show_nat n) = Ok (of_nat n)"
  by (simp add: parse_uint_def parse_uint_nat_def parse_uint_loop_show)

lemma parse_uint_show_unat [simp]: "parse_uint (show_nat (unat w)) = Ok w"
proof -
  from parse_uint_show[OF unat_u64_bound[of w]] show ?thesis by simp
qed

lemma hd_show_nat: "is_digit (hd (show_nat n))"
  using show_nat_digits[of n] by (cases "show_nat n") auto

lemma digit_not_sign: "is_digit c \<Longrightarrow> c \<noteq> CHR ''-'' \<and> c \<noteq> CHR ''+''"
  by (auto simp: is_digit_def code_def)

lemma parse_int_itoa:
  assumes "- (2 ^ 63) \<le> i" "i < 2 ^ 63"
  shows "parse_int (itoa i) = (i, None)"
proof (cases "i < 0")
  case True
  then have "nat (- i) < 2 ^ 64" "\<not> 2 ^ 63 < nat (- i)" using assms by simp_all
  with True show ?thesis
    by (simp add: itoa_def parse_int_def parse_uint_nat_def parse_uint_loop_show)
next
  case False
  obtain c cs where s: "show_nat (nat i) = c # cs" by (meson neq_Nil_conv show_nat_nonempty)
  then have "c \<noteq> CHR ''-'' \<and> c \<noteq> CHR ''+''"
    using hd_show_nat[of "nat i"] digit_not_sign by simp
  moreover have "parse_uint_loop 0 (c # cs) = Inr (nat i)"
    using assms False parse_uint_loop_show[of "nat i"] s by simp
  moreover have "\<not> 2 ^ 63 \<le> nat i" using assms False by simp
  ultimately show ?thesis
    using False s by (simp add: itoa_def parse_int_def parse_uint_nat_def del: parse_uint_loop.simps)
qed

lemma atoi_itoa: "- (2 ^ 63) \<le> i \<Longrightarrow> i < 2 ^ 63 \<Longrightarrow> atoi (itoa i) = Ok i"
  by (simp add: atoi_def parse_int_itoa)

text \<open>Blanks around a number are trimmed.\<close>

lemma trim_number:
  assumes "list_all ascii_ws a" "list_all ascii_ws b"
  shows "trim_space (a @ show_nat n @ b) = show_nat n"
    and "trim_space (a @ (CHR ''-'' # show_nat n) @ b) = CHR ''-'' # show_nat n"
proof -
  have p: "list_all plain_char (show_nat n)" using show_nat_plain[of n] by (simp add: plain_def)
  then show "trim_space (a @ show_nat n @ b) = show_nat n"
    using assms by (intro trim_space_blanks) (auto simp: list_all_iff)
  show "trim_space (a @ (CHR ''-'' # show_nat n) @ b) = CHR ''-'' # show_nat n"
    using assms p by (intro trim_space_blanks) (auto simp: list_all_iff plain_char_def code_def)
qed

section \<open>The %d verb of Sscanf\<close>

text \<open>
  \<open>%d\<close> skips blanks (a newline is an error), takes an optional sign for a signed
  variable, then the longest run of decimal digits, of which there must be one; the run
  is converted by \<open>ParseInt\<close> or \<open>ParseUint\<close>. The result is the value and the rest of the
  input.
\<close>

definition is_blank :: "char \<Rightarrow> bool" where
  "is_blank c \<longleftrightarrow> ascii_ws c \<and> c \<noteq> CHR 0x0A"

definition skip_blanks :: "string \<Rightarrow> string" where
  "skip_blanks s = dropWhile is_blank s"

definition scan_uint :: "string \<Rightarrow> (u64 \<times> string) outcome" where
  "scan_uint s =
     (let t = skip_blanks s; ds = takeWhile is_digit t
      in if ds = [] then Err (Message ''expected integer'')
         else case parse_uint ds of
                Ok v \<Rightarrow> Ok (v, dropWhile is_digit t)
              | _ \<Rightarrow> Err (Message ''integer overflow''))"

definition scan_int :: "string \<Rightarrow> (int \<times> string) outcome" where
  "scan_int s =
     (let t = skip_blanks s;
          sign = (case t of c # _ \<Rightarrow> if c = CHR ''-'' \<or> c = CHR ''+'' then [c] else [] | [] \<Rightarrow> []);
          u = drop (length sign) t;
          ds = takeWhile is_digit u
      in if ds = [] then Err (Message ''expected integer'')
         else case atoi (sign @ ds) of
                Ok v \<Rightarrow> Ok (v, dropWhile is_digit u)
              | _ \<Rightarrow> Err (Message ''integer overflow''))"

text \<open>A literal byte of the format must come next.\<close>

definition scan_char :: "char \<Rightarrow> string \<Rightarrow> string outcome" where
  "scan_char c s =
     (case s of x # xs \<Rightarrow> if x = c then Ok xs else Err (Message ''input does not match format'')
      | [] \<Rightarrow> Err EOF)"

lemma digit_not_blank: "is_digit c \<Longrightarrow> \<not> is_blank c"
  by (auto simp: is_digit_def is_blank_def ascii_ws_def)

lemma skip_blanks_digit: "is_digit c \<Longrightarrow> skip_blanks (c # s) = c # s"
  by (simp add: skip_blanks_def digit_not_blank)

lemma takeWhile_show_nat:
  assumes "s = [] \<or> \<not> is_digit (hd s)"
  shows "takeWhile is_digit (show_nat n @ s) = show_nat n"
    and "dropWhile is_digit (show_nat n @ s) = s"
proof -
  have all: "\<And>c. c \<in> set (show_nat n) \<Longrightarrow> is_digit c"
    using show_nat_digits[of n] by (simp add: list_all_iff)
  have "takeWhile is_digit s = []" "dropWhile is_digit s = s"
    using assms by (cases s; simp)+
  then show "takeWhile is_digit (show_nat n @ s) = show_nat n"
    and "dropWhile is_digit (show_nat n @ s) = s"
    using all by (simp_all add: takeWhile_append2 dropWhile_append2)
qed

lemma skip_blanks_show_nat: "skip_blanks (show_nat n @ s) = show_nat n @ s"
  using hd_show_nat[of n] by (cases "show_nat n") (auto simp: skip_blanks_digit)

lemma scan_uint_show:
  assumes "n < 2 ^ 64" "s = [] \<or> \<not> is_digit (hd s)"
  shows "scan_uint (show_nat n @ s) = Ok (of_nat n, s)"
  using assms by (simp add: scan_uint_def skip_blanks_show_nat takeWhile_show_nat)

lemma atoi_show_nat: "n < 2 ^ 63 \<Longrightarrow> atoi (show_nat n) = Ok (int n)"
  using atoi_itoa[of "int n"] by (simp add: itoa_def)

lemma scan_int_show:
  assumes "n < 2 ^ 63" "s = [] \<or> \<not> is_digit (hd s)"
  shows "scan_int (show_nat n @ s) = Ok (int n, s)"
proof -
  obtain c cs where c: "show_nat n = c # cs" by (meson neq_Nil_conv show_nat_nonempty)
  then have "c \<noteq> CHR ''-'' \<and> c \<noteq> CHR ''+''"
    using hd_show_nat[of n] digit_not_sign by simp
  then have "(case show_nat n @ s of c # _ \<Rightarrow> if c = CHR ''-'' \<or> c = CHR ''+'' then [c] else []
     | [] \<Rightarrow> []) = []"
    by (simp add: c)
  then show ?thesis
    using assms
    by (simp add: scan_int_def skip_blanks_show_nat takeWhile_show_nat atoi_show_nat del: list.case)
qed

section \<open>Error numbers\<close>

text \<open>A \<open>syscall.Errno\<close> as an error; the number 0 is an error as well.\<close>

definition syscall_Errno :: "nat \<Rightarrow> go_error" where
  "syscall_Errno n = Sentinel (''errno '' @ show_nat n)"

definition EINVAL :: go_error where
  "EINVAL = Sentinel ''EINVAL''"

end
