(* ===== verification/Go_Floats.thy ===== *)
theory Go_Floats
  imports Float64 Go_Numbers
begin

text \<open>
  \<open>strconv.ParseFloat(s, 64)\<close>: the syntax of decimal and hexadecimal floating-point
  numbers, infinities and NaN, converted exactly and rounded once.
\<close>

definition lower_char :: "char \<Rightarrow> char" where
  "lower_char c = (if 65 \<le> code c \<and> code c \<le> 90 then char_of (code c + 32) else c)"

definition is_hex_digit :: "char \<Rightarrow> bool" where
  "is_hex_digit c \<longleftrightarrow> is_digit c \<or> (97 \<le> code (lower_char c) \<and> code (lower_char c) \<le> 102)"

definition hex_val :: "char \<Rightarrow> nat" where
  "hex_val c = (if is_digit c then digit_val c else code (lower_char c) - 87)"

text \<open>\<open>underscoreOK\<close>: an underscore stands between digits; \<open>prev\<close> is the kind of the last byte.\<close>

datatype seen = SeenDigit | SeenUnderscore | SeenOther

fun underscore_loop :: "bool \<Rightarrow> seen \<Rightarrow> string \<Rightarrow> bool" where
  "underscore_loop hex prev [] = (prev \<noteq> SeenUnderscore)"
| "underscore_loop hex prev (c # cs) =
     (if is_digit c \<or> (hex \<and> is_hex_digit c) then underscore_loop hex SeenDigit cs
      else if c = CHR ''_'' then prev = SeenDigit \<and> underscore_loop hex SeenUnderscore cs
      else prev \<noteq> SeenUnderscore \<and> underscore_loop hex SeenOther cs)"

text \<open>
  The digits of the mantissa from the left: value so far, digits after the point,
  whether the point and a digit were seen, and the rest of the input.
\<close>

fun mantissa :: "bool \<Rightarrow> nat \<Rightarrow> nat \<Rightarrow> bool \<Rightarrow> bool \<Rightarrow> string \<Rightarrow> nat \<times> nat \<times> bool \<times> string" where
  "mantissa hex m f dot dig [] = (m, f, dig, [])"
| "mantissa hex m f dot dig (c # cs) =
     (if c = CHR ''_'' then mantissa hex m f dot dig cs
      else if c = CHR ''.'' then
        (if dot then (m, f, dig, c # cs) else mantissa hex m f True dig cs)
      else if is_digit c \<or> (hex \<and> is_hex_digit c) then
        mantissa hex ((if hex then 16 else 10) * m + hex_val c) (if dot then Suc f else f) dot True cs
      else (m, f, dig, c # cs))"

text \<open>The exponent's digits; its value stops growing at 10000 or more.\<close>

fun exponent :: "nat \<Rightarrow> string \<Rightarrow> nat \<times> string" where
  "exponent e [] = (e, [])"
| "exponent e (c # cs) =
     (if c = CHR ''_'' then exponent e cs
      else if is_digit c then exponent (if e < 10000 then 10 * e + digit_val c else e) cs
      else (e, c # cs))"

definition read_exponent :: "bool \<Rightarrow> string \<Rightarrow> int option" where
  "read_exponent hex s =
     (case s of
        [] \<Rightarrow> if hex then None else Some 0
      | c # cs \<Rightarrow>
          if lower_char c \<noteq> (if hex then CHR ''p'' else CHR ''e'') then None
          else
            (let neg = (cs \<noteq> [] \<and> hd cs = CHR ''-'');
                 ds = (if cs \<noteq> [] \<and> (hd cs = CHR ''-'' \<or> hd cs = CHR ''+'') then tl cs else cs)
             in if ds = [] \<or> \<not> is_digit (hd ds) then None
                else case exponent 0 ds of
                       (e, []) \<Rightarrow> Some (if neg then - int e else int e)
                     | _ \<Rightarrow> None))"

definition convert_float :: "bool \<Rightarrow> bool \<Rightarrow> nat \<Rightarrow> int \<Rightarrow> f64 outcome" where
  "convert_float hex neg m e =
     (case f64_round neg (of_nat m * (if hex then 2 powi e else 10 powi e)) of
        F64Inf _ \<Rightarrow> Err (NumError ErrRange)
      | x \<Rightarrow> Ok x)"

definition read_number :: "bool \<Rightarrow> bool \<Rightarrow> string \<Rightarrow> f64 outcome" where
  "read_number hex neg d =
     (case mantissa hex 0 0 False False d of (m, f, dig, rest) \<Rightarrow>
        if \<not> dig then Err (NumError ErrSyntax)
        else case read_exponent hex rest of
               None \<Rightarrow> Err (NumError ErrSyntax)
             | Some e \<Rightarrow>
                 if CHR ''_'' \<in> set d \<and> \<not> underscore_loop hex (if hex then SeenDigit else SeenOther) d
                 then Err (NumError ErrSyntax)
                 else convert_float hex neg m (if hex then e - 4 * int f else e - int f))"

definition parse_float :: "string \<Rightarrow> f64 outcome" where
  "parse_float s =
     (let neg = (s \<noteq> [] \<and> hd s = CHR ''-'');
          signed = (s \<noteq> [] \<and> (hd s = CHR ''-'' \<or> hd s = CHR ''+''));
          b = (if signed then tl s else s);
          low = map lower_char b;
          hex = (length b > 2 \<and> hd b = CHR ''0'' \<and> lower_char (b ! 1) = CHR ''x'')
      in if low = ''inf'' \<or> low = ''infinity'' then Ok (F64Inf neg)
         else if \<not> signed \<and> low = ''nan'' then Ok F64NaN
         else read_number hex neg (if hex then drop 2 b else b))"

lemma convert_float_not_Panic [simp]: "convert_float hex neg m e \<noteq> Panic"
  by (simp add: convert_float_def split: f64.split)

lemma read_number_not_Panic [simp]: "read_number hex neg d \<noteq> Panic"
  by (simp add: read_number_def split: prod.split option.split)

lemma parse_float_not_Panic [simp]: "parse_float s \<noteq> Panic"
  by (simp add: parse_float_def Let_def)

lemma mantissa_digits:
  "list_all is_digit s \<Longrightarrow> s \<noteq> [] \<or> dig \<Longrightarrow> parse_uint_loop m s = Inr n \<Longrightarrow>
     mantissa False m f False dig s = (n, f, True, [])"
proof (induction s arbitrary: m dig)
  case (Cons c cs)
  then have c: "is_digit c" by simp
  then have "c \<noteq> CHR ''_''" "c \<noteq> CHR ''.''" by (auto simp: is_digit_def code_def)
  with Cons c show ?case
    by (simp add: hex_val_def split: if_splits)
qed simp

text \<open>A decimal integer of at most 53 bits is read exactly.\<close>

lemma digits_no_letters:
  assumes "x \<in> set (show_nat n)"
  shows "lower_char x = x" "x \<noteq> CHR ''x''" "x \<noteq> CHR ''_''" "x \<noteq> CHR ''i''" "x \<noteq> CHR ''n''"
    "x \<noteq> CHR ''-''" "x \<noteq> CHR ''+''"
proof -
  have "is_digit x" using assms show_nat_digits[of n] by (simp add: list_all_iff)
  then show "lower_char x = x" "x \<noteq> CHR ''x''" "x \<noteq> CHR ''_''" "x \<noteq> CHR ''i''" "x \<noteq> CHR ''n''"
    "x \<noteq> CHR ''-''" "x \<noteq> CHR ''+''"
    by (auto simp: lower_char_def is_digit_def code_def)
qed

lemma read_number_show:
  assumes "n \<le> 2 ^ 53" shows "read_number False False (show_nat n) = Ok (F64Fin False (of_nat n))"
proof -
  have mant: "mantissa False 0 0 False False (show_nat n) = (n, 0, True, [])"
    using mantissa_digits[OF show_nat_digits, of n False 0 n 0] assms by (simp add: parse_uint_loop_show)
  have us: "CHR ''_'' \<notin> set (show_nat n)" using digits_no_letters(3) by blast
  have n: "int n \<le> 2 ^ 53" using assms by simp
  have "(of_int (int n) :: rat) \<le> p2 53" using n by (simp only: p2_int of_int_le_iff)
  also have "\<dots> \<le> p2 1023" by (simp only: p2_le_iff)
  finally have "f64_round False (of_int (int n)) = F64Fin False (of_int (int n))"
    using n round53_int[of "int n"] by (subst f64_round_fin) auto
  then show ?thesis
    by (simp add: read_number_def mant us read_exponent_def convert_float_def)
qed

lemma parse_float_read_number: "parse_float (show_nat n) = read_number False False (show_nat n)"
proof -
  define s where "s = show_nat n"
  have ne: "s \<noteq> []" by (simp add: s_def)
  note no = digits_no_letters[of _ n, folded s_def]
  have h: "hd s \<in> set s" using ne by simp
  have sign: "hd s \<noteq> CHR ''-''" "hd s \<noteq> CHR ''+''" using no(6,7)[OF h] .
  have low: "map lower_char s = s" using no(1) by (intro map_idI)
  have "\<not> (length s > 2 \<and> hd s = CHR ''0'' \<and> lower_char (s ! 1) = CHR ''x'')"
    using no(1,2) by (metis Suc_1 Suc_lessD nth_mem)
  moreover have "s \<noteq> ''inf''" "s \<noteq> ''infinity''" "s \<noteq> ''nan''" using no(4,5)[OF h] by auto
  ultimately show ?thesis
    unfolding s_def[symmetric] parse_float_def Let_def using sign by (auto simp: low)
qed

lemma parse_float_show:
  "n \<le> 2 ^ 53 \<Longrightarrow> parse_float (show_nat n) = Ok (F64Fin False (of_nat n))"
  by (simp add: parse_float_read_number read_number_show)

end
