(* ===== verification/Go_OS.thy ===== *)
theory Go_OS
  imports Go_Strings
begin

text \<open>
  The operating system as the library sees it: a snapshot of the file system and of the
  process environment, read through the functions of packages \<open>os\<close> and \<open>ioutil\<close>. A
  model function takes one snapshot, so a file does not change while one call runs; two
  calls may take different ones. Lookups in the user database and environment variables
  are part of the snapshot too.
\<close>

record dirent =
  ent_name :: string
  ent_is_dir :: bool

record os_env =
  file_of :: "string \<Rightarrow> errno + string"
  dir_of :: "string \<Rightarrow> errno + dirent list"
  link_of :: "string \<Rightarrow> errno + string"
  stat_of :: "string \<Rightarrow> errno + bool"
  env_var :: "string \<Rightarrow> string option"
  user_of :: "string \<Rightarrow> string option"

text \<open>\<open>stat_of\<close> says whether the path exists and, if so, whether it is a directory.\<close>

definition os_ReadFile :: "os_env \<Rightarrow> string \<Rightarrow> string outcome" where
  "os_ReadFile w p = (case file_of w p of Inr s \<Rightarrow> Ok s | Inl e \<Rightarrow> Err (PathError e))"

definition os_ReadDir :: "os_env \<Rightarrow> string \<Rightarrow> dirent list outcome" where
  "os_ReadDir w p = (case dir_of w p of Inr s \<Rightarrow> Ok s | Inl e \<Rightarrow> Err (PathError e))"

definition os_Readlink :: "os_env \<Rightarrow> string \<Rightarrow> string outcome" where
  "os_Readlink w p = (case link_of w p of Inr s \<Rightarrow> Ok s | Inl e \<Rightarrow> Err (PathError e))"

definition os_Stat :: "os_env \<Rightarrow> string \<Rightarrow> bool outcome" where
  "os_Stat w p = (case stat_of w p of Inr s \<Rightarrow> Ok s | Inl e \<Rightarrow> Err (PathError e))"

lemma os_not_Panic [simp]:
  "os_ReadFile w p \<noteq> Panic" "os_ReadDir w p \<noteq> Panic" "os_Readlink w p \<noteq> Panic" "os_Stat w p \<noteq> Panic"
  by (simp_all add: os_ReadFile_def os_ReadDir_def os_Readlink_def os_Stat_def split: sum.splits)

lemma os_ReadFile_Ok [go_outcome]: "os_ReadFile w p = Ok s \<longleftrightarrow> file_of w p = Inr s"
  by (simp add: os_ReadFile_def split: sum.splits)

lemma os_ReadFile_Err [go_outcome]:
  "os_ReadFile w p = Err e \<longleftrightarrow> (\<exists>n. file_of w p = Inl n \<and> e = PathError n)"
  by (auto simp: os_ReadFile_def split: sum.splits)

lemma os_ReadDir_Ok [go_outcome]: "os_ReadDir w p = Ok s \<longleftrightarrow> dir_of w p = Inr s"
  by (simp add: os_ReadDir_def split: sum.splits)

text \<open>A snapshot with the files of an association list, and nothing else: for the witnesses.\<close>

definition files_env :: "(string \<times> string) list \<Rightarrow> os_env" where
  "files_env fs =
     \<lparr>file_of = (\<lambda>p. case map_of fs p of Some s \<Rightarrow> Inr s | None \<Rightarrow> Inl ENOENT),
      dir_of = (\<lambda>_. Inl ENOENT), link_of = (\<lambda>_. Inl ENOENT),
      stat_of = (\<lambda>p. case map_of fs p of Some _ \<Rightarrow> Inr False | None \<Rightarrow> Inl ENOENT),
      env_var = (\<lambda>_. None), user_of = (\<lambda>_. None)\<rparr>"

end
