(* ===== verification/Resolve.thy ===== *)
theory Resolve
  imports Go_OS
begin

text \<open>
  \<open>metric/system/resolve/resolve.go\<close>: the host file system resolver, on top of
  \<open>filepath.Clean\<close>, \<open>Join\<close>, \<open>Base\<close> and \<open>IsAbs\<close> for Unix paths. The interface
  \<open>Resolver\<close> is the locale \<open>host_resolver\<close>: its laws say that the three methods agree
  and that nothing but a ".." element leads out of the root. \<open>TestingResolver\<close> is
  proved to satisfy them.
\<close>

section \<open>Paths\<close>

definition slash :: char where
  "slash = CHR ''/''"

text \<open>The elements of a path cleaned one by one; \<open>st\<close> is the result so far, reversed.\<close>

fun clean_stack :: "bool \<Rightarrow> string list \<Rightarrow> string list \<Rightarrow> string list" where
  "clean_stack rooted st [] = rev st"
| "clean_stack rooted st (c # cs) =
     (if c = [] \<or> c = ''.'' then clean_stack rooted st cs
      else if c = ''..'' then
        (case st of
           t # st' \<Rightarrow>
             if t = ''..'' then clean_stack rooted (''..'' # st) cs else clean_stack rooted st' cs
         | [] \<Rightarrow> if rooted then clean_stack rooted [] cs else clean_stack rooted [''..''] cs)
      else clean_stack rooted (c # st) cs)"

definition path_Clean :: "string \<Rightarrow> string" where
  "path_Clean p =
     (if p = [] then ''.''
      else let rooted = (hd p = slash);
               out = (if rooted then [slash] else []) @ join slash (clean_stack rooted [] (split_on slash p))
           in if out = [] then ''.'' else out)"

definition path_Join :: "string list \<Rightarrow> string" where
  "path_Join es =
     (let es' = dropWhile (\<lambda>e. e = []) es in if es' = [] then [] else path_Clean (join slash es'))"

definition path_Base :: "string \<Rightarrow> string" where
  "path_Base p =
     (if p = [] then ''.''
      else let s = rev (dropWhile (\<lambda>c. c = slash) (rev p))
           in if s = [] then [slash] else last (split_on slash s))"

definition path_IsAbs :: "string \<Rightarrow> bool" where
  "path_IsAbs p \<longleftrightarrow> p \<noteq> [] \<and> hd p = slash"

text \<open>Directory and file names, and the absolute path made of a list of them.\<close>

definition is_name :: "string \<Rightarrow> bool" where
  "is_name c \<longleftrightarrow> c \<noteq> [] \<and> c \<noteq> ''.'' \<and> c \<noteq> ''..'' \<and> slash \<notin> set c"

definition abs_path :: "string list \<Rightarrow> string" where
  "abs_path cs = slash # join slash cs"

text \<open>The names a path adds when it is joined to a directory.\<close>

definition path_names :: "string \<Rightarrow> string list" where
  "path_names p = filter (\<lambda>c. c \<noteq> [] \<and> c \<noteq> ''.'') (split_on slash p)"

definition has_dotdot :: "string \<Rightarrow> bool" where
  "has_dotdot p \<longleftrightarrow> ''..'' \<in> set (split_on slash p)"

lemma split_on_mid: "split_on sep (a @ sep # b) = split_on sep a @ split_on sep b"
  by (induction a) (auto split: list.splits)

lemma clean_stack_filter:
  "''..'' \<notin> set cs \<Longrightarrow> clean_stack r st cs = rev st @ filter (\<lambda>c. c \<noteq> [] \<and> c \<noteq> ''.'') cs"
  by (induction cs arbitrary: st) auto

lemma filter_names: "list_all is_name cs \<Longrightarrow> filter (\<lambda>c. c \<noteq> [] \<and> c \<noteq> ''.'') cs = cs"
  by (auto simp: list_all_iff is_name_def filter_id_conv)

lemma names_no_dotdot: "list_all is_name cs \<Longrightarrow> ''..'' \<notin> set cs"
  by (auto simp: list_all_iff is_name_def)

lemma split_abs_path:
  "list_all is_name cs \<Longrightarrow> cs \<noteq> [] \<Longrightarrow> split_on slash (abs_path cs) = [] # cs"
  by (simp add: abs_path_def split_on_join list_all_iff is_name_def)

lemma split_abs_path_names:
  assumes "list_all is_name cs"
  shows "filter (\<lambda>c. c \<noteq> [] \<and> c \<noteq> ''.'') (split_on slash (abs_path cs)) = cs"
    and "''..'' \<notin> set (split_on slash (abs_path cs))"
  using assms
  by (cases "cs = []"; simp add: split_abs_path filter_names names_no_dotdot;
      simp add: abs_path_def)+

lemma path_names_abs_path: "list_all is_name cs \<Longrightarrow> path_names (abs_path cs) = cs"
  by (simp add: path_names_def split_abs_path_names)

lemma has_dotdot_abs_path: "list_all is_name cs \<Longrightarrow> \<not> has_dotdot (abs_path cs)"
  by (simp add: has_dotdot_def split_abs_path_names)

lemma clean_rooted:
  assumes "p \<noteq> []" "hd p = slash" "\<not> has_dotdot p"
  shows "path_Clean p = abs_path (path_names p)"
  using assms
  by (simp add: path_Clean_def clean_stack_filter abs_path_def path_names_def has_dotdot_def
      del: split_on.simps)

text \<open>Joining a path to an absolute directory adds the names of the path.\<close>

lemma join_dir_path:
  assumes "list_all is_name root" "\<not> has_dotdot p" "p \<noteq> []"
  shows "path_Join [abs_path root, p] = abs_path (root @ path_names p)"
proof -
  have "path_Join [abs_path root, p] = path_Clean (abs_path root @ slash # p)"
    by (simp add: path_Join_def abs_path_def)
  also have "\<dots> = abs_path (path_names (abs_path root @ slash # p))"
  proof (rule clean_rooted)
    show "\<not> has_dotdot (abs_path root @ slash # p)"
      using assms(2) split_abs_path_names(2)[OF assms(1)] by (simp add: has_dotdot_def split_on_mid)
  qed (simp_all add: abs_path_def)
  also have "path_names (abs_path root @ slash # p) = root @ path_names p"
    using split_abs_path_names(1)[OF assms(1)] by (simp add: path_names_def split_on_mid)
  finally show ?thesis .
qed

section \<open>The resolver\<close>

record resolver =
  ResolveHostFS :: "string \<Rightarrow> string"
  IsSet :: bool
  Join :: "string list \<Rightarrow> string"

record TestingResolver =
  tr_path :: string
  tr_isSet :: bool

definition NewTestResolver :: "string \<Rightarrow> TestingResolver" where
  "NewTestResolver path =
     (if path = [] \<or> path = ''/'' then \<lparr>tr_path = ''/'', tr_isSet = False\<rparr>
      else \<lparr>tr_path = path, tr_isSet = True\<rparr>)"

definition tr_ResolveHostFS :: "TestingResolver \<Rightarrow> string \<Rightarrow> string" where
  "tr_ResolveHostFS t path = path_Join [tr_path t, path]"

definition tr_Join :: "TestingResolver \<Rightarrow> string list \<Rightarrow> string" where
  "tr_Join t path = (let fullpath = [tr_path t] @ path in path_Join fullpath)"

definition tr_IsSet :: "TestingResolver \<Rightarrow> bool" where
  "tr_IsSet t = tr_isSet t"

definition testing_resolver :: "TestingResolver \<Rightarrow> resolver" where
  "testing_resolver t =
     \<lparr>ResolveHostFS = tr_ResolveHostFS t, IsSet = tr_IsSet t, Join = tr_Join t\<rparr>"

text \<open>
  The interface: what every caller of a resolver relies on. \<open>root\<close> is the list of names
  of the alternate root, empty when none is set.
\<close>

locale host_resolver =
  fixes root :: "string list"
    and resolve :: "string \<Rightarrow> string"
    and joins :: "string list \<Rightarrow> string"
    and isset :: bool
  assumes resolve_is_join: "resolve p = joins [p]"
    and root_names: "list_all is_name root"
    and isset_root: "isset \<longleftrightarrow> root \<noteq> []"
    and resolve_under: "p \<noteq> [] \<Longrightarrow> \<not> has_dotdot p \<Longrightarrow> resolve p = abs_path (root @ path_names p)"
begin

text \<open>With no root set, a clean absolute path resolves to itself.\<close>

lemma unset_identity:
  assumes "\<not> isset" "list_all is_name cs" shows "resolve (abs_path cs) = abs_path cs"
proof -
  have "abs_path cs \<noteq> []" by (simp add: abs_path_def)
  then show ?thesis
    using assms resolve_under[of "abs_path cs"]
    by (simp add: isset_root has_dotdot_abs_path path_names_abs_path)
qed

text \<open>A path without ".." stays below the root.\<close>

lemma confined:
  assumes "p \<noteq> []" "\<not> has_dotdot p" shows "prefix (abs_path root) (resolve p)"
proof (cases "path_names p = [] \<or> root = []")
  case True
  then show ?thesis using assms by (auto simp: resolve_under abs_path_def)
next
  case False
  have "join slash (xs @ ys) = join slash xs @ slash # join slash ys"
    if "xs \<noteq> []" "ys \<noteq> []" for xs ys :: "string list"
    using that
  proof (induction xs)
    case (Cons x xs)
    then show ?case by (cases "xs = []") (simp_all add: join_Cons)
  qed simp
  with False assms show ?thesis by (simp add: resolve_under abs_path_def)
qed

text \<open>Different clean paths resolve to different files.\<close>

lemma injective:
  assumes "list_all is_name cs" "list_all is_name ds" "resolve (abs_path cs) = resolve (abs_path ds)"
  shows "cs = ds"
proof -
  have r: "resolve (abs_path xs) = abs_path (root @ xs)" if "list_all is_name xs" for xs
    using that by (subst resolve_under)
      (simp_all add: has_dotdot_abs_path path_names_abs_path, simp add: abs_path_def)
  have "path_names (abs_path (root @ cs)) = path_names (abs_path (root @ ds))"
    using assms by (simp add: r)
  then show ?thesis
    using assms root_names by (simp add: path_names_abs_path)
qed

end

lemma NewTestResolver_path:
  assumes "list_all is_name root"
  shows "tr_path (NewTestResolver (abs_path root)) = abs_path root"
    and "tr_isSet (NewTestResolver (abs_path root)) \<longleftrightarrow> root \<noteq> []"
proof -
  have "abs_path root = ''/'' \<longleftrightarrow> root = []"
  proof
    assume "abs_path root = ''/''"
    then have "abs_path root = abs_path []" by (simp add: abs_path_def slash_def)
    then have "path_names (abs_path root) = path_names (abs_path [])" by simp
    then show "root = []" using assms by (simp add: path_names_abs_path)
  qed (simp add: abs_path_def slash_def)
  then show "tr_path (NewTestResolver (abs_path root)) = abs_path root"
    and "tr_isSet (NewTestResolver (abs_path root)) \<longleftrightarrow> root \<noteq> []"
    by (auto simp: NewTestResolver_def abs_path_def slash_def)
qed

lemma testing_host_resolver:
  assumes "list_all is_name root"
  shows "host_resolver root (tr_ResolveHostFS (NewTestResolver (abs_path root)))
           (tr_Join (NewTestResolver (abs_path root))) (tr_IsSet (NewTestResolver (abs_path root)))"
  using assms
  by unfold_locales
    (auto simp: tr_ResolveHostFS_def tr_Join_def tr_IsSet_def NewTestResolver_path join_dir_path)

text \<open>The resolver of an installation that monitors its own root, as \<open>NewTestResolver("/")\<close> makes it.\<close>

interpretation own_root: host_resolver "[]" "tr_ResolveHostFS (NewTestResolver ''/'')"
  "tr_Join (NewTestResolver ''/'')" "tr_IsSet (NewTestResolver ''/'')"
  using testing_host_resolver[of "[]"] by (simp add: abs_path_def slash_def)

definition host_root :: resolver where
  "host_root = testing_resolver (NewTestResolver ''/'')"

lemma host_root_path: "list_all is_name cs \<Longrightarrow> ResolveHostFS host_root (abs_path cs) = abs_path cs"
  using own_root.unset_identity
  by (simp add: host_root_def testing_resolver_def tr_IsSet_def NewTestResolver_def)



end
