(* ===== verification/CPU_Stat.thy ===== *)
theory CPU_Stat
  imports Go_Floats Resolve
begin

text \<open>
  \<open>metric/cpu\<close>: the data of \<open>metrics.go\<close> and the parsers of
  \<open>metrics_procfs_common.go\<close> and \<open>metrics_linux.go\<close>. Two packages outside the
  repository appear as arguments: \<open>SumOptUint\<close> of the \<open>opt\<close> package, whose law is the
  hypothesis \<open>opt_sum\<close>, and \<open>Errors.Err\<close> of \<open>multierror\<close>, whose law is \<open>multi_error\<close>.
  Proved: what a well-formed \<open>/proc/stat\<close> yields, when a line makes the parser panic,
  and the round trip of a CPU line.
\<close>

section \<open>Data\<close>

record CPU =
  cpu_User :: "u64 option"
  cpu_Sys :: "u64 option"
  cpu_Idle :: "u64 option"
  cpu_Nice :: "u64 option"
  cpu_Irq :: "u64 option"
  cpu_Wait :: "u64 option"
  cpu_SoftIrq :: "u64 option"
  cpu_Stolen :: "u64 option"

record CPUInfo =
  ci_ModelName :: string
  ci_ModelNumber :: string
  ci_Mhz :: f64
  ci_PhysicalID :: int
  ci_CoreID :: int

record CPUMetrics =
  totals :: CPU
  cpu_list :: "CPU list"
  cm_CPUInfo :: "CPUInfo list"

definition zeroCPU :: CPU where
  "zeroCPU = \<lparr>cpu_User = None, cpu_Sys = None, cpu_Idle = None, cpu_Nice = None,
     cpu_Irq = None, cpu_Wait = None, cpu_SoftIrq = None, cpu_Stolen = None\<rparr>"

definition zeroCPUInfo :: CPUInfo where
  "zeroCPUInfo = \<lparr>ci_ModelName = [], ci_ModelNumber = [], ci_Mhz = F64Fin False 0,
     ci_PhysicalID = 0, ci_CoreID = 0\<rparr>"

definition zeroCPUMetrics :: CPUMetrics where
  "zeroCPUMetrics = \<lparr>totals = zeroCPU, cpu_list = [], cm_CPUInfo = []\<rparr>"

section \<open>The packages outside the repository\<close>

text \<open>
  \<open>opt.SumOptUint\<close>: the sum of the values that are present, as \<open>uint64\<close>.
\<close>

definition opt_sum :: "(u64 option list \<Rightarrow> u64) \<Rightarrow> bool" where
  "opt_sum SumOptUint \<longleftrightarrow> (\<forall>xs. SumOptUint xs = sum_list (map (valueOr 0) xs))"

text \<open>\<open>multierror.Errors.Err\<close>: no error for an empty list, some error otherwise.\<close>

definition multi_error :: "(go_error list \<Rightarrow> go_error option) \<Rightarrow> bool" where
  "multi_error errs_Err \<longleftrightarrow> (\<forall>es. errs_Err es = None \<longleftrightarrow> es = [])"

text \<open>Functions with these laws, for the witnesses.\<close>

definition sum_present :: "u64 option list \<Rightarrow> u64" where
  "sum_present xs = sum_list (map (valueOr 0) xs)"

definition first_error :: "go_error list \<Rightarrow> go_error option" where
  "first_error es = (case es of [] \<Rightarrow> None | e # _ \<Rightarrow> Some e)"

lemma opt_sum_present: "opt_sum sum_present"
  by (simp add: opt_sum_def sum_present_def)

lemma multi_first_error: "multi_error first_error"
  by (simp add: multi_error_def first_error_def split: list.splits)

text \<open>\<open>CPU.Total\<close>.\<close>

definition CPU_Total :: "(u64 option list \<Rightarrow> u64) \<Rightarrow> CPU \<Rightarrow> u64" where
  "CPU_Total SumOptUint c =
     SumOptUint [cpu_User c, cpu_Nice c, cpu_Sys c, cpu_Idle c, cpu_Wait c, cpu_Irq c,
                 cpu_SoftIrq c, cpu_Stolen c]"

section \<open>Parsing /proc/stat\<close>

definition touint :: "string \<Rightarrow> u64 outcome" where
  "touint val = parse_uint val"

definition isCPUGlobalLine :: "string \<Rightarrow> bool" where
  "isCPUGlobalLine line \<longleftrightarrow> length line > 4 \<and> take 4 line = ''cpu ''"

definition isCPULine :: "string \<Rightarrow> bool" where
  "isCPULine line \<longleftrightarrow> length line > 3 \<and> take 3 line = ''cpu'' \<and> line ! 3 \<noteq> CHR '' ''"

text \<open>The closure \<open>tryParseUint\<close>; it appends to the errors it captures.\<close>

definition tryParseUint :: "string \<Rightarrow> string \<Rightarrow> go_error list \<Rightarrow> u64 option \<times> go_error list" where
  "tryParseUint name field errs =
     (case touint field of
        Ok u \<Rightarrow> (Some u, errs)
      | _ \<Rightarrow> (None, errs @ [Message (''failed to parse '' @ name)]))"

definition parseCPULine :: "(go_error list \<Rightarrow> go_error option) \<Rightarrow> string \<Rightarrow> CPU outcome" where
  "parseCPULine errs_Err line =
     (let fs = Fields line in
      and_then (at_index fs 1) (\<lambda>f. let (user, errs) = tryParseUint ''user'' f [] in
      and_then (at_index fs 2) (\<lambda>f. let (nice, errs) = tryParseUint ''nice'' f errs in
      and_then (at_index fs 3) (\<lambda>f. let (sys, errs) = tryParseUint ''sys'' f errs in
      and_then (at_index fs 4) (\<lambda>f. let (idle, errs) = tryParseUint ''idle'' f errs in
      and_then (at_index fs 5) (\<lambda>f. let (wait, errs) = tryParseUint ''wait'' f errs in
      and_then (at_index fs 6) (\<lambda>f. let (irq, errs) = tryParseUint ''irq'' f errs in
      and_then (at_index fs 7) (\<lambda>f. let (softirq, errs) = tryParseUint ''softirq'' f errs in
      and_then (at_index fs 8) (\<lambda>f. let (stolen, errs) = tryParseUint ''stolen'' f errs in
        case errs_Err errs of
          None \<Rightarrow> Ok \<lparr>cpu_User = user, cpu_Sys = sys, cpu_Idle = idle, cpu_Nice = nice,
                     cpu_Irq = irq, cpu_Wait = wait, cpu_SoftIrq = softirq, cpu_Stolen = stolen\<rparr>
        | Some e \<Rightarrow> Err e)))))))))"

fun statScanner_loop :: "(string \<Rightarrow> CPU outcome) \<Rightarrow> CPUMetrics \<Rightarrow> string list \<Rightarrow> CPUMetrics outcome" where
  "statScanner_loop lineReader cpuData [] = Ok cpuData"
| "statScanner_loop lineReader cpuData (text # rest) =
     and_then
       (if isCPUGlobalLine text then
          and_then (wrap_err ''error parsing global CPU line'' (lineReader text))
            (\<lambda>c. Ok (cpuData\<lparr>totals := c\<rparr>))
        else Ok cpuData)
       (\<lambda>cpuData.
          and_then
            (if isCPULine text then
               and_then (wrap_err ''error parsing CPU line'' (lineReader text))
                 (\<lambda>perCPU. Ok (cpuData\<lparr>cpu_list := cpu_list cpuData @ [perCPU]\<rparr>))
             else Ok cpuData)
            (\<lambda>cpuData. statScanner_loop lineReader cpuData rest))"

text \<open>The scanner's own error is not looked at.\<close>

definition statScanner :: "(string \<Rightarrow> CPU outcome) \<Rightarrow> string \<Rightarrow> CPUMetrics outcome" where
  "statScanner lineReader file = statScanner_loop lineReader zeroCPUMetrics (scan_lines file)"

definition scanStatFile :: "(go_error list \<Rightarrow> go_error option) \<Rightarrow> string \<Rightarrow> CPUMetrics outcome" where
  "scanStatFile errs_Err file =
     wrap_err ''error scanning stat file'' (statScanner (parseCPULine errs_Err) file)"

section \<open>Parsing /proc/cpuinfo\<close>

text \<open>One \<open>key: value\<close> line; other keys leave \<open>current\<close> as it is.\<close>

definition cpuinfo_field :: "CPUInfo \<Rightarrow> string \<Rightarrow> string \<Rightarrow> CPUInfo outcome" where
  "cpuinfo_field current k v =
     (if k = ''model'' then Ok (current\<lparr>ci_ModelNumber := v\<rparr>)
      else if k = ''model name'' then Ok (current\<lparr>ci_ModelName := v\<rparr>)
      else if k = ''physical id'' then
        and_then (wrap_err ''parsing physical ID'' (atoi v)) (\<lambda>i. Ok (current\<lparr>ci_PhysicalID := i\<rparr>))
      else if k = ''core id'' then
        and_then (wrap_err ''parsing core ID'' (atoi v)) (\<lambda>i. Ok (current\<lparr>ci_CoreID := i\<rparr>))
      else if k = ''cpu MHz'' then
        and_then (wrap_err ''parsing CPU Mhz'' (parse_float v)) (\<lambda>m. Ok (current\<lparr>ci_Mhz := m\<rparr>))
      else Ok current)"

fun cpuinfo_loop :: "CPUInfo list \<Rightarrow> CPUInfo \<Rightarrow> string list \<Rightarrow> CPUInfo list outcome" where
  "cpuinfo_loop cpuInfos current [] = Ok cpuInfos"
| "cpuinfo_loop cpuInfos current (line # rest) =
     (let split = split_on (CHR '':'') line in
      if length split \<noteq> 2 then cpuinfo_loop (cpuInfos @ [current]) zeroCPUInfo rest
      else and_then (cpuinfo_field current (trim_space (split ! 0)) (trim_space (split ! 1)))
             (\<lambda>current. cpuinfo_loop cpuInfos current rest))"

definition cpuinfoScanner :: "string \<Rightarrow> CPUInfo list outcome" where
  "cpuinfoScanner file = cpuinfo_loop [] zeroCPUInfo (scan_lines file)"

definition scanCPUInfoFile :: "string \<Rightarrow> CPUInfo list outcome" where
  "scanCPUInfoFile file = cpuinfoScanner file"

text \<open>\<open>Get\<close> for procfs systems.\<close>

definition CPU_Get :: "(go_error list \<Rightarrow> go_error option) \<Rightarrow> os_env \<Rightarrow> resolver \<Rightarrow> CPUMetrics outcome" where
  "CPU_Get errs_Err w procfs =
     and_then (wrap_err ''error opening file'' (os_ReadFile w (ResolveHostFS procfs ''/proc/stat''))) (\<lambda>fd.
     and_then (wrap_err ''scanning stat file'' (scanStatFile errs_Err fd)) (\<lambda>metrics.
     and_then (wrap_err ''opening'' (os_ReadFile w (ResolveHostFS procfs ''/proc/cpuinfo''))) (\<lambda>cpuInfoFd.
     and_then (scanCPUInfoFile cpuInfoFd) (\<lambda>cpuInfo.
       Ok (metrics\<lparr>cm_CPUInfo := cpuInfo\<rparr>)))))"

section \<open>CPU lines\<close>

text \<open>A CPU line of the kernel: a label and at least eight counters.\<close>

definition show_cpu_line :: "string \<Rightarrow> u64 list \<Rightarrow> string" where
  "show_cpu_line label vs = join (CHR '' '') (label # map (\<lambda>v. show_nat (unat v)) vs)"

definition cpu_of_values :: "u64 list \<Rightarrow> CPU" where
  "cpu_of_values vs =
     \<lparr>cpu_User = Some (vs ! 0), cpu_Sys = Some (vs ! 2), cpu_Idle = Some (vs ! 3),
      cpu_Nice = Some (vs ! 1), cpu_Irq = Some (vs ! 5), cpu_Wait = Some (vs ! 4),
      cpu_SoftIrq = Some (vs ! 6), cpu_Stolen = Some (vs ! 7)\<rparr>"

lemma fields_cpu_line:
  "plain label \<Longrightarrow> Fields (show_cpu_line label vs) = label # map (\<lambda>v. show_nat (unat v)) vs"
  unfolding show_cpu_line_def
  by (rule fields_join) (auto simp: list_all_iff show_nat_plain)

lemma parseCPULine_show:
  assumes "plain label" "8 \<le> length vs" "multi_error errs_Err"
  shows "parseCPULine errs_Err (show_cpu_line label vs) = Ok (cpu_of_values vs)"
proof -
  have "errs_Err [] = None" using assms(3) by (simp add: multi_error_def)
  moreover have "vs \<noteq> []" using assms(2) by auto
  ultimately show ?thesis
    using assms(1,2)
    by (simp add: parseCPULine_def fields_cpu_line tryParseUint_def touint_def cpu_of_values_def Let_def)
qed

text \<open>A line with fewer than nine fields is a panic, any other line is not.\<close>

lemma tryParse_let [simp]:
  "(let (a, b) = tryParseUint n f e in g a b) = g (fst (tryParseUint n f e)) (snd (tryParseUint n f e))"
  by (simp add: Let_def split_beta)

lemma parseCPULine_panic_iff:
  "parseCPULine errs_Err line = Panic \<longleftrightarrow> length (Fields line) < 9"
proof -
  have stop: "(case x of None \<Rightarrow> Ok c | Some e \<Rightarrow> Err e) \<noteq> Panic" for x :: "go_error option" and c :: CPU
    by (cases x) auto
  show ?thesis
    by (simp only: parseCPULine_def Let_def[of "Fields line"] tryParse_let go_outcome stop) auto
qed

lemma ex_list_cons:
  "(\<exists>pre x post. y # ys = pre @ x # post \<and> P pre x) \<longleftrightarrow>
     P [] y \<or> (\<exists>pre x post. ys = pre @ x # post \<and> P (y # pre) x)"
  by (auto simp: Cons_eq_append_conv)

lemma isCPU_exclusive: "isCPUGlobalLine l \<Longrightarrow> \<not> isCPULine l"
proof
  assume g: "isCPUGlobalLine l" and c: "isCPULine l"
  have "take 4 l ! 3 = l ! 3" by simp
  moreover have "take 4 l ! 3 = CHR '' ''" using g by (simp only: isCPUGlobalLine_def) simp
  ultimately have "l ! 3 = CHR '' ''" by simp
  with c show False by (simp add: isCPULine_def)
qed

lemma statScanner_step_panic:
  "statScanner_loop (parseCPULine m) d (l # ls) = Panic \<longleftrightarrow>
     (isCPUGlobalLine l \<or> isCPULine l) \<and> length (Fields l) < 9 \<or>
     (\<exists>d'. statScanner_loop (parseCPULine m) d [l] = Ok d' \<and> statScanner_loop (parseCPULine m) d' ls = Panic)"
  using isCPU_exclusive[of l] parseCPULine_panic_iff[of m l]
  by (cases "isCPUGlobalLine l"; cases "isCPULine l"; cases "parseCPULine m l") auto

lemma statScanner_step_ok:
  "(\<exists>d'. statScanner_loop f d (l # ls) = Ok d') \<longleftrightarrow>
     (\<exists>d1 d'. statScanner_loop f d [l] = Ok d1 \<and> statScanner_loop f d1 ls = Ok d')"
  by (cases "isCPUGlobalLine l"; cases "isCPULine l"; cases "f l") auto

definition short_cpu_line :: "string \<Rightarrow> bool" where
  "short_cpu_line l \<longleftrightarrow> (isCPUGlobalLine l \<or> isCPULine l) \<and> length (Fields l) < 9"

lemma statScanner_loop_panics:
  "statScanner_loop (parseCPULine m) d ls = Panic \<longleftrightarrow>
     (\<exists>pre l post. ls = pre @ l # post \<and>
        (\<exists>d'. statScanner_loop (parseCPULine m) d pre = Ok d') \<and> short_cpu_line l)"
proof (induction ls arbitrary: d)
  case (Cons l ls)
  let ?run = "\<lambda>d ls d'. statScanner_loop (parseCPULine m) d ls = Ok d'"
  have "(\<exists>pre x post. l # ls = pre @ x # post \<and> (\<exists>d'. ?run d pre d') \<and> short_cpu_line x) \<longleftrightarrow>
      short_cpu_line l \<or> (\<exists>pre x post. ls = pre @ x # post \<and> (\<exists>d'. ?run d (l # pre) d') \<and> short_cpu_line x)"
    by (subst ex_list_cons) (simp only: statScanner_loop.simps(1) outcome.inject simp_thms)
  also have "\<dots> \<longleftrightarrow> short_cpu_line l \<or> (\<exists>d1. ?run d [l] d1 \<and>
      (\<exists>pre x post. ls = pre @ x # post \<and> (\<exists>d'. ?run d1 pre d') \<and> short_cpu_line x))"
    unfolding statScanner_step_ok[of "parseCPULine m" d l] by blast
  also have "\<dots> \<longleftrightarrow> statScanner_loop (parseCPULine m) d (l # ls) = Panic"
    unfolding statScanner_step_panic[of m d l] short_cpu_line_def[symmetric] Cons.IH[symmetric] ..
  finally show ?case by (rule sym)
qed simp

section \<open>The files of the kernel\<close>

text \<open>
  \<open>/proc/stat\<close> as the kernel writes it: the global line, one line per CPU, then lines
  of other names (\<open>intr\<close>, \<open>ctxt\<close>, \<open>btime\<close>, ...).
\<close>

definition core_label :: "nat \<Rightarrow> string" where
  "core_label i = ''cpu'' @ show_nat i"

definition show_stat :: "u64 list \<Rightarrow> u64 list list \<Rightarrow> string list \<Rightarrow> string" where
  "show_stat tot cores others =
     unlines (show_cpu_line ''cpu'' tot # map2 (\<lambda>i vs. show_cpu_line (core_label i) vs) [0 ..< length cores] cores
              @ others)"

definition counters_ok :: "u64 list \<Rightarrow> bool" where
  "counters_ok vs \<longleftrightarrow> 8 \<le> length vs \<and> length vs \<le> 100"

definition other_line :: "string \<Rightarrow> bool" where
  "other_line l \<longleftrightarrow> is_line l \<and> take 3 l \<noteq> ''cpu''"

lemma plain_cpu [simp]: "plain ''cpu''"
  by (simp add: plain_def plain_char_def code_def)

lemma plain_core_label [simp]: "plain (core_label i)"
  using show_nat_plain[of i] by (simp add: core_label_def plain_def plain_char_def code_def)

lemma show_cpu_line_text: "plain label \<Longrightarrow> list_all text_char (show_cpu_line label vs)"
  unfolding show_cpu_line_def by (rule join_text) (auto simp: list_all_iff show_nat_plain)

lemma show_cpu_line_is_line:
  assumes "plain label" "length label \<le> 100" "counters_ok vs" shows "is_line (show_cpu_line label vs)"
proof (rule is_line_text[OF show_cpu_line_text[OF assms(1)]])
  let ?xs = "label # map (\<lambda>v. show_nat (unat v)) vs"
  have "length x \<le> 100" if "x \<in> set ?xs" for x
    using that assms(2) by (auto intro: order_trans[OF length_show_u64])
  then have "length (show_cpu_line label vs) \<le> Suc 100 * length ?xs"
    unfolding show_cpu_line_def by (rule join_length_le)
  also have "\<dots> < max_scan_token" using assms(3) by (simp add: counters_ok_def max_scan_token_def)
  finally show "length (show_cpu_line label vs) < max_scan_token" .
qed

lemma show_cpu_line_cons: "vs \<noteq> [] \<Longrightarrow> show_cpu_line label vs = label @ CHR '' '' # join (CHR '' '') (map (\<lambda>v. show_nat (unat v)) vs)"
  by (simp add: show_cpu_line_def join_Cons)

lemma show_cpu_line_global:
  "counters_ok vs \<Longrightarrow> isCPUGlobalLine (show_cpu_line ''cpu'' vs) \<and> \<not> isCPULine (show_cpu_line ''cpu'' vs)"
proof -
  assume "counters_ok vs"
  then obtain v w us where vs: "vs = v # w # us" by (cases vs; cases "tl vs") (auto simp: counters_ok_def)
  obtain c s where "show_nat (unat v) = c # s" by (meson neq_Nil_conv show_nat_nonempty)
  then show ?thesis by (simp add: vs show_cpu_line_def isCPUGlobalLine_def isCPULine_def join_Cons)
qed

lemma show_cpu_line_core:
  "counters_ok vs \<Longrightarrow> \<not> isCPUGlobalLine (show_cpu_line (core_label i) vs) \<and> isCPULine (show_cpu_line (core_label i) vs)"
proof -
  assume "counters_ok vs"
  then have "vs \<noteq> []" by (auto simp: counters_ok_def)
  moreover obtain c s where c: "show_nat i = c # s" by (meson neq_Nil_conv show_nat_nonempty)
  moreover have "c \<noteq> CHR '' ''" using hd_show_nat[of i] c by (auto simp: is_digit_def code_def)
  ultimately show ?thesis
    by (simp add: show_cpu_line_cons core_label_def isCPUGlobalLine_def isCPULine_def)
qed

lemma other_line_skipped: "other_line l \<Longrightarrow> \<not> isCPUGlobalLine l \<and> \<not> isCPULine l"
proof -
  assume "other_line l"
  moreover have "take 3 l = ''cpu''" if "take 4 l = ''cpu ''"
    using arg_cong[OF that, of "take 3"] by simp
  ultimately show ?thesis by (auto simp: other_line_def isCPUGlobalLine_def isCPULine_def)
qed

lemma stat_loop_others:
  "list_all other_line ls \<Longrightarrow> statScanner_loop f d ls = Ok d"
  by (induction ls) (auto simp: other_line_skipped)

lemma stat_loop_cores:
  assumes "multi_error errs_Err"
  shows "list_all counters_ok cores \<Longrightarrow> length is = length cores \<Longrightarrow>
    statScanner_loop (parseCPULine errs_Err) d (map2 (\<lambda>i vs. show_cpu_line (core_label i) vs) is cores @ rest)
      = statScanner_loop (parseCPULine errs_Err) (d\<lparr>cpu_list := cpu_list d @ map cpu_of_values cores\<rparr>) rest"
proof (induction cores arbitrary: "is" d)
  case (Cons vs cores)
  then obtain i js where "is": "is = i # js" by (cases "is") auto
  have vs: "counters_ok vs" "8 \<le> length vs" using Cons.prems by (auto simp: counters_ok_def)
  show ?case using Cons.prems Cons.IH[of js]
    by (simp add: "is" show_cpu_line_core[OF vs(1)] parseCPULine_show[OF plain_core_label vs(2) assms])
qed simp

lemma other_lines: "list_all other_line ls \<Longrightarrow> list_all is_line ls"
  by (auto simp: list_all_iff other_line_def)

lemma show_stat_lines:
  assumes "counters_ok tot" "list_all counters_ok cores" "length cores < 10 ^ 90" "list_all other_line others"
  shows "scan_lines (show_stat tot cores others) =
    show_cpu_line ''cpu'' tot # map2 (\<lambda>i vs. show_cpu_line (core_label i) vs) [0 ..< length cores] cores @ others"
  unfolding show_stat_def
proof (rule scan_lines_unlines(1))
  have "is_line l" if l: "l \<in> set (map2 (\<lambda>i vs. show_cpu_line (core_label i) vs) [0 ..< length cores] cores)" for l
  proof -
    obtain i vs where iv: "l = show_cpu_line (core_label i) vs" "vs \<in> set cores" "i < length cores"
      using l by (auto simp: set_zip)
    have "length (show_nat i) \<le> 90" using iv(3) assms(3) by (intro length_show_nat) auto
    then have "length (core_label i) \<le> 100" by (simp add: core_label_def)
    then show ?thesis using iv assms(2)
      by (auto simp: list_all_iff intro!: show_cpu_line_is_line)
  qed
  then have "list_all is_line (map2 (\<lambda>i vs. show_cpu_line (core_label i) vs) [0 ..< length cores] cores)"
    by (simp only: list_all_iff) blast
  then show "list_all is_line (show_cpu_line ''cpu'' tot # map2 (\<lambda>i vs. show_cpu_line (core_label i) vs) [0 ..< length cores] cores @ others)"
    using assms show_cpu_line_is_line[of "''cpu''" tot] other_lines by simp
qed

lemma scanStatFile_show:
  assumes "multi_error errs_Err" "counters_ok tot" "list_all counters_ok cores" "length cores < 10 ^ 90"
    and "list_all other_line others"
  shows "scanStatFile errs_Err (show_stat tot cores others) =
     Ok \<lparr>totals = cpu_of_values tot, cpu_list = map cpu_of_values cores, cm_CPUInfo = []\<rparr>"
proof -
  have "8 \<le> length tot" using assms(2) by (simp add: counters_ok_def)
  note head = parseCPULine_show[OF plain_cpu this assms(1)]
  show ?thesis
    by (simp add: scanStatFile_def statScanner_def show_stat_lines[OF assms(2-5)] show_cpu_line_global[OF assms(2)]
        head stat_loop_cores[OF assms(1,3)] stat_loop_others[OF assms(5)] zeroCPUMetrics_def)
qed

text \<open>\<open>/proc/cpuinfo\<close>: a block of \<open>key: value\<close> lines per processor, closed by an empty line.\<close>

record processor =
  pr_model :: nat
  pr_name :: string
  pr_mhz :: nat
  pr_physical :: nat
  pr_core :: nat

definition colon_line :: "string \<Rightarrow> string \<Rightarrow> string" where
  "colon_line k v = k @ '' : '' @ v"

definition show_processor :: "processor \<Rightarrow> string list" where
  "show_processor p =
     [colon_line ''vendor_id'' ''GenuineIntel'',
      colon_line ''model'' (show_nat (pr_model p)),
      colon_line ''model name'' (pr_name p),
      colon_line ''cpu MHz'' (show_nat (pr_mhz p)),
      colon_line ''physical id'' (show_nat (pr_physical p)),
      colon_line ''core id'' (show_nat (pr_core p)),
      []]"

text \<open>A name is visible characters and inner blanks, without a colon.\<close>

definition kv_text :: "string \<Rightarrow> bool" where
  "kv_text s \<longleftrightarrow> s \<noteq> [] \<and> plain_char (hd s) \<and> plain_char (last s) \<and> list_all text_char s \<and>
     CHR '':'' \<notin> set s \<and> length s < 60000"

definition processor_ok :: "processor \<Rightarrow> bool" where
  "processor_ok p \<longleftrightarrow>
     pr_model p < 10 ^ 9 \<and> pr_mhz p < 10 ^ 9 \<and> pr_physical p < 10 ^ 9 \<and> pr_core p < 10 ^ 9 \<and>
     kv_text (pr_name p)"

definition info_of :: "processor \<Rightarrow> CPUInfo" where
  "info_of p = \<lparr>ci_ModelName = pr_name p, ci_ModelNumber = show_nat (pr_model p),
     ci_Mhz = F64Fin False (of_nat (pr_mhz p)), ci_PhysicalID = int (pr_physical p),
     ci_CoreID = int (pr_core p)\<rparr>"

lemma trim_kv_text: "kv_text k \<Longrightarrow> trim_space (k @ '' '') = k" "kv_text v \<Longrightarrow> trim_space ('' '' @ v) = v"
  using trim_space_blanks[of "[]" "'' ''" k] trim_space_blanks[of "'' ''" "[]" v]
  by (auto simp: kv_text_def)

lemma split_colon_line:
  assumes "kv_text k" "kv_text v"
  shows "split_on (CHR '':'') (colon_line k v) = [k @ '' '', '' '' @ v]"
proof -
  have "split_on (CHR '':'') ((k @ '' '') @ CHR '':'' # '' '' @ v) = (k @ '' '') # split_on (CHR '':'') ('' '' @ v)"
    using assms by (intro split_on_append) (auto simp: kv_text_def)
  also have "split_on (CHR '':'') ('' '' @ v) = ['' '' @ v]"
    using assms by (intro split_on_token) (auto simp: kv_text_def)
  finally show ?thesis by (simp add: colon_line_def)
qed

lemma cpuinfo_line:
  assumes "kv_text k" "kv_text v"
  shows "cpuinfo_loop is c (colon_line k v # ls) =
           and_then (cpuinfo_field c k v) (\<lambda>c. cpuinfo_loop is c ls)"
  by (subst cpuinfo_loop.simps)
    (simp only: split_colon_line[OF assms] Let_def list.size nth_Cons_0 nth_Cons_Suc One_nat_def
      trim_kv_text assms, simp)

lemma cpuinfo_blank: "cpuinfo_loop is c ([] # ls) = cpuinfo_loop (is @ [c]) zeroCPUInfo ls"
  by simp

declare cpuinfo_loop.simps(2) [simp del]

lemma colon_line_is_line: "kv_text k \<Longrightarrow> length k < 5000 \<Longrightarrow> kv_text v \<Longrightarrow> is_line (colon_line k v)"
  by (rule is_line_text)
    (auto simp: kv_text_def colon_line_def max_scan_token_def plain_char_def code_def intro!: text_char_simps(1))

lemma kv_text_number:
  assumes "n < 10 ^ 9" shows "kv_text (show_nat n)"
proof -
  have "list_all plain_char (show_nat n)" using show_nat_plain[of n] by (simp add: plain_def)
  moreover have "CHR '':'' \<notin> set (show_nat n)"
    using show_nat_digits[of n] by (auto simp: list_all_iff is_digit_def code_def)
  moreover have "length (show_nat n) \<le> 9" using assms by (intro length_show_nat) auto
  ultimately show ?thesis by (auto simp: kv_text_def list_all_iff)
qed

lemma processor_keys:
  "kv_text ''vendor_id''" "kv_text ''GenuineIntel''" "kv_text ''model''" "kv_text ''model name''"
  "kv_text ''cpu MHz''" "kv_text ''physical id''" "kv_text ''core id''"
  by (simp_all add: kv_text_def text_char_def plain_char_def code_def)

lemma mhz_exact: "n < 10 ^ 9 \<Longrightarrow> parse_float (show_nat n) = Ok (F64Fin False (of_nat n))"
  by (intro parse_float_show) simp

lemma cpuinfo_processor:
  assumes "processor_ok p"
  shows "cpuinfo_loop is zeroCPUInfo (show_processor p @ ls) = cpuinfo_loop (is @ [info_of p]) zeroCPUInfo ls"
  using assms
  by (simp add: processor_ok_def show_processor_def cpuinfo_line cpuinfo_blank processor_keys kv_text_number
      cpuinfo_field_def mhz_exact atoi_show_nat zeroCPUInfo_def info_of_def)

lemma cpuinfo_processors:
  "list_all processor_ok ps \<Longrightarrow>
     cpuinfo_loop is zeroCPUInfo (concat (map show_processor ps)) = Ok (is @ map info_of ps)"
  by (induction ps arbitrary: "is") (simp_all add: cpuinfo_processor)

definition show_cpuinfo :: "processor list \<Rightarrow> string" where
  "show_cpuinfo ps = unlines (concat (map show_processor ps))"

lemma processor_lines: "processor_ok p \<Longrightarrow> list_all is_line (show_processor p)"
  by (simp add: show_processor_def processor_ok_def colon_line_is_line processor_keys kv_text_number)
    (simp add: is_line_def max_scan_token_def)

lemma scanCPUInfoFile_show:
  assumes "list_all processor_ok ps"
  shows "scanCPUInfoFile (show_cpuinfo ps) = Ok (map info_of ps)"
proof -
  have "list_all is_line (concat (map show_processor ps))"
    using assms processor_lines by (auto simp: list_all_iff)
  then show ?thesis
    using cpuinfo_processors[OF assms, of "[]"]
    by (simp add: scanCPUInfoFile_def cpuinfoScanner_def show_cpuinfo_def scan_lines_unlines)
qed

text \<open>
  A system with both files, seen through any resolver: \<open>Get\<close> returns what they say.
\<close>

lemma CPU_Get_files:
  assumes "multi_error errs_Err" "counters_ok tot" "list_all counters_ok cores" "length cores < 10 ^ 90"
    and "list_all other_line others" "list_all processor_ok ps"
    and "file_of w (ResolveHostFS r ''/proc/stat'') = Inr (show_stat tot cores others)"
    and "file_of w (ResolveHostFS r ''/proc/cpuinfo'') = Inr (show_cpuinfo ps)"
  shows "CPU_Get errs_Err w r =
     Ok \<lparr>totals = cpu_of_values tot, cpu_list = map cpu_of_values cores, cm_CPUInfo = map info_of ps\<rparr>"
  using assms by (simp add: CPU_Get_def os_ReadFile_def scanStatFile_show scanCPUInfoFile_show)

text \<open>A system with two CPUs.\<close>

definition demo_processors :: "processor list" where
  "demo_processors =
     [\<lparr>pr_model = 79, pr_name = ''Xeon'', pr_mhz = 2200, pr_physical = 0, pr_core = 0\<rparr>,
      \<lparr>pr_model = 79, pr_name = ''Xeon'', pr_mhz = 2200, pr_physical = 0, pr_core = 1\<rparr>]"

definition demo_system :: os_env where
  "demo_system = files_env
     [(''/proc/stat'', show_stat [30, 4, 6, 80, 10, 12, 14, 16]
         [[10, 2, 3, 40, 5, 6, 7, 8], [20, 2, 3, 40, 5, 6, 7, 8]] [''ctxt 11'']),
      (''/proc/cpuinfo'', show_cpuinfo demo_processors)]"

lemma demo_processors_ok: "list_all processor_ok demo_processors"
  by (simp add: demo_processors_def processor_ok_def kv_text_def text_char_def plain_char_def code_def)

lemma demo_paths:
  "ResolveHostFS host_root ''/proc/stat'' = ''/proc/stat''"
  "ResolveHostFS host_root ''/proc/cpuinfo'' = ''/proc/cpuinfo''"
  using host_root_path[of "[''proc'', ''stat'']"] host_root_path[of "[''proc'', ''cpuinfo'']"]
  by (simp_all add: is_name_def abs_path_def slash_def)

lemma demo_files:
  "file_of demo_system (ResolveHostFS host_root ''/proc/stat'') =
     Inr (show_stat [30, 4, 6, 80, 10, 12, 14, 16]
         [[10, 2, 3, 40, 5, 6, 7, 8], [20, 2, 3, 40, 5, 6, 7, 8]] [''ctxt 11''])"
  "file_of demo_system (ResolveHostFS host_root ''/proc/cpuinfo'') = Inr (show_cpuinfo demo_processors)"
  by (simp_all add: demo_paths demo_system_def files_env_def)

lemma demo_lines_ok:
  "counters_ok [30, 4, 6, 80, 10, 12, 14, 16]"
  "list_all counters_ok [[10, 2, 3, 40, 5, 6, 7, 8], [20, 2, 3, 40, 5, 6, 7, 8]]"
  "length [[10, 2, 3, 40, 5, 6, 7, 8], [20, 2, 3, 40, 5, 6, 7, 8 :: u64]] < 10 ^ 90"
  "list_all other_line [''ctxt 11'']"
  by (simp_all add: counters_ok_def other_line_def is_line_text text_char_def plain_char_def code_def
      max_scan_token_def)

lemmas demo_get = CPU_Get_files[OF multi_first_error demo_lines_ok demo_processors_ok demo_files]



text \<open>
  The parser of \<open>/proc/stat\<close> panics exactly on a file with a CPU line of fewer than
  nine fields that no line before it has made it return an error.
\<close>

theorem scanStatFile_panics:
  "scanStatFile errs_Err file = Panic \<longleftrightarrow>
     (\<exists>pre l post. scan_lines file = pre @ l # post \<and>
        (\<exists>d. statScanner_loop (parseCPULine errs_Err) zeroCPUMetrics pre = Ok d) \<and>
        short_cpu_line l)"
  unfolding scanStatFile_def statScanner_def by (simp add: statScanner_loop_panics)

end
