(* ===== verification/Metric_Math.thy ===== *)
theory Metric_Math
  imports Float64
begin

text \<open>
  \<open>metric/math.go\<close>: rounding to four decimals, through which every percentage and rate
  of the library goes. The lemmas: a value between 0 and a natural number stays there;
  the result is the double nearest to a whole number of ten-thousandths; it is within
  half a ten-thousandth of the input; rounding twice is rounding once; a negative value
  is rounded away from zero whatever its fraction.
\<close>

section \<open>The code\<close>

definition DefaultDecimalPlacesCount :: int where
  "DefaultDecimalPlacesCount = 4"

text \<open>\<open>math.Pow(10, float64(n))\<close>; exact for \<open>n\<close> from 0 to 22, and the program uses 4.\<close>

definition math_Pow10 :: "int \<Rightarrow> f64" where
  "math_Pow10 n = f64_round False (10 powi n)"

definition RoundWithPrecision :: "f64 \<Rightarrow> int \<Rightarrow> f64" where
  "RoundWithPrecision val precision =
     (let pow = math_Pow10 precision;
          digit = f64_mul pow val;
          dv = f64_frac digit;
          rounded = (if f64_le (F64Fin False (1/2)) dv then f64_ceil digit else f64_floor digit)
      in f64_div rounded pow)"

definition Round :: "f64 \<Rightarrow> f64" where
  "Round val = RoundWithPrecision val DefaultDecimalPlacesCount"

section \<open>What it computes\<close>

text \<open>The whole number of ten-thousandths chosen for the magnitude \<open>m\<close>.\<close>

definition tenthousandths :: "rat \<Rightarrow> int" where
  "tenthousandths m = \<lfloor>round53 (10000 * m) + 1/2\<rfloor>"

lemma math_Pow10_4: "math_Pow10 4 = F64Fin False 10000"
proof -
  have "(10 :: rat) powi 4 = of_int 10000" by simp
  moreover have "round53 (of_int 10000) = of_int 10000" by (rule round53_int) simp_all
  moreover have "(of_int 10000 :: rat) \<le> p2 1023"
  proof -
    have "(of_int 10000 :: rat) \<le> p2 14" by simp
    also have "p2 14 \<le> p2 1023" by (simp only: p2_le_iff)
    finally show ?thesis .
  qed
  ultimately show ?thesis
    unfolding math_Pow10_def by (simp only: f64_round_fin of_int_0_le_iff) simp
qed

lemma Round_unfold:
  "Round v = (let digit = f64_mul (F64Fin False 10000) v
     in f64_div (if f64_le (F64Fin False (1/2)) (f64_frac digit) then f64_ceil digit else f64_floor digit)
          (F64Fin False 10000))"
  by (simp only: Round_def RoundWithPrecision_def DefaultDecimalPlacesCount_def math_Pow10_4 Let_def)

lemma half_up: "of_int (if 1/2 \<le> d - of_int \<lfloor>d\<rfloor> then \<lceil>d\<rceil> else \<lfloor>d\<rfloor>) = (of_int \<lfloor>d + 1/2\<rfloor> :: rat)"
  for d :: rat
proof -
  have f: "of_int \<lfloor>d\<rfloor> \<le> d" "d < of_int \<lfloor>d\<rfloor> + 1" by linarith+
  have "\<lceil>d\<rceil> = \<lfloor>d\<rfloor> + 1" if "1/2 \<le> d - of_int \<lfloor>d\<rfloor>"
    using f that by (intro ceiling_unique) auto
  moreover have "\<lfloor>d + 1/2\<rfloor> = \<lfloor>d\<rfloor> + 1" if "1/2 \<le> d - of_int \<lfloor>d\<rfloor>"
    using f that by (intro floor_unique) auto
  moreover have "\<lfloor>d + 1/2\<rfloor> = \<lfloor>d\<rfloor>" if "\<not> 1/2 \<le> d - of_int \<lfloor>d\<rfloor>"
    using f that by (intro floor_unique; linarith)
  ultimately show ?thesis by auto
qed

text \<open>Magnitudes the percentages and rates stay far below.\<close>

definition in_round_range :: "rat \<Rightarrow> bool" where
  "in_round_range m \<longleftrightarrow> 0 \<le> m \<and> m \<le> p2 1000"

lemma tenthousand_p2: "(10000 :: rat) \<le> p2 14"
  by simp

lemma in_round_range_mult: "in_round_range m \<Longrightarrow> 10000 * m \<le> p2 1014"
proof -
  assume "in_round_range m"
  then have "10000 * m \<le> p2 14 * p2 1000"
    unfolding in_round_range_def using tenthousand_p2 by (intro mult_mono) auto
  also have "\<dots> = p2 1014" by (subst p2_add [symmetric]) simp
  finally show ?thesis .
qed

lemma div_10000_le: "0 \<le> x \<Longrightarrow> x \<le> y \<Longrightarrow> x / 10000 \<le> (y :: rat)"
  by linarith

lemma abs_div_10000: "\<bar>x - 10000 * m\<bar> \<le> c \<Longrightarrow> \<bar>x / 10000 - m\<bar> \<le> c / 10000" for x m c :: rat
proof -
  assume a: "\<bar>x - 10000 * m\<bar> \<le> c"
  have "x / 10000 - m = (x - 10000 * m) / 10000" by (simp add: field_simps)
  then have "\<bar>x / 10000 - m\<bar> = \<bar>x - 10000 * m\<bar> / 10000" by (simp only: abs_divide abs_numeral)
  with a show ?thesis by (simp only: divide_right_mono)
qed

lemma tenthousandths_nonneg: "0 \<le> m \<Longrightarrow> 0 \<le> tenthousandths m"
  by (simp add: tenthousandths_def)

lemma p2_1014_1022: "p2 1014 + 1/2 \<le> p2 1015"
proof -
  have "1 \<le> p2 1014" using p2_le_iff[of 0 1014] by (simp only: power_int_0_right)
  moreover have "p2 1015 = 2 * p2 1014" using p2_Suc[of 1014] by simp
  ultimately show ?thesis by linarith
qed

lemma Round_fin:
  assumes "in_round_range m"
  shows "Round (F64Fin False m) = F64Fin False (round53 (of_int (tenthousandths m) / 10000))"
proof -
  have m: "0 \<le> m" using assms by (simp add: in_round_range_def)
  let ?d = "round53 (10000 * m)"
  have le: "10000 * m \<le> p2 1014" by (rule in_round_range_mult[OF assms])
  have "p2 1014 \<le> p2 1023" by (simp only: p2_le_iff)
  with le have "f64_mul (F64Fin False 10000) (F64Fin False m) = F64Fin False ?d"
    unfolding f64_mul.simps using m by (subst f64_round_fin) auto
  then have "Round (F64Fin False m) =
      f64_div (F64Fin False (of_int \<lfloor>?d + 1/2\<rfloor>)) (F64Fin False 10000)"
    unfolding Round_unfold Let_def half_up[symmetric] by (auto simp: f64_le_def)
  also have "\<dots> = F64Fin False (round53 (of_int \<lfloor>?d + 1/2\<rfloor> / 10000))"
  proof (rule f64_div_fin)
    have "?d \<le> p2 1014" using le m by (intro round53_le round53_p2) auto
    then have "of_int \<lfloor>?d + 1/2\<rfloor> \<le> p2 1015" using p2_1014_1022 by linarith
    moreover have "0 \<le> \<lfloor>?d + 1/2\<rfloor>" using m by simp
    ultimately have "of_int \<lfloor>?d + 1/2\<rfloor> / 10000 \<le> p2 1015"
      by (intro div_10000_le) auto
    moreover have "p2 1015 \<le> p2 1023" by (simp only: p2_le_iff)
    ultimately show "of_int \<lfloor>?d + 1/2\<rfloor> / 10000 \<le> p2 1023" by linarith
  qed (use m in auto)
  finally show ?thesis by (simp only: tenthousandths_def)
qed

section \<open>Bounds\<close>

text \<open>Whole bounds up to \<open>2^39\<close>: their ten-thousandths have 53 bits.\<close>

lemma tenthousandths_le:
  assumes "0 \<le> m" "m \<le> of_nat n" "n \<le> 2 ^ 39"
  shows "tenthousandths m \<le> 10000 * int n"
proof -
  have "round53 (of_int (10000 * int n)) = of_int (10000 * int n)"
    using assms(3) by (intro round53_int) auto
  moreover have "10000 * m \<le> of_int (10000 * int n)" using assms(2) by simp
  ultimately have "round53 (10000 * m) \<le> of_int (10000 * int n)"
    using assms(1) by (intro round53_le) auto
  then show ?thesis unfolding tenthousandths_def by linarith
qed

lemma round_range_nat: "0 \<le> m \<Longrightarrow> m \<le> of_nat n \<Longrightarrow> n \<le> 2 ^ 39 \<Longrightarrow> in_round_range m"
proof -
  assume a: "0 \<le> m" "m \<le> of_nat n" "n \<le> 2 ^ 39"
  have "m \<le> of_nat (2 ^ 39)" using a(2,3) by (meson of_nat_le_iff order_trans)
  also have "\<dots> = p2 39" by simp
  also have "\<dots> \<le> p2 1000" by (simp only: p2_le_iff)
  finally show ?thesis using a(1) by (simp add: in_round_range_def)
qed

lemma Round_in:
  assumes "f64_in (of_nat n) v" "n \<le> 2 ^ 39"
  shows "f64_in (of_nat n) (Round v)"
proof -
  obtain m where v: "v = F64Fin False m" and m: "0 \<le> m" "m \<le> of_nat n"
    using assms(1) by (cases v) auto
  have "of_int (tenthousandths m) \<le> (of_int (10000 * int n) :: rat)"
    using tenthousandths_le[OF m assms(2)] by (simp only: of_int_le_iff)
  then have "of_int (tenthousandths m) / 10000 \<le> (of_nat n :: rat)" by (simp add: divide_le_eq)
  moreover have "round53 (of_int (int n)) = of_int (int n)"
    using assms(2) by (intro round53_int) auto
  ultimately have "round53 (of_int (tenthousandths m) / 10000) \<le> of_nat n"
    using tenthousandths_nonneg[OF m(1)] by (intro round53_le) auto
  then show ?thesis
    using Round_fin[OF round_range_nat[OF m assms(2)]] tenthousandths_nonneg[OF m(1)] v by simp
qed

lemma Round_mono:
  assumes "0 \<le> a" "a \<le> b" "in_round_range b"
  shows "f64_le (Round (F64Fin False a)) (Round (F64Fin False b))"
proof -
  have ra: "in_round_range a" using assms by (simp add: in_round_range_def)
  have "tenthousandths a \<le> tenthousandths b"
    unfolding tenthousandths_def using assms(1,2) by (intro floor_mono add_right_mono round53_mono) auto
  then have "round53 (of_int (tenthousandths a) / 10000) \<le> round53 (of_int (tenthousandths b) / 10000)"
    using tenthousandths_nonneg[OF assms(1)] by (intro round53_mono divide_right_mono) auto
  then show ?thesis
    by (auto simp: Round_fin[OF ra] Round_fin[OF assms(3)] f64_le_def)
qed

section \<open>Accuracy and idempotence\<close>

lemma round53_small_error:
  assumes "0 \<le> q" "q < p2 e" "-1021 \<le> e" shows "\<bar>round53 q - q\<bar> \<le> p2 (e - 54)"
  using assms round53_error_below[of q e] by (cases "q = 0") auto

lemma tenthousandths_near:
  assumes "0 \<le> m" "m < p2 20"
  shows "\<bar>of_int (tenthousandths m) - 10000 * m\<bar> \<le> 1/2 + p2 (-20)"
    and "of_int (tenthousandths m) / 10000 < p2 21"
proof -
  have lt: "10000 * m < p2 34"
  proof -
    have "10000 * m \<le> p2 14 * m" using assms(1) tenthousand_p2 by (intro mult_right_mono) auto
    also have "\<dots> < p2 14 * p2 20" using assms(2) by (intro mult_strict_left_mono) auto
    also have "\<dots> = p2 34" by (subst p2_add [symmetric]) simp
    finally show ?thesis .
  qed
  then have "\<bar>round53 (10000 * m) - 10000 * m\<bar> \<le> p2 (-20)"
    using assms(1) round53_small_error[of "10000 * m" 34] by simp
  moreover have "\<bar>of_int (tenthousandths m) - round53 (10000 * m)\<bar> \<le> 1/2"
    unfolding tenthousandths_def by linarith
  ultimately show near: "\<bar>of_int (tenthousandths m) - 10000 * m\<bar> \<le> 1/2 + p2 (-20)" by linarith
  have "p2 (-20) \<le> 1/2" by simp
  with near have "of_int (tenthousandths m) \<le> 10000 * m + 1" by linarith
  moreover have "m + 1 \<le> p2 21" using assms by simp
  ultimately show "of_int (tenthousandths m) / 10000 < p2 21" using assms by simp
qed

lemma p2_20_range: "0 \<le> m \<Longrightarrow> m < p2 20 \<Longrightarrow> in_round_range m"
proof -
  assume "0 \<le> m" "m < p2 20"
  moreover have "p2 20 \<le> p2 1000" by (simp only: p2_le_iff)
  ultimately show ?thesis unfolding in_round_range_def by linarith
qed

lemma Round_accurate:
  assumes "0 \<le> m" "m < p2 20"
  shows "\<bar>f64_val (Round (F64Fin False m)) - m\<bar> \<le> 1 / 20000 + 1 / 10 ^ 9"
proof -
  let ?t = "of_int (tenthousandths m) :: rat"
  have "\<bar>round53 (?t / 10000) - ?t / 10000\<bar> \<le> p2 (21 - 54)"
    using tenthousandths_near(2)[OF assms] tenthousandths_nonneg[OF assms(1)]
    by (intro round53_small_error) auto
  moreover have "\<bar>?t / 10000 - m\<bar> \<le> (1/2 + p2 (-20)) / 10000"
    by (rule abs_div_10000[OF tenthousandths_near(1)[OF assms]])
  ultimately have "\<bar>round53 (?t / 10000) - m\<bar> \<le> (1/2 + p2 (-20)) / 10000 + p2 (21 - 54)"
    by linarith
  also have "\<dots> \<le> 1 / 20000 + 1 / 10 ^ 9" by simp
  finally show ?thesis by (simp add: Round_fin[OF p2_20_range[OF assms]])
qed

lemma tenthousandths_again:
  assumes "0 \<le> n" "of_int n / 10000 < p2 21"
  shows "tenthousandths (round53 (of_int n / 10000)) = n"
proof -
  let ?r = "round53 (of_int n / 10000)"
  have "\<bar>?r - of_int n / 10000\<bar> \<le> p2 (21 - 54)"
    using assms by (intro round53_small_error) auto
  moreover have "p2 (21 - 54) \<le> 1/1000000" by simp
  ultimately have near: "\<bar>10000 * ?r - of_int n\<bar> \<le> 1/100" by linarith
  moreover have "of_int n < 10000 * p2 21" using assms(2) by (simp add: divide_less_eq)
  moreover have "10000 * p2 21 + 1/100 < p2 36" by simp
  ultimately have lt: "10000 * ?r < p2 36" by linarith
  have "\<bar>round53 (10000 * ?r) - 10000 * ?r\<bar> \<le> p2 (36 - 54)"
    using assms lt by (intro round53_small_error) auto
  then have "\<bar>round53 (10000 * ?r) - 10000 * ?r\<bar> \<le> 1/100" by simp
  with near have "\<bar>round53 (10000 * ?r) - of_int n\<bar> \<le> 1/50" by linarith
  then show ?thesis unfolding tenthousandths_def by (intro floor_unique) linarith+
qed

lemma Round_idem:
  assumes "0 \<le> m" "m < p2 20"
  shows "Round (Round (F64Fin False m)) = Round (F64Fin False m)"
proof -
  let ?r = "round53 (of_int (tenthousandths m) / 10000)"
  have r: "Round (F64Fin False m) = F64Fin False ?r" by (rule Round_fin[OF p2_20_range[OF assms]])
  have near: "of_int (tenthousandths m) / 10000 < p2 21" by (rule tenthousandths_near(2)[OF assms])
  have nn: "0 \<le> tenthousandths m" by (rule tenthousandths_nonneg[OF assms(1)])
  have "?r \<le> p2 21" using near nn by (intro round53_le round53_p2) auto
  moreover have "p2 21 \<le> p2 1000" by (simp only: p2_le_iff)
  ultimately have "in_round_range ?r" using nn by (simp add: in_round_range_def)
  from Round_fin[OF this] show ?thesis
    by (simp only: r tenthousandths_again[OF nn near])
qed

section \<open>Other values\<close>

lemma Round_zero [simp]: "Round (F64Fin False 0) = F64Fin False 0"
proof -
  have "in_round_range 0" by (simp add: in_round_range_def)
  moreover have "tenthousandths 0 = 0" unfolding tenthousandths_def by (intro floor_unique) auto
  ultimately show ?thesis by (simp add: Round_fin)
qed

lemma Round_NaN [simp]: "Round F64NaN = F64NaN"
  by (simp add: Round_unfold)

lemma Round_Inf [simp]: "Round (F64Inf s) = F64Inf s"
  by (simp add: Round_unfold f64_le_def)

lemma Round_nat:
  assumes "n \<le> 2 ^ 39" shows "Round (F64Fin False (of_nat n)) = F64Fin False (of_nat n)"
proof -
  have r: "in_round_range (of_nat n)" using assms by (intro round_range_nat[of _ n]) auto
  have "round53 (of_int (10000 * int n)) = of_int (10000 * int n)"
    using assms by (intro round53_int) auto
  then have t: "tenthousandths (of_nat n) = 10000 * int n"
    unfolding tenthousandths_def by (intro floor_unique) auto
  have "round53 (of_int (int n)) = of_int (int n)" using assms by (intro round53_int) auto
  then show ?thesis by (simp add: Round_fin[OF r] t)
qed

lemma Round_neg:
  assumes "in_round_range m" "0 < m"
  shows "Round (F64Fin True m) = F64Fin True (round53 (of_int \<lceil>round53 (10000 * m)\<rceil> / 10000))"
proof -
  let ?d = "round53 (10000 * m)"
  have le: "10000 * m \<le> p2 1014" by (rule in_round_range_mult[OF assms(1)])
  have "p2 1014 \<le> p2 1023" by (simp only: p2_le_iff)
  with le have "f64_mul (F64Fin False 10000) (F64Fin True m) = F64Fin True ?d"
    unfolding f64_mul.simps using assms(2) by (subst f64_round_fin) auto
  moreover have "\<not> 1/2 \<le> - (?d - of_int \<lfloor>?d\<rfloor>)"
  proof -
    have "of_int \<lfloor>?d\<rfloor> \<le> ?d" by simp
    then show ?thesis by linarith
  qed
  ultimately have "Round (F64Fin True m) = f64_div (F64Fin True (of_int \<lceil>?d\<rceil>)) (F64Fin False 10000)"
    unfolding Round_unfold Let_def by (simp add: f64_le_def)
  also have "\<dots> = F64Fin True (round53 (of_int \<lceil>?d\<rceil> / 10000))"
  proof -
    have "?d \<le> p2 1014" using le assms(2) by (intro round53_le round53_p2) auto
    moreover have "p2 1014 = of_int (2 ^ 1014)" by (simp only: p2_int)
    ultimately have "\<lceil>?d\<rceil> \<le> 2 ^ 1014" by (simp only: ceiling_le_iff)
    then have "of_int \<lceil>?d\<rceil> \<le> p2 1014" by (simp only: p2_int of_int_le_iff)
    moreover have "0 \<le> \<lceil>?d\<rceil>" using assms(2) by (simp add: ceiling_mono[of 0, simplified])
    ultimately have "of_int \<lceil>?d\<rceil> / 10000 \<le> p2 1014"
      by (intro div_10000_le) auto
    then have "of_int \<lceil>?d\<rceil> / 10000 \<le> p2 1023" using \<open>p2 1014 \<le> p2 1023\<close> by linarith
    then show ?thesis using \<open>0 \<le> \<lceil>?d\<rceil>\<close> by (simp add: f64_round_fin)
  qed
  finally show ?thesis .
qed

lemma f64_round_zero [simp]: "f64_round s 0 = F64Fin s 0"
  using f64_round_fin[of 0 s] p2_nonneg[of 1023] by (simp only: round53_0 order_refl)

lemma Round_neg_zero: "Round (F64Fin True 0) = F64Fin True 0"
  by (simp add: Round_unfold f64_le_def)

lemma round53_le_p2: "0 \<le> q \<Longrightarrow> q \<le> p2 1000 \<Longrightarrow> round53 q \<le> p2 1000"
  by (rule round53_le[OF _ _ round53_p2]) linarith+

lemma f64_add_nonneg:
  assumes "0 \<le> a" "0 \<le> b" "a + b \<le> p2 1000"
  shows "f64_add (F64Fin False a) (F64Fin False b) = F64Fin False (round53 (a + b))"
proof -
  have "f64_round False (a + b) = F64Fin False (round53 (a + b))"
    using assms by (intro f64_round_fin p2_1000_1023) auto
  then show ?thesis using assms by (auto simp: Let_def)
qed

text \<open>What is left of a whole number after subtracting a nonnegative value never exceeds it.\<close>

lemma Round_sub_le:
  assumes "0 \<le> x" "x \<le> p2 1000" "n \<le> 2 ^ 39"
  shows "f64_le (Round (f64_sub (F64Fin False (of_nat n)) (F64Fin False x))) (F64Fin False (of_nat n))"
    and "x \<le> of_nat n \<Longrightarrow> f64_in (of_nat n) (Round (f64_sub (F64Fin False (of_nat n)) (F64Fin False x)))"
proof -
  have low: "f64_in (of_nat n) (Round (f64_sub (F64Fin False (of_nat n)) (F64Fin False x)))"
    if "x \<le> of_nat n"
  proof (rule Round_in[OF _ assms(3)])
    have r: "in_round_range (of_nat n - x)"
      using that assms by (intro round_range_nat[of _ n]) auto
    have "round53 (of_int (int n)) = of_int (int n)" using assms(3) by (intro round53_int) auto
    then have "round53 (of_nat n - x) \<le> of_nat n"
      using that assms(1) by (intro round53_le) auto
    moreover have "f64_round False (of_nat n - x) = F64Fin False (round53 (of_nat n - x))"
      using r p2_1000_1023 unfolding in_round_range_def by (intro f64_round_fin) auto
    ultimately show "f64_in (of_nat n) (f64_sub (F64Fin False (of_nat n)) (F64Fin False x))"
      using that by (auto simp: f64_sub_def Let_def)
  qed
  then show "x \<le> of_nat n \<Longrightarrow> f64_in (of_nat n) (Round (f64_sub (F64Fin False (of_nat n)) (F64Fin False x)))" .
  show "f64_le (Round (f64_sub (F64Fin False (of_nat n)) (F64Fin False x))) (F64Fin False (of_nat n))"
  proof (cases "x \<le> of_nat n")
    case True
    with low show ?thesis
      by (cases "Round (f64_sub (F64Fin False (of_nat n)) (F64Fin False x))") (auto simp: f64_le_def)
  next
    case False
    let ?m = "round53 (x - of_nat n)"
    have d: "0 \<le> x - of_nat n" "x - of_nat n \<le> p2 1000" using False assms by linarith+
    have m: "0 \<le> ?m" "?m \<le> p2 1000" by (rule round53_nonneg[OF d(1)], rule round53_le_p2[OF d])
    have "f64_sub (F64Fin False (of_nat n)) (F64Fin False x) = F64Fin True ?m"
      using False d f64_round_fin[OF d(1) p2_1000_1023[OF d(2)], of True] by (simp add: f64_sub_def)
    moreover obtain k where "Round (F64Fin True ?m) = F64Fin True k" "0 \<le> k"
    proof (cases "?m = 0")
      case True
      then show ?thesis using that[of 0] by (simp add: Round_neg_zero)
    next
      case nz: False
      then have "in_round_range ?m" "0 < ?m" using m by (auto simp: in_round_range_def)
      moreover have "0 \<le> \<lceil>round53 (10000 * ?m)\<rceil>"
        using m by (simp add: ceiling_mono[of 0, simplified])
      ultimately show ?thesis using that by (auto simp: Round_neg)
    qed
    ultimately show ?thesis by (simp add: f64_le_def) linarith
  qed
qed



end
