(* ===== verification/Events.thy ===== *)
theory Events
  imports Float64 Go_Strings
begin

text \<open>
  The values the library hands to its callers. An event of type \<open>mapstr.M\<close> is built by
  map assignments and by the library call \<open>Put\<close>, which stores under a dotted path; an
  event is modelled as the list of these writes in the order the code makes them, so
  nothing is assumed of \<open>Put\<close>. \<open>lookup_set\<close> reads back the last assignment to a key.
\<close>

datatype mval =
    VUint u64
  | VInt int
  | VFloat f64
  | VString string
  | VBool bool
  | VObj "mwrite list"
and mwrite =
    PutAt string mval
  | SetKey string mval

type_synonym mapstr = "mwrite list"

fun lookup_set :: "string \<Rightarrow> mapstr \<Rightarrow> mval option" where
  "lookup_set k [] = None"
| "lookup_set k (PutAt _ _ # ws) = lookup_set k ws"
| "lookup_set k (SetKey k' v # ws) =
     (case lookup_set k ws of Some u \<Rightarrow> Some u | None \<Rightarrow> if k = k' then Some v else None)"

fun lookup_put :: "string \<Rightarrow> mapstr \<Rightarrow> mval option" where
  "lookup_put k [] = None"
| "lookup_put k (SetKey _ _ # ws) = lookup_put k ws"
| "lookup_put k (PutAt k' v # ws) =
     (case lookup_put k ws of Some u \<Rightarrow> Some u | None \<Rightarrow> if k = k' then Some v else None)"

lemma case_option_same [simp]: "(case x of None \<Rightarrow> None | Some u \<Rightarrow> Some u) = x"
  by (cases x) auto

lemma lookup_set_append [simp]:
  "lookup_set k (a @ b) = (case lookup_set k b of Some u \<Rightarrow> Some u | None \<Rightarrow> lookup_set k a)"
  by (induction k a rule: lookup_set.induct) (auto split: option.splits)

lemma lookup_put_append [simp]:
  "lookup_put k (a @ b) = (case lookup_put k b of Some u \<Rightarrow> Some u | None \<Rightarrow> lookup_put k a)"
  by (induction k a rule: lookup_put.induct) (auto split: option.splits)

end
