(* ===== verification/Sampling.thy ===== *)
theory Sampling
  imports Prelude
begin

text \<open>
  The interface shared by the monitors of the library (\<open>cpu.Monitor\<close>, \<open>diskio.IOStat\<close>):
  an object that keeps one sample, replaced by every successful fetch and kept by a
  failed one. \<open>stored_run\<close>, proved once in the locale, says which sample the object
  holds after any sequence of fetches; the components interpret it on their models.
\<close>

locale sampler =
  fixes step :: "'s \<Rightarrow> 'w \<Rightarrow> 's"
    and stored :: "'s \<Rightarrow> 'a"
    and sample :: "'w \<Rightarrow> 'a option"
    and ok :: "'s \<Rightarrow> bool"
  assumes ok_step: "ok s \<Longrightarrow> ok (step s w)"
    and stored_step: "ok s \<Longrightarrow> stored (step s w) = valueOr (stored s) (sample w)"
begin

lemma ok_run: "ok s \<Longrightarrow> ok (foldl step s ws)"
  by (induction ws arbitrary: s) (simp_all add: ok_step)

lemma stored_run: "ok s \<Longrightarrow> stored (foldl step s ws) = last (stored s # List.map_filter sample ws)"
proof (induction ws arbitrary: s)
  case (Cons w ws)
  then show ?case by (cases "sample w") (simp_all add: ok_step stored_step map_filter_simps)
qed (simp add: map_filter_simps)

lemma stored_run_none: "ok s \<Longrightarrow> \<forall>w \<in> set ws. sample w = None \<Longrightarrow> stored (foldl step s ws) = stored s"
  by (induction ws arbitrary: s) (simp_all add: ok_step stored_step)

end

end
