(* ===== verification/CPU_Monitor.thy ===== *)
theory CPU_Monitor
  imports CPU_Stat Metric_Math Events Sampling
begin

text \<open>
  \<open>metric/cpu/metrics.go\<close>: the \<open>Monitor\<close> that keeps the last sample and turns it and the
  new one into \<open>Metrics\<close>, and \<open>Format\<close>, which turns a \<open>Metrics\<close> into an event. Proved:
  which sample a monitor holds after any sequence of fetches, what each core is compared
  with, when \<open>Format\<close> fails, and that every percentage of a metric is between 0 and
  the number of CPUs (between 0 and 1 when normalised).
\<close>

section \<open>State and operations\<close>

record MetricOpts =
  mo_Ticks :: bool
  mo_Percentages :: bool
  mo_NormalizedPercentages :: bool

record Metrics =
  previousSample :: CPU
  currentSample :: CPU
  count :: int
  cpuInfo :: CPUInfo
  isTotals :: bool

record Monitor =
  lastSample :: CPUMetrics
  Hostfs :: resolver

definition New_Monitor :: "resolver \<Rightarrow> Monitor" where
  "New_Monitor hostfs = \<lparr>lastSample = zeroCPUMetrics, Hostfs = hostfs\<rparr>"

text \<open>Each method returns its result and the monitor it leaves.\<close>

definition Fetch :: "(go_error list \<Rightarrow> go_error option) \<Rightarrow> os_env \<Rightarrow> Monitor \<Rightarrow> Metrics outcome \<times> Monitor" where
  "Fetch errs_Err w m =
     (case wrap_err ''error fetching CPU metrics'' (CPU_Get errs_Err w (Hostfs m)) of
        Ok met \<Rightarrow>
          (Ok \<lparr>previousSample = totals (lastSample m), currentSample = totals met,
               count = int (length (cpu_list met)), cpuInfo = zeroCPUInfo, isTotals = True\<rparr>,
           m\<lparr>lastSample := met\<rparr>)
      | Err e \<Rightarrow> (Err e, m)
      | Panic \<Rightarrow> (Panic, m))"

text \<open>The loop over \<open>metric.list\<close>; \<open>met.CPUInfo[i]\<close> is read only when \<open>CPUInfo\<close> is not empty.\<close>

fun core_loop :: "CPUMetrics \<Rightarrow> CPUMetrics \<Rightarrow> nat \<Rightarrow> CPU list \<Rightarrow> Metrics list outcome" where
  "core_loop prev met i [] = Ok []"
| "core_loop prev met i (c # cs) =
     (let lastMetric = (if length (cpu_list prev) > i then cpu_list prev ! i else zeroCPU) in
      and_then (if length (cm_CPUInfo met) \<noteq> 0 then at_index (cm_CPUInfo met) i else Ok zeroCPUInfo)
        (\<lambda>info. and_then (core_loop prev met (Suc i) cs)
          (\<lambda>rest. Ok (\<lparr>previousSample = lastMetric, currentSample = c, count = 0, cpuInfo = info,
                       isTotals = False\<rparr> # rest))))"

definition FetchCores :: "(go_error list \<Rightarrow> go_error option) \<Rightarrow> os_env \<Rightarrow> Monitor \<Rightarrow> Metrics list outcome \<times> Monitor" where
  "FetchCores errs_Err w m =
     (case wrap_err ''error fetching CPU metrics'' (CPU_Get errs_Err w (Hostfs m)) of
        Ok met \<Rightarrow>
          (case core_loop (lastSample m) met 0 (cpu_list met) of
             Ok ms \<Rightarrow> (Ok ms, m\<lparr>lastSample := met\<rparr>)
           | Err e \<Rightarrow> (Err e, m)
           | Panic \<Rightarrow> (Panic, m))
      | Err e \<Rightarrow> (Err e, m)
      | Panic \<Rightarrow> (Panic, m))"

definition CPUCount :: "Metrics \<Rightarrow> int" where
  "CPUCount m = count m"

definition cpuMetricTimeDelta :: "u64 option \<Rightarrow> u64 option \<Rightarrow> u64 \<Rightarrow> int \<Rightarrow> f64" where
  "cpuMetricTimeDelta prev current timeDelta numCPU =
     (let cpuDelta = int64_of (valueOr 0 current - valueOr 0 prev);
          pct = f64_div (f64_of_int cpuDelta) (f64_of_u64 timeDelta)
      in Round (f64_mul pct (f64_of_int numCPU)))"

definition fillMetric :: "MetricOpts \<Rightarrow> u64 option \<Rightarrow> u64 option \<Rightarrow> u64 \<Rightarrow> int \<Rightarrow> mapstr" where
  "fillMetric opts cur prev timeDelta numCPU =
     (if mo_Ticks opts then [PutAt ''ticks'' (VUint (valueOr 0 cur))] else []) @
     (if mo_Percentages opts
      then [PutAt ''pct'' (VFloat (cpuMetricTimeDelta prev cur timeDelta numCPU))] else []) @
     (if mo_NormalizedPercentages opts
      then [PutAt ''norm.pct'' (VFloat (cpuMetricTimeDelta prev cur timeDelta 1))] else [])"

definition createTotal :: "CPU \<Rightarrow> CPU \<Rightarrow> u64 \<Rightarrow> int \<Rightarrow> f64" where
  "createTotal prev cur timeDelta numCPU =
     (let idleTime = cpuMetricTimeDelta (cpu_Idle prev) (cpu_Idle cur) timeDelta numCPU;
          idleTime = (if cpu_Wait cur \<noteq> None
                      then f64_add idleTime (cpuMetricTimeDelta (cpu_Wait prev) (cpu_Wait cur) timeDelta numCPU)
                      else idleTime)
      in Round (f64_sub (f64_of_int numCPU) idleTime))"

text \<open>The closure \<open>reportOptMetric\<close> with what it captures as arguments.\<close>

definition reportOptMetric :: "MetricOpts \<Rightarrow> u64 \<Rightarrow> string \<Rightarrow> u64 option \<Rightarrow> u64 option \<Rightarrow> int \<Rightarrow> mapstr" where
  "reportOptMetric opts timeDelta name current previous normCPU =
     (if current \<noteq> None then [SetKey name (VObj (fillMetric opts current previous timeDelta normCPU))] else [])"

text \<open>Go's \<open>!=\<close> on the struct compares \<open>Mhz\<close> as a float.\<close>

definition CPUInfo_eq :: "CPUInfo \<Rightarrow> CPUInfo \<Rightarrow> bool" where
  "CPUInfo_eq a b \<longleftrightarrow> ci_ModelName a = ci_ModelName b \<and> ci_ModelNumber a = ci_ModelNumber b \<and>
     f64_eq (ci_Mhz a) (ci_Mhz b) \<and> ci_PhysicalID a = ci_PhysicalID b \<and> ci_CoreID a = ci_CoreID b"

text \<open>The two parts of \<open>Format\<close> that do not report counters.\<close>

definition format_totals :: "MetricOpts \<Rightarrow> CPU \<Rightarrow> CPU \<Rightarrow> u64 \<Rightarrow> int \<Rightarrow> mapstr" where
  "format_totals opts prev cur timeDelta normCPU =
     (if mo_Percentages opts
      then [PutAt ''total.pct'' (VFloat (createTotal prev cur timeDelta normCPU))] else []) @
     (if mo_NormalizedPercentages opts
      then [PutAt ''total.norm.pct'' (VFloat (createTotal prev cur timeDelta 1))] else [])"

definition format_cpuInfo :: "Metrics \<Rightarrow> mapstr" where
  "format_cpuInfo m =
     (if \<not> isTotals m \<and> \<not> CPUInfo_eq (cpuInfo m) zeroCPUInfo
      then [SetKey ''model_number'' (VString (ci_ModelNumber (cpuInfo m))),
            SetKey ''model_name'' (VString (ci_ModelName (cpuInfo m))),
            SetKey ''mhz'' (VFloat (ci_Mhz (cpuInfo m))),
            SetKey ''core_id'' (VInt (ci_CoreID (cpuInfo m))),
            SetKey ''physical_id'' (VInt (ci_PhysicalID (cpuInfo m)))]
      else [])"

text \<open>\<open>timeDelta <= 0\<close> is a comparison of a \<open>uint64\<close>.\<close>

definition Format :: "(u64 option list \<Rightarrow> u64) \<Rightarrow> MetricOpts \<Rightarrow> Metrics \<Rightarrow> mapstr outcome" where
  "Format SumOptUint opts m =
     (let cur = currentSample m; prev = previousSample m;
          timeDelta = CPU_Total SumOptUint cur - CPU_Total SumOptUint prev
      in if timeDelta \<le> 0 then Err (Message ''previous sample is newer than current sample'')
         else
           (let normCPU = (if \<not> isTotals m then 1 else count m);
                report = reportOptMetric opts timeDelta
            in Ok (format_totals opts prev cur timeDelta normCPU @
                   report ''user'' (cpu_User cur) (cpu_User prev) normCPU @
                   report ''system'' (cpu_Sys cur) (cpu_Sys prev) normCPU @
                   report ''idle'' (cpu_Idle cur) (cpu_Idle prev) normCPU @
                   report ''nice'' (cpu_Nice cur) (cpu_Nice prev) normCPU @
                   report ''irq'' (cpu_Irq cur) (cpu_Irq prev) normCPU @
                   report ''iowait'' (cpu_Wait cur) (cpu_Wait prev) normCPU @
                   report ''softirq'' (cpu_SoftIrq cur) (cpu_SoftIrq prev) normCPU @
                   report ''steal'' (cpu_Stolen cur) (cpu_Stolen prev) normCPU @
                   format_cpuInfo m)))"

section \<open>The stored sample\<close>

text \<open>A call of one of the two fetching methods, with the system it finds.\<close>

datatype monitor_call = CallFetch | CallFetchCores

fun monitor_step :: "(go_error list \<Rightarrow> go_error option) \<Rightarrow> Monitor \<Rightarrow> monitor_call \<times> os_env \<Rightarrow> Monitor" where
  "monitor_step errs_Err m (CallFetch, w) = snd (Fetch errs_Err w m)"
| "monitor_step errs_Err m (CallFetchCores, w) = snd (FetchCores errs_Err w m)"

text \<open>\<open>FetchCores\<close> indexes \<open>CPUInfo\<close> by the position of the core.\<close>

definition cores_covered :: "CPUMetrics \<Rightarrow> bool" where
  "cores_covered met \<longleftrightarrow> cm_CPUInfo met = [] \<or> length (cpu_list met) \<le> length (cm_CPUInfo met)"

fun call_sample :: "(go_error list \<Rightarrow> go_error option) \<Rightarrow> resolver \<Rightarrow> monitor_call \<times> os_env \<Rightarrow> CPUMetrics option" where
  "call_sample errs_Err r (c, w) =
     (case CPU_Get errs_Err w r of
        Ok met \<Rightarrow> if c = CallFetch \<or> cores_covered met then Some met else None
      | _ \<Rightarrow> None)"

lemma core_loop_total:
  "cm_CPUInfo met = [] \<or> i + length cs \<le> length (cm_CPUInfo met) \<Longrightarrow>
     core_loop prev met i cs = Ok (map (\<lambda>j.
       \<lparr>previousSample = (if j < length (cpu_list prev) then cpu_list prev ! j else zeroCPU),
        currentSample = cs ! (j - i), count = 0,
        cpuInfo = (if cm_CPUInfo met = [] then zeroCPUInfo else cm_CPUInfo met ! j),
        isTotals = False\<rparr>) [i ..< i + length cs])"
proof (induction cs arbitrary: i)
  case (Cons c cs)
  have up: "[i ..< i + length (c # cs)] = i # [Suc i ..< Suc i + length cs]" by (simp add: upt_rec)
  have "cm_CPUInfo met = [] \<or> Suc i + length cs \<le> length (cm_CPUInfo met)" using Cons.prems by auto
  then show ?case using Cons.prems unfolding up
    by (subst core_loop.simps, subst Cons.IH) (auto simp: Let_def at_index_def Suc_le_eq nth_Cons')
qed simp

lemma core_loop_panics:
  "cm_CPUInfo met \<noteq> [] \<Longrightarrow> length (cm_CPUInfo met) < i + length cs \<Longrightarrow> cs \<noteq> [] \<Longrightarrow>
     core_loop prev met i cs = Panic"
proof (induction cs arbitrary: i)
  case (Cons c cs)
  show ?case
  proof (cases "i < length (cm_CPUInfo met)")
    case True
    then have "cs \<noteq> []" using Cons.prems by auto
    then have "core_loop prev met (Suc i) cs = Panic" using Cons.prems by (intro Cons.IH) auto
    then show ?thesis using True Cons.prems by (simp add: Let_def)
  next
    case False
    then show ?thesis using Cons.prems by (simp add: Let_def at_index_def)
  qed
qed simp

lemma core_loop_zero:
  "core_loop prev met 0 (cpu_list met) =
     (if cores_covered met
      then Ok (map (\<lambda>j. \<lparr>previousSample = (if j < length (cpu_list prev) then cpu_list prev ! j else zeroCPU),
        currentSample = cpu_list met ! j, count = 0,
        cpuInfo = (if cm_CPUInfo met = [] then zeroCPUInfo else cm_CPUInfo met ! j),
        isTotals = False\<rparr>) [0 ..< length (cpu_list met)])
      else Panic)"
proof (cases "cores_covered met")
  case True
  then show ?thesis using core_loop_total[of met 0 "cpu_list met" prev] by (simp add: cores_covered_def)
next
  case False
  then have "cpu_list met \<noteq> []" "cm_CPUInfo met \<noteq> []" "length (cm_CPUInfo met) < 0 + length (cpu_list met)"
    by (auto simp: cores_covered_def)
  then show ?thesis using False core_loop_panics[of met 0 "cpu_list met" prev] by simp
qed

lemma monitor_step_spec:
  "lastSample (monitor_step errs_Err m cw) = valueOr (lastSample m) (call_sample errs_Err (Hostfs m) cw)"
  "Hostfs (monitor_step errs_Err m cw) = Hostfs m"
proof -
  obtain c w where cw: "cw = (c, w)" by force
  show "lastSample (monitor_step errs_Err m cw) = valueOr (lastSample m) (call_sample errs_Err (Hostfs m) cw)"
    unfolding cw
    by (cases c; cases "CPU_Get errs_Err w (Hostfs m)")
      (simp_all add: Fetch_def FetchCores_def core_loop_zero)
  show "Hostfs (monitor_step errs_Err m cw) = Hostfs m"
    unfolding cw
    by (cases c; cases "CPU_Get errs_Err w (Hostfs m)")
      (simp_all add: Fetch_def FetchCores_def core_loop_zero)
qed

interpretation cpu_monitor: sampler
  "monitor_step errs_Err" lastSample "call_sample errs_Err r" "\<lambda>m. Hostfs m = r"
  for errs_Err r
  by unfold_locales (auto simp: monitor_step_spec)

text \<open>
  C1. Whatever sequence of \<open>Fetch\<close> and \<open>FetchCores\<close> calls is made on a new
  monitor, with whatever the system holds at each call, the monitor keeps the sample
  read by the last call that succeeded (the zero sample if none did): failed and
  panicking calls leave it alone.
\<close>

theorem monitor_history:
  "lastSample (foldl (monitor_step errs_Err) (New_Monitor r) calls) =
     last (zeroCPUMetrics # List.map_filter (call_sample errs_Err r) calls)"
  using cpu_monitor.stored_run[of "New_Monitor r" r errs_Err calls] by (simp add: New_Monitor_def)

text \<open>
  C2. \<open>FetchCores\<close> on a system it can read: one entry per CPU of the new sample,
  in order, each compared with the CPU at the same position of the previous sample or,
  if the number of CPUs has grown, with the zero CPU; a panic exactly when
  \<open>/proc/cpuinfo\<close> has some processors but fewer than \<open>/proc/stat\<close>.
\<close>

theorem FetchCores_result:
  assumes "CPU_Get errs_Err w (Hostfs m) = Ok met"
  shows "fst (FetchCores errs_Err w m) =
     (if cm_CPUInfo met \<noteq> [] \<and> length (cm_CPUInfo met) < length (cpu_list met) then Panic
      else Ok (map (\<lambda>i.
        \<lparr>previousSample = (if i < length (cpu_list (lastSample m)) then cpu_list (lastSample m) ! i else zeroCPU),
         currentSample = cpu_list met ! i, count = 0,
         cpuInfo = (if cm_CPUInfo met = [] then zeroCPUInfo else cm_CPUInfo met ! i),
         isTotals = False\<rparr>) [0 ..< length (cpu_list met)]))"
  using assms by (simp add: FetchCores_def core_loop_zero cores_covered_def)

theorem FetchCores_result_witness:
  "fst (FetchCores first_error demo_system (New_Monitor host_root)) =
     Ok [\<lparr>previousSample = zeroCPU, currentSample = cpu_of_values [10, 2, 3, 40, 5, 6, 7, 8], count = 0,
          cpuInfo = info_of (demo_processors ! 0), isTotals = False\<rparr>,
         \<lparr>previousSample = zeroCPU, currentSample = cpu_of_values [20, 2, 3, 40, 5, 6, 7, 8], count = 0,
          cpuInfo = info_of (demo_processors ! 1), isTotals = False\<rparr>]"
proof -
  have "CPU_Get first_error demo_system (Hostfs (New_Monitor host_root)) =
     Ok \<lparr>totals = cpu_of_values [30, 4, 6, 80, 10, 12, 14, 16],
         cpu_list = [cpu_of_values [10, 2, 3, 40, 5, 6, 7, 8], cpu_of_values [20, 2, 3, 40, 5, 6, 7, 8]],
         cm_CPUInfo = map info_of demo_processors\<rparr>"
    using demo_get by (simp add: New_Monitor_def)
  from FetchCores_result[OF this] show ?thesis
    by (simp add: New_Monitor_def zeroCPUMetrics_def demo_processors_def upt_rec)
qed

section \<open>Percentages\<close>

text \<open>The counters of a CPU in the order of the struct, and their sum without wrap-around.\<close>

definition counters :: "CPU \<Rightarrow> u64 option list" where
  "counters c = [cpu_User c, cpu_Nice c, cpu_Sys c, cpu_Idle c, cpu_Wait c, cpu_Irq c,
                 cpu_SoftIrq c, cpu_Stolen c]"

definition ticks :: "CPU \<Rightarrow> nat" where
  "ticks c = sum_list (map (\<lambda>x. unat (valueOr 0 x)) (counters c))"

text \<open>
  Two samples of a running system: no counter has gone back, some counter has advanced,
  and the sum of the counters has not reached \<open>2^63\<close>.
\<close>

definition samples_advance :: "CPU \<Rightarrow> CPU \<Rightarrow> bool" where
  "samples_advance prev cur \<longleftrightarrow>
     list_all2 (\<lambda>p c. unat (valueOr 0 p) \<le> unat (valueOr 0 c)) (counters prev) (counters cur) \<and>
     ticks prev < ticks cur \<and> ticks cur < 2 ^ 63"

lemma CPU_Total_ticks:
  assumes "opt_sum S" "ticks c < 2 ^ 64" shows "unat (CPU_Total S c) = ticks c"
  using assms unat_sum_list[of "map (valueOr 0) (counters c)"]
  by (simp add: CPU_Total_def opt_sum_def ticks_def counters_def)

lemma sum_list_growth:
  "list_all2 (\<lambda>p c. f p \<le> f c) ps cs \<Longrightarrow> i < length cs \<Longrightarrow>
     f (cs ! i) - f (ps ! i) \<le> sum_list (map f cs) - sum_list (map f ps) \<and>
     sum_list (map f ps) \<le> (sum_list (map f cs) :: nat)"
proof (induction ps cs arbitrary: i rule: list_all2_induct)
  case (Cons p ps c cs)
  have mono: "sum_list (map f ps) \<le> sum_list (map f cs)"
    using Cons.hyps(2) by (induction ps cs rule: list_all2_induct) auto
  show ?case
  proof (cases i)
    case 0
    then show ?thesis using Cons.hyps mono by simp
  next
    case (Suc j)
    then show ?thesis using Cons.hyps Cons.IH[of j] Cons.prems mono by simp
  qed
qed simp

lemma cpuMetricTimeDelta_in:
  assumes "unat (valueOr 0 p) \<le> unat (valueOr 0 c)"
    and "unat (valueOr 0 c) - unat (valueOr 0 p) \<le> unat td" "0 < unat td" "unat td < 2 ^ 63" "n \<le> 2 ^ 39"
  shows "f64_in (of_nat n) (cpuMetricTimeDelta p c td (int n))"
proof -
  let ?d = "valueOr 0 c - valueOr 0 p"
  have d: "unat ?d = unat (valueOr 0 c) - unat (valueOr 0 p)" by (rule unat_sub_u64[OF assms(1)])
  then have i: "int64_of ?d = int (unat ?d)" using assms by (intro int64_of_small) linarith
  have le: "unat ?d \<le> unat td" using d assms(2) by linarith
  have "f64_in 1 (f64_div (f64_of_int (int (unat ?d))) (f64_of_int (int (unat td))))"
    by (rule f64_nat_ratio[OF le assms(3) unat_u64_bound])
  then have "f64_in 1 (f64_div (f64_of_int (int64_of ?d)) (f64_of_u64 td))"
    by (simp only: i f64_of_u64_def uint_nat)
  then obtain m where m: "f64_div (f64_of_int (int64_of ?d)) (f64_of_u64 td) = F64Fin False m" "0 \<le> m" "m \<le> 1"
    by (cases "f64_div (f64_of_int (int64_of ?d)) (f64_of_u64 td)") auto
  have n: "f64_of_int (int n) = F64Fin False (of_nat n)"
    using assms(5) f64_of_small_int[of "int n"] by simp
  have mn: "m * of_nat n \<le> of_nat n" using mult_right_mono[OF m(3), of "of_nat n"] by simp
  have "round53 (m * of_nat n) \<le> of_nat n"
  proof (rule round53_le[OF _ mn])
    show "0 \<le> m * of_nat n" using m by simp
    have "round53 (of_int (int n)) = of_int (int n)" using assms(5) by (intro round53_int) auto
    then show "round53 (of_nat n) = of_nat n" by simp
  qed
  moreover have "m * of_nat n \<le> p2 1023"
    using round_range_nat[OF mult_nonneg_nonneg[OF m(2) of_nat_0_le_iff] mn assms(5)]
    unfolding in_round_range_def by (intro p2_1000_1023) (rule conjunct2)
  ultimately have "f64_in (of_nat n) (f64_mul (F64Fin False m) (F64Fin False (of_nat n)))"
    using m by (simp add: f64_round_fin)
  then show ?thesis
    unfolding cpuMetricTimeDelta_def Let_def m(1) n using assms(5) by (rule Round_in)
qed

text \<open>The counters a metric may report, with the keys of the event.\<close>

definition metric_fields :: "(string \<times> (CPU \<Rightarrow> u64 option)) list" where
  "metric_fields =
     [(''user'', cpu_User), (''system'', cpu_Sys), (''idle'', cpu_Idle), (''nice'', cpu_Nice),
      (''irq'', cpu_Irq), (''iowait'', cpu_Wait), (''softirq'', cpu_SoftIrq), (''steal'', cpu_Stolen)]"

definition norm_cpus :: "Metrics \<Rightarrow> int" where
  "norm_cpus m = (if isTotals m then count m else 1)"

lemma metric_field_growth:
  assumes "samples_advance prev cur" "(name, sel) \<in> set metric_fields"
  shows "unat (valueOr 0 (sel prev)) \<le> unat (valueOr 0 (sel cur))"
    and "unat (valueOr 0 (sel cur)) - unat (valueOr 0 (sel prev)) \<le> ticks cur - ticks prev"
proof -
  let ?f = "\<lambda>x :: u64 option. unat (valueOr 0 x)"
  have gr: "list_all2 (\<lambda>p c. ?f p \<le> ?f c) (counters prev) (counters cur)"
    using assms(1) by (simp add: samples_advance_def)
  have "\<exists>i < 8. \<forall>c. sel c = counters c ! i"
    using assms(2) unfolding metric_fields_def counters_def
    by (auto intro: exI[of _ 0] exI[of _ "1 :: nat"] exI[of _ "2 :: nat"] exI[of _ "3 :: nat"]
        exI[of _ "4 :: nat"] exI[of _ "5 :: nat"] exI[of _ "6 :: nat"] exI[of _ "7 :: nat"])
  then obtain i where i: "i < 8" "\<And>c. sel c = counters c ! i" by blast
  have len: "length (counters c) = 8" for c by (simp add: counters_def)
  show "?f (sel prev) \<le> ?f (sel cur)"
    unfolding i(2) using list_all2_nthD[OF gr, of i] i(1) by (simp add: len)
  show "?f (sel cur) - ?f (sel prev) \<le> ticks cur - ticks prev"
    unfolding i(2) ticks_def using sum_list_growth[OF gr, of i] i(1) by (simp add: len)
qed

lemma time_delta:
  assumes "opt_sum S" "samples_advance prev cur"
  shows "unat (CPU_Total S cur - CPU_Total S prev) = ticks cur - ticks prev"
  using assms CPU_Total_ticks[OF assms(1), of prev] CPU_Total_ticks[OF assms(1), of cur]
  by (subst unat_sub_u64) (auto simp: samples_advance_def)

lemma metric_pct_in:
  assumes "opt_sum S" "samples_advance prev cur" "(name, sel) \<in> set metric_fields" "n \<le> 2 ^ 39"
  shows "f64_in (of_nat n) (cpuMetricTimeDelta (sel prev) (sel cur) (CPU_Total S cur - CPU_Total S prev) (int n))"
proof (rule cpuMetricTimeDelta_in)
  note d = time_delta[OF assms(1,2)] and g = metric_field_growth[OF assms(2,3)]
  have t: "ticks prev < ticks cur" "ticks cur < 2 ^ 63" using assms(2) by (simp_all add: samples_advance_def)
  show "unat (valueOr 0 (sel prev)) \<le> unat (valueOr 0 (sel cur))" by (rule g(1))
  show "unat (valueOr 0 (sel cur)) - unat (valueOr 0 (sel prev)) \<le> unat (CPU_Total S cur - CPU_Total S prev)"
    unfolding d by (rule g(2))
  show "0 < unat (CPU_Total S cur - CPU_Total S prev)" "unat (CPU_Total S cur - CPU_Total S prev) < 2 ^ 63"
    unfolding d using t by linarith+
qed (rule assms(4))

lemma createTotal_le:
  assumes "opt_sum S" "samples_advance prev cur" "n \<le> 2 ^ 39"
  shows "f64_le (createTotal prev cur (CPU_Total S cur - CPU_Total S prev) (int n)) (F64Fin False (of_nat n))"
proof -
  let ?td = "CPU_Total S cur - CPU_Total S prev"
  have "(''idle'', cpu_Idle) \<in> set metric_fields" "(''iowait'', cpu_Wait) \<in> set metric_fields"
    by (simp_all add: metric_fields_def)
  note pct = this[THEN metric_pct_in[OF assms(1,2) _ assms(3)]]
  obtain a where a: "cpuMetricTimeDelta (cpu_Idle prev) (cpu_Idle cur) ?td (int n) = F64Fin False a" "0 \<le> a" "a \<le> of_nat n"
    using pct(1) by (cases "cpuMetricTimeDelta (cpu_Idle prev) (cpu_Idle cur) ?td (int n)") auto
  obtain b where b: "cpuMetricTimeDelta (cpu_Wait prev) (cpu_Wait cur) ?td (int n) = F64Fin False b" "0 \<le> b" "b \<le> of_nat n"
    using pct(2) by (cases "cpuMetricTimeDelta (cpu_Wait prev) (cpu_Wait cur) ?td (int n)") auto
  have n: "f64_of_int (int n) = F64Fin False (of_nat n)"
    using assms(3) f64_of_small_int[of "int n"] by simp
  have r: "q \<le> p2 1000" if "q \<le> of_nat (2 * n)" "0 \<le> q" for q :: rat
  proof -
    have "q \<le> of_nat (2 ^ 40)" using that(1) assms(3) by (auto intro: order_trans)
    also have "\<dots> = p2 40" by simp
    also have "\<dots> \<le> p2 1000" by (simp only: p2_le_iff)
    finally show ?thesis .
  qed
  have ab: "0 \<le> a + b" "a + b \<le> of_nat (2 * n)" using a b by auto
  then have ab': "a + b \<le> p2 1000" by (intro r) auto
  have "round53 (a + b) \<le> p2 1000" by (rule round53_le_p2[OF ab(1) ab'])
  moreover have "f64_add (F64Fin False a) (F64Fin False b) = F64Fin False (round53 (a + b))"
    using a b ab' by (intro f64_add_nonneg) auto
  moreover have "a \<le> p2 1000" using a by (intro r) auto
  ultimately show ?thesis
    using a b ab unfolding createTotal_def Let_def n a(1) b(1)
    by (cases "cpu_Wait cur = None") (auto intro!: Round_sub_le(1) assms(3))
qed

lemma lookup_report:
  "lookup_set k (reportOptMetric opts td name cur prev n) =
     (if k = name then map_option (\<lambda>c. VObj (fillMetric opts (Some c) prev td n)) cur else None)"
  by (cases cur) (simp_all add: reportOptMetric_def)

lemma format_lookup:
  "name \<in> fst ` set metric_fields \<Longrightarrow> lookup_set name (format_cpuInfo m) = None"
  "lookup_set name (format_totals opts prev cur td n) = None"
  "lookup_put name (format_cpuInfo m) = None"
  "lookup_put name (reportOptMetric opts td k c p n) = None"
  by (auto simp: format_cpuInfo_def format_totals_def reportOptMetric_def metric_fields_def)

text \<open>What the event of a successful \<open>Format\<close> holds.\<close>

definition reports_fields :: "(u64 option list \<Rightarrow> u64) \<Rightarrow> MetricOpts \<Rightarrow> Metrics \<Rightarrow> mapstr \<Rightarrow> bool" where
  "reports_fields S opts m ev \<longleftrightarrow>
     list_all (\<lambda>(name, sel). lookup_set name ev =
         map_option (\<lambda>c. VObj (fillMetric opts (Some c) (sel (previousSample m))
             (CPU_Total S (currentSample m) - CPU_Total S (previousSample m)) (norm_cpus m)))
           (sel (currentSample m))) metric_fields"

definition reports_totals :: "(u64 option list \<Rightarrow> u64) \<Rightarrow> MetricOpts \<Rightarrow> Metrics \<Rightarrow> mapstr \<Rightarrow> bool" where
  "reports_totals S opts m ev \<longleftrightarrow>
     (let tot = createTotal (previousSample m) (currentSample m)
            (CPU_Total S (currentSample m) - CPU_Total S (previousSample m)) in
      lookup_put ''total.pct'' ev =
        (if mo_Percentages opts then Some (VFloat (tot (norm_cpus m))) else None) \<and>
      lookup_put ''total.norm.pct'' ev =
        (if mo_NormalizedPercentages opts then Some (VFloat (tot 1)) else None))"

lemma Format_event:
  obtains "CPU_Total S (currentSample m) = CPU_Total S (previousSample m)"
    "Format S opts m = Err (Message ''previous sample is newer than current sample'')"
  | ev where "CPU_Total S (currentSample m) \<noteq> CPU_Total S (previousSample m)"
    "Format S opts m = Ok ev" "reports_fields S opts m ev" "reports_totals S opts m ev"
proof (cases "CPU_Total S (currentSample m) = CPU_Total S (previousSample m)")
  case True
  then show ?thesis using that(1) by (simp add: Format_def)
next
  case False
  then have "\<not> CPU_Total S (currentSample m) - CPU_Total S (previousSample m) \<le> 0"
    by (simp add: word_le_0_iff)
  then obtain ev where ev: "Format S opts m = Ok ev" by (simp add: Format_def Let_def)
  then have "reports_fields S opts m ev"
    by (auto simp: Format_def Let_def reports_fields_def norm_cpus_def metric_fields_def
        format_lookup lookup_report split: if_splits option.splits)
  moreover have "reports_totals S opts m ev"
    using ev
    by (auto simp: Format_def Let_def reports_totals_def norm_cpus_def
        format_lookup format_totals_def split: if_splits)
  ultimately show ?thesis using False ev that(2) by blast
qed

text \<open>
  C3. \<open>Format\<close> fails, with its only error, exactly when the two samples have the
  same total; otherwise the event reports each counter of the current sample that the
  platform provides, and no other, with what \<open>fillMetric\<close> makes of it, and the totals
  that the options ask for.
\<close>

theorem Format_result:
  "case Format S opts m of
     Err e \<Rightarrow> e = Message ''previous sample is newer than current sample'' \<and>
       CPU_Total S (currentSample m) = CPU_Total S (previousSample m)
   | Ok ev \<Rightarrow> CPU_Total S (currentSample m) \<noteq> CPU_Total S (previousSample m) \<and>
       reports_fields S opts m ev \<and> reports_totals S opts m ev
   | Panic \<Rightarrow> False"
  by (rule Format_event[of S m opts]) auto

definition pct_between :: "string \<Rightarrow> nat \<Rightarrow> mval option \<Rightarrow> bool" where
  "pct_between key n v =
     (case v of Some (VObj ws) \<Rightarrow>
        (case lookup_put key ws of Some (VFloat p) \<Rightarrow> f64_in (of_nat n) p | Some _ \<Rightarrow> False | None \<Rightarrow> True)
      | Some _ \<Rightarrow> False | None \<Rightarrow> True)"

definition total_at_most :: "nat \<Rightarrow> mval option \<Rightarrow> bool" where
  "total_at_most n v =
     (case v of Some (VFloat p) \<Rightarrow> f64_le p (F64Fin False (of_nat n)) | Some _ \<Rightarrow> False | None \<Rightarrow> True)"

lemma fillMetric_between:
  assumes "f64_in (of_nat n) (cpuMetricTimeDelta p c td k)" "f64_in 1 (cpuMetricTimeDelta p c td 1)"
  shows "pct_between ''pct'' n (map_option (\<lambda>x. VObj (fillMetric opts (Some x) p td k)) c)"
    and "pct_between ''norm.pct'' 1 (map_option (\<lambda>x. VObj (fillMetric opts (Some x) p td k)) c)"
  using assms by (cases c; simp add: pct_between_def fillMetric_def)+

text \<open>
  C4. For two samples of a running system every percentage in the event is a finite
  number between 0 and the number of CPUs the metric is about, every normalised
  percentage is between 0 and 1, and the totals do not exceed those bounds.
\<close>

theorem Format_percentages:
  assumes S: "opt_sum S" "samples_advance (previousSample m) (currentSample m)"
    and n: "norm_cpus m = int n" "n \<le> 2 ^ 39"
  shows "\<exists>ev. Format S opts m = Ok ev \<and>
    list_all (\<lambda>(name, sel). pct_between ''pct'' n (lookup_set name ev) \<and>
       pct_between ''norm.pct'' 1 (lookup_set name ev)) metric_fields \<and>
    total_at_most n (lookup_put ''total.pct'' ev) \<and> total_at_most 1 (lookup_put ''total.norm.pct'' ev)"
proof (rule Format_event[of S m opts])
  assume "CPU_Total S (currentSample m) = CPU_Total S (previousSample m)"
  then show ?thesis using time_delta[OF S] S(2) by (simp add: samples_advance_def)
next
  fix ev assume ev: "Format S opts m = Ok ev" "reports_fields S opts m ev" "reports_totals S opts m ev"
  have "list_all (\<lambda>(name, sel). pct_between ''pct'' n (lookup_set name ev) \<and>
       pct_between ''norm.pct'' 1 (lookup_set name ev)) metric_fields"
    unfolding list_all_iff
  proof safe
    fix name sel assume f: "(name, sel) \<in> set metric_fields"
    note in_n = metric_pct_in[OF S f n(2)] and in_1 = metric_pct_in[OF S f, of 1]
    have l: "lookup_set name ev = map_option (\<lambda>c. VObj (fillMetric opts (Some c) (sel (previousSample m))
        (CPU_Total S (currentSample m) - CPU_Total S (previousSample m)) (norm_cpus m))) (sel (currentSample m))"
      using ev(2) f by (auto simp: reports_fields_def list_all_iff)
    show "pct_between ''pct'' n (lookup_set name ev)" "pct_between ''norm.pct'' 1 (lookup_set name ev)"
      unfolding l n(1)
      by (rule fillMetric_between(1)[OF in_n in_1[simplified]], rule fillMetric_between(2)[OF in_n in_1[simplified]])
  qed
  moreover have "total_at_most n (lookup_put ''total.pct'' ev)" "total_at_most 1 (lookup_put ''total.norm.pct'' ev)"
    using ev(3) createTotal_le[OF S n(2)] createTotal_le[OF S, of 1]
    by (simp_all add: reports_totals_def total_at_most_def Let_def n(1))
  ultimately show ?thesis using ev(1) by blast
qed

definition demo_metrics :: Metrics where
  "demo_metrics =
     \<lparr>previousSample = cpu_of_values [10, 2, 3, 40, 5, 6, 7, 8],
      currentSample = cpu_of_values [20, 2, 3, 50, 5, 6, 7, 8], count = 2,
      cpuInfo = zeroCPUInfo, isTotals = True\<rparr>"

theorem Format_percentages_witness:
  "\<exists>ev. Format sum_present \<lparr>mo_Ticks = True, mo_Percentages = True, mo_NormalizedPercentages = True\<rparr>
      demo_metrics = Ok ev \<and>
    list_all (\<lambda>(name, sel). pct_between ''pct'' 2 (lookup_set name ev) \<and>
       pct_between ''norm.pct'' 1 (lookup_set name ev)) metric_fields \<and>
    total_at_most 2 (lookup_put ''total.pct'' ev) \<and> total_at_most 1 (lookup_put ''total.norm.pct'' ev)"
proof (rule Format_percentages[OF opt_sum_present])
  show "samples_advance (previousSample demo_metrics) (currentSample demo_metrics)"
    by (simp add: demo_metrics_def samples_advance_def counters_def ticks_def cpu_of_values_def)
qed (simp_all add: demo_metrics_def norm_cpus_def)

end
