(* ===== verification/CPU_Other.thy ===== *)
theory CPU_Other
  imports CPU_Stat "HOL-Library.Signed_Division"
begin

text \<open>
  \<open>Get\<close> of \<open>metric/cpu\<close> on OpenBSD, AIX, macOS and Windows, and the line parser of
  FreeBSD. The system calls, gopsutil, gosigar and the constants of the C headers are
  arguments. Proved: what each reports per CPU and in total, where OpenBSD repeats the
  total for each CPU and AIX forgets a conversion, and that the walk over the CPUs of AIX
  ends.
\<close>

section \<open>FreeBSD\<close>

definition parseCPULine_freebsd :: "(go_error list \<Rightarrow> go_error option) \<Rightarrow> string \<Rightarrow> CPU outcome" where
  "parseCPULine_freebsd errs_Err line =
     (let fs = Fields line in
      and_then (at_index fs 1) (\<lambda>f. let (user, errs) = tryParseUint ''user'' f [] in
      and_then (at_index fs 2) (\<lambda>f. let (nice, errs) = tryParseUint ''nice'' f errs in
      and_then (at_index fs 3) (\<lambda>f. let (sys, errs) = tryParseUint ''sys'' f errs in
      and_then (at_index fs 4) (\<lambda>f. let (idle, errs) = tryParseUint ''idle'' f errs in
        case errs_Err errs of
          None \<Rightarrow> Ok (zeroCPU\<lparr>cpu_User := user, cpu_Nice := nice, cpu_Sys := sys, cpu_Idle := idle\<rparr>)
        | Some e \<Rightarrow> Err e)))))"

definition scanStatFile_freebsd :: "(go_error list \<Rightarrow> go_error option) \<Rightarrow> string \<Rightarrow> CPUMetrics outcome" where
  "scanStatFile_freebsd errs_Err file =
     wrap_err ''error scanning stat file'' (statScanner (parseCPULine_freebsd errs_Err) file)"

section \<open>OpenBSD\<close>

text \<open>
  A \<open>sysctl\<close> without a buffer answers with its error number and the size, one with a
  buffer also with what the buffer then holds. \<open>co_states\<close> are the values of \<open>CP_USER\<close>,
  \<open>CP_NICE\<close>, \<open>CP_SYS\<close>, \<open>CP_INTR\<close> and \<open>CP_IDLE\<close>, with which the code fills its buffers.
\<close>

record openbsd_cpu_env =
  co_size :: "int list \<Rightarrow> nat \<times> nat"
  co_cptime :: "int list \<Rightarrow> u64 list \<Rightarrow> nat \<times> nat \<times> u64 list"
  co_ncpu :: "nat \<times> nat \<times> int"
  co_states :: "u64 list"
  co_CPUSTATES :: nat
  co_HW_NCPU :: "int list"
  co_CTL_KERN :: int
  co_KERN_CPTIME :: int
  co_KERN_CPTIME2 :: int

text \<open>The error, if any, and the buffer afterwards; a size of 0 is an error even without an error number.\<close>

definition sysctlGetCPUTimes :: "openbsd_cpu_env \<Rightarrow> int \<Rightarrow> int \<Rightarrow> u64 list \<Rightarrow> go_error option \<times> u64 list" where
  "sysctlGetCPUTimes b ncpu curcpu load =
     (let mib = (if ncpu = 0 then [co_CTL_KERN b, co_KERN_CPTIME b]
                 else [co_CTL_KERN b, co_KERN_CPTIME2 b, signed_take_bit 31 curcpu]) in
      case co_size b mib of (errno, n) \<Rightarrow>
        if errno \<noteq> 0 \<or> n = 0 then (Some (syscall_Errno errno), load)
        else
          case co_cptime b mib load of (errno, n, load) \<Rightarrow>
            if errno \<noteq> 0 \<or> n = 0 then (Some (syscall_Errno errno), load) else (None, load))"

definition cpu_of_load :: "u64 list \<Rightarrow> CPU" where
  "cpu_of_load load =
     zeroCPU\<lparr>cpu_User := Some (load ! 0), cpu_Nice := Some (load ! 1), cpu_Sys := Some (load ! 2),
       cpu_Irq := Some (load ! 3), cpu_Idle := Some (load ! 4)\<rparr>"

definition initial_load :: "openbsd_cpu_env \<Rightarrow> u64 list" where
  "initial_load b = co_states b @ replicate (co_CPUSTATES b - length (co_states b)) 0"

text \<open>The loop over the CPUs reads into \<open>loadPerCPU\<close> but takes the values of \<open>loadGlobal\<close>.\<close>

fun openbsd_loop :: "openbsd_cpu_env \<Rightarrow> int \<Rightarrow> u64 list \<Rightarrow> u64 list \<Rightarrow> int list \<Rightarrow> CPU list" where
  "openbsd_loop b ncpu loadGlobal loadPerCPU [] = []"
| "openbsd_loop b ncpu loadGlobal loadPerCPU (i # rest) =
     (case sysctlGetCPUTimes b ncpu i loadPerCPU of (_, loadPerCPU) \<Rightarrow>
        cpu_of_load loadGlobal # openbsd_loop b ncpu loadGlobal loadPerCPU rest)"

definition CPU_Get_openbsd :: "openbsd_cpu_env \<Rightarrow> CPUMetrics outcome" where
  "CPU_Get_openbsd b =
     (case sysctlGetCPUTimes b 0 0 (initial_load b) of
        (Some err, _) \<Rightarrow> Err err
      | (None, loadGlobal) \<Rightarrow>
          (case co_size b (co_HW_NCPU b) of (errno, callSize) \<Rightarrow>
             if errno \<noteq> 0 \<or> callSize = 0 then Err (syscall_Errno errno)
             else
               case co_ncpu b of (errno, callSize, ncpu) \<Rightarrow>
                 if errno \<noteq> 0 \<or> callSize = 0 then Err (syscall_Errno errno)
                 else if ncpu < 0 then Panic
                 else Ok (zeroCPUMetrics\<lparr>totals := cpu_of_load loadGlobal,
                        cpu_list := openbsd_loop b ncpu loadGlobal (initial_load b) [0..ncpu - 1]\<rparr>)))"

section \<open>AIX\<close>

record perfstat_cpu =
  ps_user :: u64
  ps_sys :: u64
  ps_idle :: u64
  ps_wait :: u64

text \<open>
  \<open>ac_perfstat_cpu\<close> is called with the name to start from and returns the data of that
  CPU and the next name, which is empty after the last; \<open>ac_capacity\<close> is the call that
  asks for the number of CPUs only.
\<close>

record aix_cpu_env =
  ac_ticks :: u64
  ac_perfstat_cpu_total :: "perfstat_cpu outcome"
  ac_capacity :: "int outcome"
  ac_perfstat_cpu :: "string \<Rightarrow> go_error + (perfstat_cpu \<times> string)"

definition tick2msec :: "aix_cpu_env \<Rightarrow> u64 \<Rightarrow> u64 outcome" where
  "tick2msec a val = (if ac_ticks a = 0 then Panic else Ok (val * 1000 div ac_ticks a))"

text \<open>The user time of the total is not converted.\<close>

definition getCPUTotals :: "aix_cpu_env \<Rightarrow> CPU outcome" where
  "getCPUTotals a =
     (case ac_perfstat_cpu_total a of
        Err _ \<Rightarrow> Err (Message ''perfstat_cpu_total'')
      | Panic \<Rightarrow> Panic
      | Ok cpudata \<Rightarrow>
          and_then (tick2msec a (ps_sys cpudata)) (\<lambda>sys.
          and_then (tick2msec a (ps_idle cpudata)) (\<lambda>idle.
          and_then (tick2msec a (ps_wait cpudata)) (\<lambda>wait.
            Ok (zeroCPU\<lparr>cpu_User := Some (ps_user cpudata), cpu_Sys := Some sys, cpu_Idle := Some idle, cpu_Wait := Some wait\<rparr>)))))"

definition aix_cpu :: "aix_cpu_env \<Rightarrow> perfstat_cpu \<Rightarrow> CPU outcome" where
  "aix_cpu a cpudata =
     and_then (tick2msec a (ps_user cpudata)) (\<lambda>user.
     and_then (tick2msec a (ps_sys cpudata)) (\<lambda>sys.
     and_then (tick2msec a (ps_idle cpudata)) (\<lambda>idle.
     and_then (tick2msec a (ps_wait cpudata)) (\<lambda>wait.
       Ok (zeroCPU\<lparr>cpu_User := Some user, cpu_Sys := Some sys, cpu_Idle := Some idle, cpu_Wait := Some wait\<rparr>)))))"

text \<open>The loop has no bound of its own: the fuel is the number of rounds it may take.\<close>

fun aix_cpu_loop :: "nat \<Rightarrow> aix_cpu_env \<Rightarrow> string \<Rightarrow> CPU list \<Rightarrow> CPU list outcome option" where
  "aix_cpu_loop 0 a name lst = None"
| "aix_cpu_loop (Suc fuel) a name lst =
     (case ac_perfstat_cpu a name of
        Inl _ \<Rightarrow> Some (Err (Message ''perfstat_cpu''))
      | Inr (cpudata, name) \<Rightarrow>
          (case aix_cpu a cpudata of
             Ok cpu \<Rightarrow> if name = [] then Some (Ok (lst @ [cpu])) else aix_cpu_loop fuel a name (lst @ [cpu])
           | Err e \<Rightarrow> Some (Err e)
           | Panic \<Rightarrow> Some Panic))"

definition getPerCPUMetrics :: "nat \<Rightarrow> aix_cpu_env \<Rightarrow> CPU list outcome option" where
  "getPerCPUMetrics fuel a =
     (case ac_capacity a of
        Err _ \<Rightarrow> Some (Err (Message ''error while retrieving CPU number''))
      | Panic \<Rightarrow> Some Panic
      | Ok capacity \<Rightarrow> if capacity < 0 then Some Panic else aix_cpu_loop fuel a [] [])"

definition CPU_Get_aix :: "nat \<Rightarrow> aix_cpu_env \<Rightarrow> CPUMetrics outcome option" where
  "CPU_Get_aix fuel a =
     (case wrap_err ''error getting CPU totals'' (getCPUTotals a) of
        Err e \<Rightarrow> Some (Err e)
      | Panic \<Rightarrow> Some Panic
      | Ok t \<Rightarrow> map_option (\<lambda>r. and_then (wrap_err ''error getting per-cpu metrics'' r) (\<lambda>lst.
          Ok (zeroCPUMetrics\<lparr>totals := t, cpu_list := lst\<rparr>))) (getPerCPUMetrics fuel a))"

section \<open>macOS and Windows\<close>

record TimesStat =
  ts_User :: f64
  ts_System :: f64
  ts_Idle :: f64
  ts_Nice :: f64

text \<open>
  The conversion of a float to \<open>uint64\<close> drops the fraction; outside the range of the type
  the result is up to the implementation.
\<close>

fun u64_of_f64 :: "(f64 \<Rightarrow> u64) \<Rightarrow> f64 \<Rightarrow> u64" where
  "u64_of_f64 arch (F64Fin neg q) =
     (if \<not> neg \<and> q < 2 ^ 64 then word_of_int \<lfloor>q\<rfloor> else if neg \<and> q < 1 then 0 else arch (F64Fin neg q))"
| "u64_of_f64 arch x = arch x"

definition fillCPU :: "(f64 \<Rightarrow> u64) \<Rightarrow> TimesStat \<Rightarrow> CPU" where
  "fillCPU arch raw =
     zeroCPU\<lparr>cpu_Sys := Some (u64_of_f64 arch (ts_System raw)), cpu_User := Some (u64_of_f64 arch (ts_User raw)),
       cpu_Idle := Some (u64_of_f64 arch (ts_Idle raw)), cpu_Nice := Some (u64_of_f64 arch (ts_Nice raw))\<rparr>"

text \<open>\<open>Times\<close> is gopsutil's \<open>cpu.Times\<close>.\<close>

definition CPU_Get_darwin :: "(f64 \<Rightarrow> u64) \<Rightarrow> (bool \<Rightarrow> TimesStat list outcome) \<Rightarrow> CPUMetrics outcome" where
  "CPU_Get_darwin arch Times =
     and_then (wrap_err ''error fetching CPU summary data'' (Times False)) (\<lambda>s.
     and_then (wrap_err ''error fetching per-CPU data'' (Times True)) (\<lambda>perCPU.
     and_then (at_index s 0) (\<lambda>s0.
       Ok (zeroCPUMetrics\<lparr>totals := fillCPU arch s0, cpu_list := map (fillCPU arch) perCPU\<rparr>))))"

text \<open>Durations are nanoseconds; a system time is idle, kernel and user time.\<close>

definition windows_cpu :: "int \<times> int \<times> int \<Rightarrow> CPU" where
  "windows_cpu t =
     (case t of (idle, sys, user) \<Rightarrow>
        zeroCPU\<lparr>cpu_Idle := Some (word_of_int (idle sdiv 1000000)), cpu_Sys := Some (word_of_int (sys sdiv 1000000)),
          cpu_User := Some (word_of_int (user sdiv 1000000))\<rparr>)"

definition CPU_Get_windows :: "(int \<times> int \<times> int) outcome \<Rightarrow> (int \<times> int \<times> int) list outcome \<Rightarrow> CPUMetrics outcome" where
  "CPU_Get_windows GetSystemTimes PerformanceInformation =
     and_then (wrap_err ''call to GetSystemTimes failed'' GetSystemTimes) (\<lambda>t.
     and_then (wrap_err ''catll to NtQuerySystemProcessorPerformanceInformation failed'' PerformanceInformation) (\<lambda>cpus.
       Ok (zeroCPUMetrics\<lparr>totals := windows_cpu t, cpu_list := map windows_cpu cpus\<rparr>)))"

section \<open>OpenBSD repeats the total\<close>

lemma openbsd_loop_global: "openbsd_loop b ncpu g p is = replicate (length is) (cpu_of_load g)"
  by (induction "is" arbitrary: p) (simp_all split: prod.splits)

text \<open>
  On OpenBSD every CPU is reported with the numbers of the whole system, whatever the
  system says of each CPU, and whether or not it could be asked.
\<close>

theorem CPU_Get_openbsd_repeats:
  assumes "CPU_Get_openbsd b = Ok m"
  shows "cpu_list m = replicate (nat (snd (snd (co_ncpu b)))) (totals m) \<and>
    fst (sysctlGetCPUTimes b 0 0 (initial_load b)) = None \<and>
    totals m = cpu_of_load (snd (sysctlGetCPUTimes b 0 0 (initial_load b)))"
  using assms by (auto simp: CPU_Get_openbsd_def openbsd_loop_global split: prod.splits option.splits if_splits)

definition two_cpus :: openbsd_cpu_env where
  "two_cpus =
     \<lparr>co_size = (\<lambda>_. (0, 8)),
      co_cptime = (\<lambda>mib _. if mib = [1, 40] then (0, 40, [30, 0, 12, 0, 90]) else if mib = [1, 71, 0] then (0, 40, [10, 0, 4, 0, 40])
        else (0, 40, [20, 0, 8, 0, 50])),
      co_ncpu = (0, 4, 2), co_states = [0, 1, 2, 3, 4], co_CPUSTATES = 5, co_HW_NCPU = [6, 3], co_CTL_KERN = 1,
      co_KERN_CPTIME = 40, co_KERN_CPTIME2 = 71\<rparr>"

theorem CPU_Get_openbsd_repeats_witness:
  "\<exists>m. CPU_Get_openbsd two_cpus = Ok m \<and> cpu_list m = [cpu_of_load [30, 0, 12, 0, 90], cpu_of_load [30, 0, 12, 0, 90]] \<and>
     snd (sysctlGetCPUTimes two_cpus 2 0 []) = [10, 0, 4, 0, 40]"
proof -
  obtain m where m: "CPU_Get_openbsd two_cpus = Ok m"
    by (simp add: CPU_Get_openbsd_def two_cpus_def sysctlGetCPUTimes_def)
  show ?thesis
    using m CPU_Get_openbsd_repeats[OF m] by (simp add: two_cpus_def sysctlGetCPUTimes_def numeral_2_eq_2)
qed

section \<open>The walk of AIX\<close>

text \<open>
  What \<open>perfstat_cpu\<close> documents: it walks a list of CPUs; the empty name is the first one,
  and after the last the next name is empty.
\<close>

fun names_cpus :: "aix_cpu_env \<Rightarrow> string \<Rightarrow> perfstat_cpu list \<Rightarrow> bool" where
  "names_cpus a name [] = False"
| "names_cpus a name [c] = (ac_perfstat_cpu a name = Inr (c, []))"
| "names_cpus a name (c # d # cs) =
     (case ac_perfstat_cpu a name of Inr (c', next) \<Rightarrow> c' = c \<and> next \<noteq> [] \<and> names_cpus a next (d # cs) | Inl _ \<Rightarrow> False)"

definition msec :: "aix_cpu_env \<Rightarrow> u64 \<Rightarrow> u64" where
  "msec a val = val * 1000 div ac_ticks a"

definition cpu_msec :: "aix_cpu_env \<Rightarrow> perfstat_cpu \<Rightarrow> CPU" where
  "cpu_msec a c = zeroCPU\<lparr>cpu_User := Some (msec a (ps_user c)), cpu_Sys := Some (msec a (ps_sys c)),
     cpu_Idle := Some (msec a (ps_idle c)), cpu_Wait := Some (msec a (ps_wait c))\<rparr>"

lemma aix_cpu_msec: "ac_ticks a \<noteq> 0 \<Longrightarrow> aix_cpu a c = Ok (cpu_msec a c)"
  by (simp add: aix_cpu_def tick2msec_def cpu_msec_def msec_def)

lemma aix_cpu_loop_walk:
  "names_cpus a name cs \<Longrightarrow> ac_ticks a \<noteq> 0 \<Longrightarrow> length cs \<le> fuel \<Longrightarrow>
     aix_cpu_loop fuel a name lst = Some (Ok (lst @ map (cpu_msec a) cs))"
proof (induction a name cs arbitrary: fuel lst rule: names_cpus.induct)
  case (2 a name c)
  then show ?case by (cases fuel) (simp_all add: aix_cpu_msec)
next
  case (3 a name c d cs)
  then show ?case by (cases fuel) (auto simp: aix_cpu_msec split: sum.splits)
qed simp

text \<open>
  C21. On AIX \<open>Get\<close> ends after one round for each CPU and reports each in milliseconds; of
  the total, the user time stays in clock ticks while the other times are converted.
\<close>

theorem CPU_Get_aix_walk:
  assumes "names_cpus a [] cs" "ac_ticks a \<noteq> 0" "length cs \<le> fuel" "ac_capacity a = Ok (int n)"
    and "ac_perfstat_cpu_total a = Ok t"
  shows "CPU_Get_aix fuel a = Some (Ok (zeroCPUMetrics\<lparr>
    totals := (cpu_msec a t)\<lparr>cpu_User := Some (ps_user t)\<rparr>, cpu_list := map (cpu_msec a) cs\<rparr>))"
  using assms(2,4,5) aix_cpu_loop_walk[OF assms(1-3), of "[]"]
  by (simp add: CPU_Get_aix_def getCPUTotals_def getPerCPUMetrics_def tick2msec_def cpu_msec_def msec_def)

definition aix_pair :: aix_cpu_env where
  "aix_pair =
     \<lparr>ac_ticks = 100, ac_perfstat_cpu_total = Ok \<lparr>ps_user = 300, ps_sys = 50, ps_idle = 10, ps_wait = 0\<rparr>, ac_capacity = Ok 2,
      ac_perfstat_cpu = (\<lambda>name. if name = [] then Inr (\<lparr>ps_user = 100, ps_sys = 20, ps_idle = 4, ps_wait = 0\<rparr>, ''proc1'')
        else Inr (\<lparr>ps_user = 200, ps_sys = 30, ps_idle = 6, ps_wait = 0\<rparr>, []))\<rparr>"

theorem CPU_Get_aix_walk_witness:
  "\<exists>m. CPU_Get_aix 2 aix_pair = Some (Ok m) \<and> cpu_User (totals m) = Some 300 \<and> cpu_Sys (totals m) = Some 500 \<and>
     map cpu_User (cpu_list m) = [Some 1000, Some 2000]"
proof -
  let ?t = "\<lparr>ps_user = 300, ps_sys = 50, ps_idle = 10, ps_wait = 0\<rparr>"
  let ?cs = "[\<lparr>ps_user = 100, ps_sys = 20, ps_idle = 4, ps_wait = 0\<rparr>, \<lparr>ps_user = 200, ps_sys = 30, ps_idle = 6, ps_wait = 0\<rparr>]"
  have "CPU_Get_aix 2 aix_pair = Some (Ok (zeroCPUMetrics\<lparr>
      totals := (cpu_msec aix_pair ?t)\<lparr>cpu_User := Some (ps_user ?t)\<rparr>, cpu_list := map (cpu_msec aix_pair) ?cs\<rparr>))"
    by (rule CPU_Get_aix_walk[where n = 2]) (simp_all add: aix_pair_def)
  then show ?thesis by (simp add: cpu_msec_def msec_def aix_pair_def)
qed

section \<open>A line of FreeBSD\<close>

lemma parseCPULine_freebsd_show:
  assumes "multi_error errs_Err" "plain label" "4 \<le> length vs"
  shows "parseCPULine_freebsd errs_Err (show_cpu_line label vs) =
    Ok (zeroCPU\<lparr>cpu_User := Some (vs ! 0), cpu_Nice := Some (vs ! 1), cpu_Sys := Some (vs ! 2), cpu_Idle := Some (vs ! 3)\<rparr>)"
proof -
  have p: "touint (show_nat (unat v)) = Ok v" for v :: u64
    using parse_uint_show[of "unat v"] unat_u64_bound[of v] by (simp add: touint_def)
  have "errs_Err [] = None" using assms(1) by (simp add: multi_error_def)
  moreover have "vs \<noteq> []" using assms(3) by auto
  ultimately show ?thesis
    using assms(3) by (simp add: parseCPULine_freebsd_def fields_cpu_line[OF assms(2)] Let_def tryParseUint_def p)
qed

end
