(* ===== verification/Numcpu.thy ===== *)
theory Numcpu
  imports Go_OS Go_Numbers
begin

text \<open>
  \<open>metric/system/numcpu\<close>: the number of logical CPUs, read from the CPU list files of
  sysfs with a fallback to the Go runtime's number, which is an argument here. Proved:
  the parser counts the CPUs a list denotes, and \<open>NumCPU\<close> falls back exactly when the
  file cannot be used.
\<close>

section \<open>The code\<close>

definition parseCPURange :: "string \<Rightarrow> int outcome" where
  "parseCPURange cpuRange =
     wrap_err ''error reading from range''
       (and_then (scan_int cpuRange) (\<lambda>(first, r).
        and_then (scan_char (CHR ''-'') r) (\<lambda>r'.
        and_then (scan_int r') (\<lambda>(last, _).
          Ok (int_wrap (int_wrap (last - first) + 1))))))"

fun parseCPUList_loop :: "int \<Rightarrow> string list \<Rightarrow> int outcome" where
  "parseCPUList_loop count [] = Ok count"
| "parseCPUList_loop count (v # vs) =
     (if contains ''-'' v then
        and_then (wrap_err ''error parsing line'' (parseCPURange v))
          (\<lambda>rangeC. parseCPUList_loop (int_wrap (count + rangeC)) vs)
      else parseCPUList_loop (int_wrap (count + 1)) vs)"

definition parseCPUList :: "string \<Rightarrow> int outcome" where
  "parseCPUList raw = parseCPUList_loop 0 (split_on (CHR '','') raw)"

definition cpu_online_path :: string where
  "cpu_online_path = ''/sys/devices/system/cpu/online''"

definition cpu_present_path :: string where
  "cpu_present_path = ''/sys/devices/system/cpu/present''"

text \<open>
  The three results of the Linux \<open>getCPU\<close>: count, whether it exists, error. Neither
  reading nor parsing panics (\<open>parseCPUList_not_Panic\<close>), so those branches are never taken.
\<close>

definition getCPU :: "os_env \<Rightarrow> int \<times> bool \<times> go_error option" where
  "getCPU w =
     (let cpuPath = (if env_var w ''LINUX_CPU_COUNT_PRESENT'' \<noteq> None
                     then cpu_present_path else cpu_online_path)
      in case os_ReadFile w cpuPath of
           Err e \<Rightarrow>
             if errors_Is e (PathError ENOENT) then (-1, False, None)
             else (-1, False, Some (Wrapped ''error reading file'' e))
         | Panic \<Rightarrow> (-1, False, None)
         | Ok rawFile \<Rightarrow>
             (case parseCPUList rawFile of
                Ok cpuCount \<Rightarrow> (cpuCount, True, None)
              | Err e \<Rightarrow> (-1, False, Some (Wrapped ''error parsing file'' e))
              | Panic \<Rightarrow> (-1, False, None)))"

definition NumCPU :: "os_env \<Rightarrow> int \<Rightarrow> int" where
  "NumCPU w runtimeNumCPU =
     (case getCPU w of (count, exists, err) \<Rightarrow>
        if err \<noteq> None then runtimeNumCPU
        else if \<not> exists then runtimeNumCPU
        else count)"

section \<open>CPU lists\<close>

text \<open>What the kernel writes: CPUs and ranges of CPUs, separated by commas, and a newline.\<close>

datatype cpu_item = One nat | Span nat nat

fun cpus_of :: "cpu_item \<Rightarrow> nat set" where
  "cpus_of (One n) = {n}"
| "cpus_of (Span a b) = {a..b}"

fun item_ok :: "cpu_item \<Rightarrow> bool" where
  "item_ok (One n) = (n < 2 ^ 62)"
| "item_ok (Span a b) = (a \<le> b \<and> b < 2 ^ 62)"

fun show_item :: "cpu_item \<Rightarrow> string" where
  "show_item (One n) = show_nat n"
| "show_item (Span a b) = show_nat a @ CHR ''-'' # show_nat b"

definition show_cpu_list :: "cpu_item list \<Rightarrow> string" where
  "show_cpu_list is = join (CHR '','') (map show_item is) @ [newline]"

fun disjoint_items :: "cpu_item list \<Rightarrow> bool" where
  "disjoint_items [] = True"
| "disjoint_items (i # is) = (disjoint_items is \<and> cpus_of i \<inter> (\<Union>j \<in> set is. cpus_of j) = {})"

section \<open>Correctness of the parser\<close>

lemma digit_no_sep:
  "CHR ''-'' \<notin> set (show_nat n)" "CHR '','' \<notin> set (show_nat n)" "newline \<notin> set (show_nat n)"
  using show_nat_digits[of n] by (auto simp: list_all_iff is_digit_def code_def newline_def)

lemma parseCPURange_show:
  assumes "a \<le> b" "b < 2 ^ 62" "t = [] \<or> \<not> is_digit (hd t)"
  shows "parseCPURange (show_nat a @ CHR ''-'' # show_nat b @ t) = Ok (int b - int a + 1)"
proof -
  have "a < 2 ^ 63" "b < 2 ^ 63" "\<not> is_digit (CHR ''-'')"
    using assms by (auto simp: is_digit_def code_def)
  then show ?thesis
    using assms by (simp add: parseCPURange_def scan_int_show scan_char_def go_simps)
qed

lemma parse_item:
  assumes "item_ok i" "t = [] \<or> t = [newline]" "0 \<le> c" "c + int (card (cpus_of i)) < 2 ^ 63"
  shows "parseCPUList_loop c ((show_item i @ t) # vs)
           = parseCPUList_loop (c + int (card (cpus_of i))) vs"
proof -
  have nd: "t = [] \<or> \<not> is_digit (hd t)" "CHR ''-'' \<notin> set t"
    using assms(2) by (auto simp: newline_def is_digit_def code_def)
  show ?thesis
  proof (cases i)
    case (One n)
    then have "\<not> contains ''-'' (show_item i @ t)"
      using nd(2) by (simp add: go_simps digit_no_sep)
    with One assms show ?thesis by (simp add: go_simps)
  next
    case (Span a b)
    then have c: "contains ''-'' (show_item i @ t)" by (simp add: go_simps)
    have r: "parseCPURange (show_item i @ t) = Ok (int b - int a + 1)"
      using Span assms(1) nd(1) parseCPURange_show[of a b t] by simp
    have "int (card {a..b}) = int b - int a + 1" using Span assms(1) by simp
    with c r Span assms show ?thesis by (simp add: go_simps algebra_simps)
  qed
qed

lemma finite_cpus_of [simp]: "finite (cpus_of i)"
  by (cases i) auto

lemma card_items:
  "disjoint_items (i # is) \<Longrightarrow>
     card (\<Union>j \<in> set (i # is). cpus_of j) = card (cpus_of i) + card (\<Union>j \<in> set is. cpus_of j)"
  by (simp add: card_Un_disjoint)

lemma split_show_items:
  assumes "is \<noteq> []" "list_all item_ok is"
  shows "split_on (CHR '','') (show_cpu_list is)
           = map show_item (butlast is) @ [show_item (last is) @ [newline]]"
proof -
  have nc: "CHR '','' \<notin> set (show_item i)" for i
    by (cases i) (auto simp: digit_no_sep)
  have "join (CHR '','') (map show_item is) @ [newline]
          = join (CHR '','') (map show_item (butlast is) @ [show_item (last is) @ [newline]])"
    using assms(1)
  proof (induction "is")
    case (Cons i js)
    then show ?case by (cases "js = []") (simp_all add: join_Cons)
  qed simp
  moreover have "CHR '','' \<notin> set [newline]" by (simp add: newline_def)
  ultimately show ?thesis
    unfolding show_cpu_list_def using nc by (simp only:) (rule split_on_join, auto)
qed

lemma parse_items:
  assumes "is \<noteq> []" "list_all item_ok is" "disjoint_items is" "0 \<le> c"
    and "c + int (card (\<Union>i \<in> set is. cpus_of i)) < 2 ^ 63"
  shows "parseCPUList_loop c (map show_item (butlast is) @ [show_item (last is) @ [newline]])
           = Ok (c + int (card (\<Union>i \<in> set is. cpus_of i)))"
  using assms
proof (induction "is" arbitrary: c)
  case (Cons i js)
  note card = card_items[OF Cons.prems(3)]
  show ?case
  proof (cases "js = []")
    case True
    then show ?thesis using Cons.prems parse_item[of i "[newline]" c "[]"] by simp
  next
    case False
    have "c + int (card (cpus_of i)) < 2 ^ 63" using Cons.prems card by linarith
    then have "parseCPUList_loop c (show_item i # vs)
        = parseCPUList_loop (c + int (card (cpus_of i))) vs" for vs
      using Cons.prems parse_item[of i "[]" c vs] by simp
    moreover have "c + int (card (cpus_of i)) + int (card (\<Union>j \<in> set js. cpus_of j)) < 2 ^ 63"
      using Cons.prems card by linarith
    ultimately show ?thesis
      using False Cons.prems Cons.IH[of "c + int (card (cpus_of i))"] card by simp
  qed
qed simp

text \<open>
  A kernel CPU list of disjoint ids and ranges is parsed to the number of CPUs it
  names.
\<close>

theorem parseCPUList_counts:
  assumes "is \<noteq> []" "list_all item_ok is" "disjoint_items is"
    and "card (\<Union>i \<in> set is. cpus_of i) < 2 ^ 63"
  shows "parseCPUList (show_cpu_list is) = Ok (int (card (\<Union>i \<in> set is. cpus_of i)))"
  unfolding parseCPUList_def split_show_items[OF assms(1,2)]
  using assms parse_items[of "is" 0] by simp

theorem parseCPUList_counts_witness:
  "parseCPUList (show_cpu_list [Span 0 1, One 3]) = Ok 3"
  using parseCPUList_counts[of "[Span 0 1, One 3]"] by simp

lemma scan_not_Panic [simp]: "scan_int s \<noteq> Panic" "scan_uint s \<noteq> Panic" "scan_char c s \<noteq> Panic"
  by (auto simp: scan_int_def scan_uint_def scan_char_def Let_def split: outcome.splits list.splits)

lemma parseCPURange_not_Panic [simp]: "parseCPURange s \<noteq> Panic"
  by (auto simp: parseCPURange_def go_outcome)

lemma parseCPUList_loop_not_Panic: "parseCPUList_loop c vs \<noteq> Panic"
  by (induction c vs rule: parseCPUList_loop.induct) (auto simp: go_outcome)

lemma parseCPUList_not_Panic [simp]: "parseCPUList s \<noteq> Panic"
  by (simp add: parseCPUList_def parseCPUList_loop_not_Panic)

text \<open>
  \<open>NumCPU\<close> reads the list of online CPUs, or of present CPUs when the environment
  asks for it, and falls back to the runtime's count when the file is missing or
  malformed; it always returns.
\<close>

theorem NumCPU_cases:
  "NumCPU w r =
     (let p = if env_var w ''LINUX_CPU_COUNT_PRESENT'' = None then cpu_online_path else cpu_present_path
      in case file_of w p of
           Inl _ \<Rightarrow> r
         | Inr s \<Rightarrow> (case parseCPUList s of Ok n \<Rightarrow> n | _ \<Rightarrow> r))"
  by (auto simp: NumCPU_def getCPU_def os_ReadFile_def Let_def split: sum.splits outcome.splits)

end
