(* ===== verification/Numcpu_Other.thy ===== *)
theory Numcpu_Other
  imports Numcpu
begin

text \<open>
  \<open>metric/system/numcpu\<close> on the other systems: \<open>cpu_bsd.go\<close>, \<open>cpu_windows.go\<close> and the two
  stubs. The system calls are arguments. Proved: when \<open>NumCPU\<close> falls back to the number of
  the Go runtime, and that on the BSDs it can answer 0.
\<close>

text \<open>
  \<open>HW_NCPU\<close> is read twice: for the length of the value (error number and length), then for
  the value (error number and the variable \<open>ncpu\<close> after the call, 0 before it). The second
  error number is not looked at. An \<open>Errno\<close> is an error also when it is 0.
\<close>

definition getCPU_bsd :: "nat \<times> nat \<Rightarrow> (nat \<Rightarrow> int \<Rightarrow> nat \<times> int) \<Rightarrow> int \<times> bool \<times> go_error option" where
  "getCPU_bsd size_call value_call =
     (case size_call of (errno, callSize) \<Rightarrow>
        if errno \<noteq> 0 \<or> callSize = 0 then (-1, False, Some (syscall_Errno errno))
        else (case value_call callSize 0 of (errno, ncpu) \<Rightarrow> (ncpu, True, None)))"

definition getCPU_windows :: "'a list outcome \<Rightarrow> int \<times> bool \<times> go_error option" where
  "getCPU_windows NtQuerySystemProcessorPerformanceInformation =
     (case NtQuerySystemProcessorPerformanceInformation of
        Ok cpus \<Rightarrow> (int (length cpus), True, None)
      | Err e \<Rightarrow> (-1, False, Some (Wrapped ''syscall NtQuerySystemProcessorPerformanceInformation failed'' e))
      | Panic \<Rightarrow> (-1, False, None))"

definition getCPU_cgo :: "int \<times> bool \<times> go_error option" where
  "getCPU_cgo = (-1, False, None)"

definition getCPU_other :: "int \<times> bool \<times> go_error option" where
  "getCPU_other = (-1, False, None)"

text \<open>\<open>NumCPU\<close> over the \<open>getCPU\<close> of the operating system.\<close>

definition NumCPU_over :: "int \<times> bool \<times> go_error option \<Rightarrow> int \<Rightarrow> int" where
  "NumCPU_over got runtimeNumCPU =
     (case got of (count, exists, err) \<Rightarrow>
        if err \<noteq> None then runtimeNumCPU
        else if \<not> exists then runtimeNumCPU
        else count)"

lemma NumCPU_over_linux: "NumCPU w n = NumCPU_over (getCPU w) n"
  by (simp add: NumCPU_def NumCPU_over_def)

lemma NumCPU_stubs: "NumCPU_over getCPU_cgo n = n" "NumCPU_over getCPU_other n = n"
  by (simp_all add: NumCPU_over_def getCPU_cgo_def getCPU_other_def)

lemma NumCPU_windows: "NumCPU_over (getCPU_windows q) n = (case q of Ok cpus \<Rightarrow> int (length cpus) | _ \<Rightarrow> n)"
  by (cases q) (simp_all add: NumCPU_over_def getCPU_windows_def)

lemma NumCPU_bsd:
  "NumCPU_over (getCPU_bsd (errno, callSize) value_call) n =
     (if errno \<noteq> 0 \<or> callSize = 0 then n else snd (value_call callSize 0))"
  by (simp add: NumCPU_over_def getCPU_bsd_def split: prod.split)

text \<open>A second call that fails and leaves the variable alone makes the machine one without CPUs.\<close>

lemma NumCPU_bsd_zero: "NumCPU_over (getCPU_bsd (0, 4) (\<lambda>_ ncpu. (12, ncpu))) 8 = 0"
  by (simp add: NumCPU_bsd)

end
