(* ===== verification/Memory.thy ===== *)
theory Memory
  imports Metric_Math Go_Numbers Resolve
begin

text \<open>
  \<open>metric/memory\<close>: \<open>/proc/meminfo\<close> is read by \<open>ParseMeminfo\<close> (\<open>memory_helpers.go\<close>), turned
  into a \<open>Memory\<close> by the Linux \<open>get\<close> (\<open>memory_linux.go\<close>) and completed with percentages
  (\<open>memory.go\<close>). Proved: a well-formed file is read back to its values in bytes, used and
  free add up to the total, and the percentages lie between 0 and 1.
\<close>

section \<open>Data\<close>

record UsedMemStats =
  used_Pct :: "f64 option"
  used_Bytes :: "u64 option"

record ActualMemoryMetrics =
  act_Free :: "u64 option"
  act_Used :: UsedMemStats

record SwapMetrics =
  swap_Total :: "u64 option"
  swap_Used :: UsedMemStats
  swap_Free :: "u64 option"

record Memory =
  mem_Total :: "u64 option"
  mem_Used :: UsedMemStats
  mem_Free :: "u64 option"
  mem_Cached :: "u64 option"
  mem_Actual :: ActualMemoryMetrics
  mem_Swap :: SwapMetrics

definition zeroUsed :: UsedMemStats where
  "zeroUsed = \<lparr>used_Pct = None, used_Bytes = None\<rparr>"

definition zeroMemory :: Memory where
  "zeroMemory = \<lparr>mem_Total = None, mem_Used = zeroUsed, mem_Free = None, mem_Cached = None,
     mem_Actual = \<lparr>act_Free = None, act_Used = zeroUsed\<rparr>,
     mem_Swap = \<lparr>swap_Total = None, swap_Used = zeroUsed, swap_Free = None\<rparr>\<rparr>"

definition Used_IsZero :: "UsedMemStats \<Rightarrow> bool" where
  "Used_IsZero u \<longleftrightarrow> used_Pct u = None \<and> used_Bytes u = None"

definition Swap_IsZero :: "SwapMetrics \<Rightarrow> bool" where
  "Swap_IsZero s \<longleftrightarrow> swap_Free s = None \<and> Used_IsZero (swap_Used s) \<and> swap_Total s = None"

section \<open>Reading the file\<close>

text \<open>
  \<open>bufio.Reader.ReadLine\<close> with its buffer of 4096 bytes, until end of file: a longer line
  comes in pieces, a carriage return before the newline is dropped, one at the end of a
  full buffer is left for the next piece.
\<close>

definition reader_size :: nat where
  "reader_size = 4096"

function read_pieces :: "string \<Rightarrow> string list" where
  "read_pieces s =
     (if s = [] then []
      else case index_of newline (take reader_size s) of
        Some i \<Rightarrow> drop_cr (take i s) # read_pieces (drop (Suc i) s)
      | None \<Rightarrow>
          if length s < reader_size then [s]
          else if s ! (reader_size - 1) = CHR 0x0D
            then take (reader_size - 1) s # read_pieces (drop (reader_size - 1) s)
            else take reader_size s # read_pieces (drop reader_size s))"
  by pat_completeness auto
termination
  by (relation "measure length") (auto simp: reader_size_def)

declare read_pieces.simps [simp del]

text \<open>The closure given to \<open>readFile\<close>; it always returns true, so every piece is handled.\<close>

definition meminfo_line :: "string \<Rightarrow> (string \<rightharpoonup> u64) \<Rightarrow> (string \<rightharpoonup> u64) outcome" where
  "meminfo_line line table =
     (let fs = split_on (CHR '':'') line in
      if length fs \<noteq> 2 then Ok table
      else
        (let valueUnit = Fields (fs ! 1) in
         and_then (at_index valueUnit 0) (\<lambda>v0.
           case parse_uint v0 of
             Ok value \<Rightarrow>
               (let value = (if length valueUnit > 1 \<and> valueUnit ! 1 = ''kB'' then value * 1024 else value)
                in Ok (table(fs ! 0 \<mapsto> value)))
           | _ \<Rightarrow> Ok table)))"

fun readFile_loop :: "(string \<Rightarrow> 'a \<Rightarrow> 'a outcome) \<Rightarrow> string list \<Rightarrow> 'a \<Rightarrow> 'a outcome" where
  "readFile_loop handler [] s = Ok s"
| "readFile_loop handler (l # ls) s = and_then (handler l s) (readFile_loop handler ls)"

definition readFile :: "os_env \<Rightarrow> string \<Rightarrow> (string \<Rightarrow> 'a \<Rightarrow> 'a outcome) \<Rightarrow> 'a \<Rightarrow> 'a outcome" where
  "readFile w file handler s =
     and_then (wrap_err ''error reading file'' (os_ReadFile w file))
       (\<lambda>contents. readFile_loop handler (read_pieces contents) s)"

definition ParseMeminfo :: "os_env \<Rightarrow> resolver \<Rightarrow> (string \<rightharpoonup> u64) outcome" where
  "ParseMeminfo w rootfs = readFile w (ResolveHostFS rootfs ''/proc/meminfo'') meminfo_line Map.empty"

section \<open>From the table to the metrics\<close>

definition memory_of_table :: "(string \<rightharpoonup> u64) \<Rightarrow> Memory" where
  "memory_of_table table =
     (let total = table ''MemTotal''; free = table ''MemFree''; cached = table ''Cached'';
          buffers = valueOr 0 (table ''Buffers'');
          actualFree = (case table ''MemAvailable'' of
                          Some memAvail \<Rightarrow> memAvail
                        | None \<Rightarrow> valueOr 0 free + buffers + valueOr 0 cached);
          swapTotal = table ''SwapTotal''; swapFree = table ''SwapFree''
      in \<lparr>mem_Total = total,
          mem_Used = \<lparr>used_Pct = None, used_Bytes = Some (valueOr 0 total - valueOr 0 free)\<rparr>,
          mem_Free = free, mem_Cached = cached,
          mem_Actual = \<lparr>act_Free = Some actualFree,
             act_Used = \<lparr>used_Pct = None, used_Bytes = Some (valueOr 0 total - actualFree)\<rparr>\<rparr>,
          mem_Swap = \<lparr>swap_Total = swapTotal,
             swap_Used = \<lparr>used_Pct = None,
                used_Bytes = (case (swapTotal, swapFree) of
                   (Some t, Some f) \<Rightarrow> Some (t - f) | _ \<Rightarrow> None)\<rparr>,
             swap_Free = swapFree\<rparr>\<rparr>)"

definition memory_get :: "os_env \<Rightarrow> resolver \<Rightarrow> Memory outcome" where
  "memory_get w rootfs =
     and_then (wrap_err ''error fetching meminfo'' (ParseMeminfo w rootfs)) (\<lambda>table. Ok (memory_of_table table))"

definition fillPercentages :: "Memory \<Rightarrow> Memory" where
  "fillPercentages base =
     (let base =
        (if mem_Total base \<noteq> None \<and> valueOr 0 (mem_Total base) \<noteq> 0 then
           (let percUsed = f64_div (f64_of_u64 (valueOr 0 (used_Bytes (mem_Used base))))
                             (f64_of_u64 (valueOr 1 (mem_Total base)));
                actualPercUsed = f64_div (f64_of_u64 (valueOr 0 (used_Bytes (act_Used (mem_Actual base)))))
                             (f64_of_u64 (valueOr 0 (mem_Total base)))
            in base\<lparr>mem_Used := (mem_Used base)\<lparr>used_Pct := Some (Round percUsed)\<rparr>,
                    mem_Actual := (mem_Actual base)\<lparr>act_Used :=
                      (act_Used (mem_Actual base))\<lparr>used_Pct := Some (Round actualPercUsed)\<rparr>\<rparr>\<rparr>)
         else base)
      in if valueOr 0 (swap_Total (mem_Swap base)) \<noteq> 0 \<and> used_Bytes (swap_Used (mem_Swap base)) \<noteq> None then
           (let perc = f64_div (f64_of_u64 (valueOr 0 (used_Bytes (swap_Used (mem_Swap base)))))
                         (f64_of_u64 (valueOr 0 (swap_Total (mem_Swap base))))
            in base\<lparr>mem_Swap := (mem_Swap base)\<lparr>swap_Used :=
                 (swap_Used (mem_Swap base))\<lparr>used_Pct := Some (Round perc)\<rparr>\<rparr>\<rparr>)
         else base)"

definition Memory_Get :: "os_env \<Rightarrow> resolver \<Rightarrow> Memory outcome" where
  "Memory_Get w procfs =
     and_then (wrap_err ''error getting system memory info'' (memory_get w procfs)) (\<lambda>base. Ok (fillPercentages base))"

section \<open>Files the kernel writes\<close>

text \<open>A line \<open>MemTotal: 16303428 kB\<close>, or \<open>HugePages_Total: 0\<close> without a unit.\<close>

record mem_item =
  mi_key :: string
  mi_value :: nat
  mi_kB :: bool

definition mem_item_ok :: "mem_item \<Rightarrow> bool" where
  "mem_item_ok i \<longleftrightarrow> plain (mi_key i) \<and> CHR '':'' \<notin> set (mi_key i) \<and> length (mi_key i) < 1000 \<and>
     mi_value i < 2 ^ 54"

definition show_mem_item :: "mem_item \<Rightarrow> string" where
  "show_mem_item i = mi_key i @ CHR '':'' # CHR '' '' #
     join (CHR '' '') (show_nat (mi_value i) # (if mi_kB i then [''kB''] else []))"

definition mem_item_bytes :: "mem_item \<Rightarrow> u64" where
  "mem_item_bytes i = of_nat (if mi_kB i then 1024 * mi_value i else mi_value i)"

definition show_meminfo :: "mem_item list \<Rightarrow> string" where
  "show_meminfo items = unlines (map show_mem_item items)"

lemma index_of_take: "c \<notin> set a \<Longrightarrow> length a < n \<Longrightarrow> index_of c (take n (a @ c # b)) = Some (length a)"
  by (simp add: index_of_append take_Cons')

lemma read_pieces_line:
  assumes "is_line l" "length l < reader_size"
  shows "read_pieces (l @ newline # s) = l # read_pieces s"
proof -
  have "index_of newline (take reader_size (l @ newline # s)) = Some (length l)"
    using assms by (intro index_of_take) (simp_all add: is_line_def)
  moreover have "drop_cr l = l" using assms by (auto simp: is_line_def drop_cr_def)
  ultimately show ?thesis by (subst read_pieces.simps) simp
qed

lemma read_pieces_unlines:
  "list_all (\<lambda>l. is_line l \<and> length l < reader_size) ls \<Longrightarrow> read_pieces (unlines ls) = ls"
proof (induction ls)
  case Nil
  then show ?case by (simp add: unlines_def read_pieces.simps[of "[]"])
next
  case (Cons l ls)
  then show ?case using read_pieces_line[of l "unlines ls"] by (simp add: unlines_def)
qed

lemma plain_kB [simp]: "plain ''kB''"
  by (simp add: plain_def plain_char_def code_def)

lemma mem_item_values:
  "Fields (CHR '' '' # join (CHR '' '') (show_nat v # us)) = show_nat v # us" if "list_all plain us"
  using that fields_join[of "show_nat v # us" "CHR '' ''"] by (simp add: fields_ws show_nat_plain)

lemma no_colon_join:
  "(\<And>x. x \<in> set xs \<Longrightarrow> c \<notin> set x) \<Longrightarrow> c \<noteq> sep \<Longrightarrow> c \<notin> set (join sep xs)"
proof (induction xs)
  case (Cons x xs)
  then show ?case by (cases "xs = []") (auto simp: join_Cons)
qed simp

lemma show_nat_no_colon: "CHR '':'' \<notin> set (show_nat n)"
  using show_nat_digits[of n] by (auto simp: list_all_iff is_digit_def code_def)

lemma meminfo_line_item:
  assumes "mem_item_ok i"
  shows "meminfo_line (show_mem_item i) t = Ok (t(mi_key i \<mapsto> mem_item_bytes i))"
proof -
  let ?us = "if mi_kB i then [''kB''] else []"
  let ?v = "CHR '' '' # join (CHR '' '') (show_nat (mi_value i) # ?us)"
  have us: "list_all plain ?us" by simp
  have "CHR '':'' \<notin> set (join (CHR '' '') (show_nat (mi_value i) # ?us))"
    by (rule no_colon_join) (auto simp: show_nat_no_colon split: if_splits)
  then have "split_on (CHR '':'') ?v = [?v]" by (intro split_on_token) simp
  then have sp: "split_on (CHR '':'') (show_mem_item i) = [mi_key i, ?v]"
    using assms split_on_append[of "CHR '':''" "mi_key i" ?v]
    by (simp add: mem_item_ok_def show_mem_item_def del: split_on.simps)
  have p: "parse_uint (show_nat (mi_value i)) = Ok (of_nat (mi_value i))"
    using assms by (intro parse_uint_show) (simp add: mem_item_ok_def)
  show ?thesis
    unfolding meminfo_line_def Let_def sp
    by (simp add: mem_item_values[OF us] p mem_item_bytes_def mult.commute)
qed

lemma show_mem_item_line:
  assumes "mem_item_ok i" shows "is_line (show_mem_item i) \<and> length (show_mem_item i) < reader_size"
proof -
  have "length (show_nat (mi_value i)) \<le> 20"
    using assms by (intro length_show_nat) (auto simp: mem_item_ok_def)
  then have len: "length (show_mem_item i) < reader_size"
    using assms by (auto simp: show_mem_item_def mem_item_ok_def reader_size_def)
  have "list_all text_char (show_mem_item i)"
    using assms show_nat_plain[of "mi_value i"]
    by (auto simp: show_mem_item_def mem_item_ok_def plain_def list_all_iff text_char_def[of "CHR '':''"]
        text_char_def[of "CHR ''k''"] text_char_def[of "CHR ''B''"] plain_char_def[of "CHR '':''"]
        plain_char_def[of "CHR ''k''"] plain_char_def[of "CHR ''B''"] code_def)
  then have "is_line (show_mem_item i)" using len by (intro is_line_text) (simp_all add: reader_size_def max_scan_token_def)
  with len show ?thesis by blast
qed

definition table_of :: "mem_item list \<Rightarrow> (string \<rightharpoonup> u64)" where
  "table_of items = foldl (\<lambda>t i. t(mi_key i \<mapsto> mem_item_bytes i)) Map.empty items"

lemma readFile_loop_items:
  "list_all mem_item_ok items \<Longrightarrow>
     readFile_loop meminfo_line (map show_mem_item items) t =
       Ok (foldl (\<lambda>t i. t(mi_key i \<mapsto> mem_item_bytes i)) t items)"
  by (induction items arbitrary: t) (simp_all add: meminfo_line_item)

lemma ParseMeminfo_show:
  assumes "list_all mem_item_ok items"
    and "file_of w (ResolveHostFS r ''/proc/meminfo'') = Inr (show_meminfo items)"
  shows "ParseMeminfo w r = Ok (table_of items)"
proof -
  have "read_pieces (show_meminfo items) = map show_mem_item items"
    unfolding show_meminfo_def using assms(1) show_mem_item_line
    by (intro read_pieces_unlines) (auto simp: list_all_iff)
  then show ?thesis
    using assms by (simp add: ParseMeminfo_def readFile_def os_ReadFile_def readFile_loop_items table_of_def)
qed

lemma table_of_distinct:
  "distinct (map mi_key items) \<Longrightarrow> table_of items = map_of (map (\<lambda>i. (mi_key i, mem_item_bytes i)) items)"
proof -
  have "foldl (\<lambda>t i. t(mi_key i \<mapsto> mem_item_bytes i)) t items =
      t ++ map_of (map (\<lambda>i. (mi_key i, mem_item_bytes i)) items)" if "distinct (map mi_key items)" for t
    using that
  proof (induction items arbitrary: t)
    case (Cons i items)
    then have "mi_key i \<notin> dom (map_of (map (\<lambda>i. (mi_key i, mem_item_bytes i)) items))"
      by (auto simp: dom_map_of_conv_image_fst)
    then show ?case using Cons by (auto simp: map_add_def fun_eq_iff dom_def split: option.splits)
  qed simp
  then show "distinct (map mi_key items) \<Longrightarrow> ?thesis" by (simp add: table_of_def)
qed

section \<open>Accounting\<close>

text \<open>What the kernel guarantees of the numbers it reports.\<close>

definition meminfo_sane :: "(string \<rightharpoonup> u64) \<Rightarrow> bool" where
  "meminfo_sane table \<longleftrightarrow>
     (let t = unat (valueOr 0 (table ''MemTotal'')); f = unat (valueOr 0 (table ''MemFree'')) in
      0 < t \<and> f \<le> t \<and>
      (case table ''MemAvailable'' of
         Some a \<Rightarrow> unat a \<le> t
       | None \<Rightarrow> f + unat (valueOr 0 (table ''Buffers'')) + unat (valueOr 0 (table ''Cached'')) \<le> t) \<and>
      (case (table ''SwapTotal'', table ''SwapFree'') of
         (Some st, Some sf) \<Rightarrow> unat sf \<le> unat st | _ \<Rightarrow> True))"

definition pct_ok :: "f64 option \<Rightarrow> bool" where
  "pct_ok x \<longleftrightarrow> (case x of None \<Rightarrow> True | Some p \<Rightarrow> f64_in 1 p)"

definition memory_accounted :: "Memory \<Rightarrow> bool" where
  "memory_accounted m \<longleftrightarrow>
     (let t = unat (valueOr 0 (mem_Total m)) in
      unat (valueOr 0 (used_Bytes (mem_Used m))) + unat (valueOr 0 (mem_Free m)) = t \<and>
      unat (valueOr 0 (used_Bytes (act_Used (mem_Actual m)))) + unat (valueOr 0 (act_Free (mem_Actual m))) = t \<and>
      (case (swap_Total (mem_Swap m), swap_Free (mem_Swap m)) of
         (Some st, Some sf) \<Rightarrow> unat (valueOr 0 (used_Bytes (swap_Used (mem_Swap m)))) + unat sf = unat st
       | _ \<Rightarrow> used_Bytes (swap_Used (mem_Swap m)) = None))"

lemma Round_ratio:
  assumes "unat x \<le> unat y" "y \<noteq> 0"
  shows "f64_in 1 (Round (f64_div (f64_of_u64 x) (f64_of_u64 y)))"
proof -
  have "0 < unat y" using assms(2) by (simp add: unat_gt_0)
  then have "f64_in 1 (f64_div (f64_of_int (int (unat x))) (f64_of_int (int (unat y))))"
    using assms(1) unat_u64_bound by (intro f64_nat_ratio) auto
  then have "f64_in (of_nat 1) (f64_div (f64_of_u64 x) (f64_of_u64 y))"
    by (simp only: f64_of_u64_def uint_nat of_nat_1)
  then show ?thesis using Round_in[of 1] by simp
qed

lemma fill_keeps:
  "mem_Total (fillPercentages m) = mem_Total m" "mem_Free (fillPercentages m) = mem_Free m"
  "used_Bytes (mem_Used (fillPercentages m)) = used_Bytes (mem_Used m)"
  "act_Free (mem_Actual (fillPercentages m)) = act_Free (mem_Actual m)"
  "used_Bytes (act_Used (mem_Actual (fillPercentages m))) = used_Bytes (act_Used (mem_Actual m))"
  "swap_Total (mem_Swap (fillPercentages m)) = swap_Total (mem_Swap m)"
  "swap_Free (mem_Swap (fillPercentages m)) = swap_Free (mem_Swap m)"
  "used_Bytes (swap_Used (mem_Swap (fillPercentages m))) = used_Bytes (swap_Used (mem_Swap m))"
  by (simp_all add: fillPercentages_def Let_def)

lemma fill_pcts:
  assumes "mem_Total m = Some t" "t \<noteq> 0"
  shows "used_Pct (mem_Used (fillPercentages m)) =
      Some (Round (f64_div (f64_of_u64 (valueOr 0 (used_Bytes (mem_Used m)))) (f64_of_u64 t)))"
    and "used_Pct (act_Used (mem_Actual (fillPercentages m))) =
      Some (Round (f64_div (f64_of_u64 (valueOr 0 (used_Bytes (act_Used (mem_Actual m))))) (f64_of_u64 t)))"
  using assms by (simp_all add: fillPercentages_def Let_def)

lemma fill_swap_pct:
  "used_Pct (swap_Used (mem_Swap (fillPercentages m))) =
     (if valueOr 0 (swap_Total (mem_Swap m)) \<noteq> 0 \<and> used_Bytes (swap_Used (mem_Swap m)) \<noteq> None
      then Some (Round (f64_div (f64_of_u64 (valueOr 0 (used_Bytes (swap_Used (mem_Swap m)))))
                         (f64_of_u64 (valueOr 0 (swap_Total (mem_Swap m))))))
      else used_Pct (swap_Used (mem_Swap m)))"
  by (auto simp: fillPercentages_def Let_def)

lemma actual_free_bound:
  assumes "meminfo_sane table"
  shows "unat (valueOr 0 (act_Free (mem_Actual (memory_of_table table)))) \<le> unat (valueOr 0 (table ''MemTotal''))"
  using assms unat_u64_bound[of "valueOr 0 (table ''MemTotal'')"]
  by (auto simp: meminfo_sane_def memory_of_table_def Let_def unat_add_u64 split: option.splits)

lemma memory_accounted_table:
  "meminfo_sane table \<Longrightarrow> memory_accounted (memory_of_table table)"
  using actual_free_bound[of table]
  by (auto simp: meminfo_sane_def memory_accounted_def memory_of_table_def Let_def unat_sub_u64 split: option.splits)

lemma memory_accounted_fill [simp]: "memory_accounted (fillPercentages m) = memory_accounted m"
  by (simp add: memory_accounted_def fill_keeps cong: option.case_cong)

lemma memory_pcts:
  assumes "meminfo_sane table"
  defines "m \<equiv> fillPercentages (memory_of_table table)"
  shows "pct_ok (used_Pct (mem_Used m))" "pct_ok (used_Pct (act_Used (mem_Actual m)))"
    "pct_ok (used_Pct (swap_Used (mem_Swap m)))"
proof -
  let ?m = "memory_of_table table"
  have acc: "memory_accounted ?m" by (rule memory_accounted_table[OF assms(1)])
  obtain t where t: "mem_Total ?m = Some t" "t \<noteq> 0"
    using assms(1) by (cases "table ''MemTotal''") (auto simp: meminfo_sane_def memory_of_table_def Let_def unat_gt_0)
  show "pct_ok (used_Pct (mem_Used m))" "pct_ok (used_Pct (act_Used (mem_Actual m)))"
    using acc t unfolding m_def by (auto simp: fill_pcts[OF t] pct_ok_def memory_accounted_def Let_def intro!: Round_ratio)
  show "pct_ok (used_Pct (swap_Used (mem_Swap m)))"
    using acc unfolding m_def fill_swap_pct
    by (auto simp: pct_ok_def memory_accounted_def Let_def memory_of_table_def intro!: Round_ratio split: option.splits)
qed


definition demo_meminfo :: "mem_item list" where
  "demo_meminfo =
     [\<lparr>mi_key = ''MemTotal'', mi_value = 16000, mi_kB = True\<rparr>,
      \<lparr>mi_key = ''MemFree'', mi_value = 4000, mi_kB = True\<rparr>,
      \<lparr>mi_key = ''MemAvailable'', mi_value = 9000, mi_kB = True\<rparr>,
      \<lparr>mi_key = ''SwapTotal'', mi_value = 800, mi_kB = True\<rparr>,
      \<lparr>mi_key = ''SwapFree'', mi_value = 200, mi_kB = True\<rparr>]"


end
