(* ===== verification/Memory_Other.thy ===== *)
theory Memory_Other
  imports Memory "HOL-Library.Signed_Division"
begin

unbundle bit_operations_syntax

text \<open>
  \<open>get\<close> of \<open>metric/memory\<close> on OpenBSD, macOS, FreeBSD, AIX and Windows. The system calls
  and the constants of the C headers are arguments. What the five promise the shared
  \<open>Get\<close> is the locale \<open>memory_reader\<close>; from it follow that used and free memory add up to
  the total and that the percentages lie between 0 and 1.
\<close>

section \<open>OpenBSD\<close>

text \<open>The fields of the kernel's structures that are read.\<close>

record Uvmexp =
  uv_pageshift :: u32
  uv_npages :: u32
  uv_free :: u32

record Swapent =
  se_flags :: "32 word"
  se_nblks :: int
  se_inuse :: int

text \<open>
  A \<open>sysctl\<close> without a buffer answers with its error number and the size; with one, also
  with the data. \<open>ob_swapctl_stats\<close> gets the number of entries of the buffer.
\<close>

record openbsd_env =
  ob_size :: "int list \<Rightarrow> nat \<times> nat"
  ob_uvmexp :: "nat \<times> nat \<times> Uvmexp"
  ob_numbufpages :: "nat \<times> nat \<times> u64"
  ob_swapctl_nswap :: int
  ob_swapctl_stats :: "nat \<Rightarrow> int \<times> Swapent list"
  ob_VM_UVMEXP :: "int list"
  ob_VFS_BCACHESTAT :: "int list"
  ob_SWF_ENABLE :: "32 word"
  ob_DEV_BSIZE :: int

text \<open>Swap space in units of 1024 bytes, whatever the field is called.\<close>

definition add_swap :: "openbsd_env \<Rightarrow> Swapent \<Rightarrow> SwapMetrics \<Rightarrow> SwapMetrics" where
  "add_swap o' dev swapData =
     (if se_flags dev AND ob_SWF_ENABLE o' = 2 then
        swapData\<lparr>
          swap_Used := (swap_Used swapData)\<lparr>used_Bytes :=
            Some (valueOr 0 (used_Bytes (swap_Used swapData)) + word_of_int (se_inuse dev sdiv (1024 sdiv ob_DEV_BSIZE o')))\<rparr>,
          swap_Total := Some (valueOr 0 (swap_Total swapData) + word_of_int (se_nblks dev sdiv (1024 sdiv ob_DEV_BSIZE o')))\<rparr>
      else swapData)"

definition zeroSwap :: SwapMetrics where
  "zeroSwap = \<lparr>swap_Total = None, swap_Used = zeroUsed, swap_Free = None\<rparr>"

definition getSwap_openbsd :: "openbsd_env \<Rightarrow> SwapMetrics outcome" where
  "getSwap_openbsd o' =
     (let nswap = ob_swapctl_nswap o' in
      if nswap = 0 then Ok zeroSwap
      else if nswap < 0 then Panic
      else
        case ob_swapctl_stats o' (nat nswap) of (rnswap, swdev) \<Rightarrow>
          if rnswap = 0 then Err (Message ''error in SWAP_STATS sysctl'')
          else
            let swapData = foldl (\<lambda>s dev. add_swap o' dev s) zeroSwap (take (nat nswap) swdev) in
            Ok (swapData\<lparr>swap_Free := Some (valueOr 0 (swap_Total swapData) - valueOr 0 (used_Bytes (swap_Used swapData)))\<rparr>))"

definition sysctl_size :: "openbsd_env \<Rightarrow> int list \<Rightarrow> string \<Rightarrow> unit outcome" where
  "sysctl_size o' mib msg = (case ob_size o' mib of (errno, n) \<Rightarrow> if errno \<noteq> 0 \<or> n = 0 then Err (Message msg) else Ok ())"

definition sysctl_data :: "nat \<times> nat \<times> 'a \<Rightarrow> string \<Rightarrow> 'a outcome" where
  "sysctl_data r msg = (case r of (errno, n, x) \<Rightarrow> if errno \<noteq> 0 \<or> n = 0 then Err (Message msg) else Ok x)"

text \<open>The difference of the page counts is taken in 32 bits.\<close>

definition memory_get_openbsd :: "openbsd_env \<Rightarrow> Memory outcome" where
  "memory_get_openbsd o' =
     and_then (sysctl_size o' (ob_VM_UVMEXP o') ''Error in size VM_UVMEXP sysctl call'') (\<lambda>_.
     and_then (sysctl_data (ob_uvmexp o') ''Error in VM_UVMEXP sysctl call'') (\<lambda>uvmexp.
     and_then (sysctl_size o' (ob_VFS_BCACHESTAT o') ''Error in size VFS_BCACHESTAT sysctl call'') (\<lambda>_.
     and_then (sysctl_data (ob_numbufpages o') ''Error in VFS_BCACHESTAT sysctl call'') (\<lambda>numbufpages.
       let shift = (\<lambda>x. push_bit (unat (uv_pageshift uvmexp)) x);
           memFree = shift (ucast (uv_free uvmexp));
           memUsed = shift (ucast (uv_npages uvmexp - uv_free uvmexp));
           memData = zeroMemory
             \<lparr>mem_Total := Some (shift (ucast (uv_npages uvmexp))),
              mem_Used := zeroUsed\<lparr>used_Bytes := Some memUsed\<rparr>,
              mem_Free := Some memFree,
              mem_Actual := \<lparr>act_Free = Some (memFree + shift numbufpages),
                act_Used = zeroUsed\<lparr>used_Bytes := Some (memUsed - shift numbufpages)\<rparr>\<rparr>\<rparr> in
       and_then (wrap_err ''error getting swap data'' (getSwap_openbsd o')) (\<lambda>swap. Ok (memData\<lparr>mem_Swap := swap\<rparr>))))))"

definition openbsd_sane :: "openbsd_env \<Rightarrow> bool" where
  "openbsd_sane o' \<longleftrightarrow> uv_free (snd (snd (ob_uvmexp o'))) \<le> uv_npages (snd (snd (ob_uvmexp o')))"

section \<open>macOS\<close>

record vm_statistics =
  vm_free_count :: u32
  vm_inactive_count :: u32

text \<open>
  \<open>mac_Sysctl\<close> is \<open>syscall.Sysctl\<close>, which drops a final nul; \<open>mac_beyond\<close> is the memory
  behind its result, which the unsafe conversion to an \<open>uint64\<close> may read.
\<close>

record mac_env =
  mac_Sysctl :: "string \<Rightarrow> string outcome"
  mac_beyond :: string
  mac_host_statistics :: "int \<times> vm_statistics"
  mac_KERN_SUCCESS :: int

definition le_u64 :: "string \<Rightarrow> u64" where
  "le_u64 bs = of_nat (foldr (\<lambda>c n. code c + 256 * n) bs 0)"

text \<open>The two cases of \<open>sysctlbyname\<close>: an \<open>uint64\<close>, and a structure of three of them.\<close>

definition sysctlbyname_u64 :: "mac_env \<Rightarrow> string \<Rightarrow> u64 outcome" where
  "sysctlbyname_u64 m name =
     and_then (mac_Sysctl m name) (\<lambda>buf. if buf = [] then Panic else Ok (le_u64 (take 8 (buf @ mac_beyond m))))"

definition sysctlbyname_xsw :: "mac_env \<Rightarrow> string \<Rightarrow> (u64 \<times> u64 \<times> u64) outcome" where
  "sysctlbyname_xsw m name =
     and_then (mac_Sysctl m name) (\<lambda>buf.
       if buf = [] then Err EOF
       else if length buf < 24 then Err (Sentinel ''unexpected EOF'')
       else Ok (le_u64 (take 8 buf), le_u64 (take 8 (drop 8 buf)), le_u64 (take 8 (drop 16 buf))))"

definition vmInfo :: "mac_env \<Rightarrow> vm_statistics outcome" where
  "vmInfo m =
     (case mac_host_statistics m of (status, vmstat) \<Rightarrow>
        if status \<noteq> mac_KERN_SUCCESS m then Err (Message ''host_statistics'') else Ok vmstat)"

definition getSwap_darwin :: "mac_env \<Rightarrow> SwapMetrics outcome" where
  "getSwap_darwin m =
     and_then (wrap_err ''error getting swap usage'' (sysctlbyname_xsw m ''vm.swapusage'')) (\<lambda>(total, avail, used).
       Ok \<lparr>swap_Total = Some total, swap_Used = zeroUsed\<lparr>used_Bytes := Some used\<rparr>, swap_Free = Some avail\<rparr>)"

definition memory_get_darwin :: "mac_env \<Rightarrow> Memory outcome" where
  "memory_get_darwin m =
     and_then (wrap_err ''error getting memsize'' (sysctlbyname_u64 m ''hw.memsize'')) (\<lambda>total.
     and_then (case vmInfo m of Err _ \<Rightarrow> Err (Message ''error getting VM info'') | r \<Rightarrow> r) (\<lambda>vmstat.
       let kern = push_bit 12 (ucast (vm_inactive_count vmstat));
           free = push_bit 12 (ucast (vm_free_count vmstat));
           mem = zeroMemory
             \<lparr>mem_Total := Some total, mem_Free := Some free, mem_Used := zeroUsed\<lparr>used_Bytes := Some (total - free)\<rparr>,
              mem_Actual := \<lparr>act_Free = Some (free + kern), act_Used = zeroUsed\<lparr>used_Bytes := Some ((total - free) - kern)\<rparr>\<rparr>\<rparr> in
       and_then (wrap_err ''error getting swap memory'' (getSwap_darwin m)) (\<lambda>swap. Ok (mem\<lparr>mem_Swap := swap\<rparr>))))"

section \<open>FreeBSD, AIX and Windows\<close>

text \<open>\<open>sysctl\<close> is the C library's \<open>sysctlbyname\<close> of a 32-bit value; its error is replaced.\<close>

definition free_sysctl :: "(string \<Rightarrow> u32 outcome) \<Rightarrow> string \<Rightarrow> u64 outcome" where
  "free_sysctl sysctl name =
     (case sysctl (''vm.stats.vm.'' @ name) of
        Ok val \<Rightarrow> Ok (ucast val)
      | Err _ \<Rightarrow> Err (Message (''error in vm.stats.vm.'' @ name))
      | Panic \<Rightarrow> Panic)"

definition memory_get_freebsd :: "(string \<Rightarrow> u32 outcome) \<Rightarrow> Memory outcome" where
  "memory_get_freebsd sysctl =
     and_then (free_sysctl sysctl ''v_page_count'') (\<lambda>pagecount.
     and_then (free_sysctl sysctl ''v_page_size'') (\<lambda>pagesize.
     and_then (free_sysctl sysctl ''v_free_count'') (\<lambda>val.
       let memFree = val * pagesize in
     and_then (free_sysctl sysctl ''v_inactive_count'') (\<lambda>kern.
       let memTotal = pagecount * pagesize in
       Ok (zeroMemory
         \<lparr>mem_Free := Some memFree, mem_Total := Some memTotal,
          mem_Used := zeroUsed\<lparr>used_Bytes := Some (memTotal - memFree)\<rparr>,
          mem_Actual := \<lparr>act_Free = Some (memFree + kern * pagesize),
            act_Used = zeroUsed\<lparr>used_Bytes := Some ((memTotal - memFree) - kern * pagesize)\<rparr>\<rparr>\<rparr>)))))"

record perfstat_memory =
  real_total :: u64
  real_free :: u64
  numperm :: u64

definition memory_get_aix :: "u64 \<Rightarrow> perfstat_memory outcome \<Rightarrow> Memory outcome" where
  "memory_get_aix pagesize perfstat_memory_total =
     (case perfstat_memory_total of
        Err _ \<Rightarrow> Err (Message ''perfstat_memory_total'')
      | Panic \<Rightarrow> Panic
      | Ok meminfo \<Rightarrow>
          let totalMem = real_total meminfo * pagesize;
              freeMem = real_free meminfo * pagesize;
              kern = numperm meminfo * pagesize;
              used = zeroUsed\<lparr>used_Bytes := Some (totalMem - freeMem)\<rparr> in
          Ok (zeroMemory
            \<lparr>mem_Total := Some totalMem, mem_Free := Some freeMem, mem_Used := used,
             mem_Actual := \<lparr>act_Free = Some (freeMem + kern),
               act_Used = zeroUsed\<lparr>used_Bytes := Some (valueOr 0 (used_Bytes used) - kern)\<rparr>\<rparr>\<rparr>))"

record memory_status =
  TotalPhys :: u64
  AvailPhys :: u64
  TotalPageFile :: u64
  AvailPageFile :: u64

definition memory_get_windows :: "memory_status outcome \<Rightarrow> Memory outcome" where
  "memory_get_windows GlobalMemoryStatusEx =
     and_then (wrap_err ''error fetching global memory status'' GlobalMemoryStatusEx) (\<lambda>s.
       let free = Some (AvailPhys s); used = zeroUsed\<lparr>used_Bytes := Some (TotalPhys s - AvailPhys s)\<rparr> in
       Ok (zeroMemory
         \<lparr>mem_Total := Some (TotalPhys s), mem_Free := free, mem_Used := used,
          mem_Actual := \<lparr>act_Free = free, act_Used = used\<rparr>,
          mem_Swap := \<lparr>swap_Total = Some (TotalPageFile s),
            swap_Used = zeroUsed\<lparr>used_Bytes := Some (TotalPageFile s - AvailPageFile s)\<rparr>, swap_Free = Some (AvailPageFile s)\<rparr>\<rparr>))"

section \<open>What the readers promise\<close>

text \<open>\<open>Get\<close> of \<open>memory.go\<close> over the \<open>get\<close> of the operating system.\<close>

definition Memory_Get_over :: "Memory outcome \<Rightarrow> Memory outcome" where
  "Memory_Get_over get =
     and_then (wrap_err ''error getting system memory info'' get) (\<lambda>base. Ok (fillPercentages base))"

text \<open>\<open>c\<close> is the memory that could be freed.\<close>

definition balanced :: "u64 \<Rightarrow> u64 \<Rightarrow> u64 \<Rightarrow> Memory \<Rightarrow> bool" where
  "balanced t f c m \<longleftrightarrow> mem_Total m = Some t \<and> mem_Free m = Some f \<and> used_Bytes (mem_Used m) = Some (t - f) \<and>
     act_Free (mem_Actual m) = Some (f + c) \<and> used_Bytes (act_Used (mem_Actual m)) = Some (t - f - c)"

locale memory_reader =
  fixes get :: "Memory outcome" and sane :: bool
  assumes reads: "get = Ok m \<Longrightarrow> sane \<Longrightarrow> \<exists>t f c. balanced t f c m"
begin

lemma accounted:
  assumes "Memory_Get_over get = Ok m" sane
  shows "\<exists>t f c. balanced t f c m \<and>
    (t \<noteq> 0 \<and> unat f + unat c \<le> unat t \<longrightarrow>
       unat (t - f) + unat f = unat t \<and> unat (t - f - c) + unat (f + c) = unat t \<and>
       pct_ok (used_Pct (mem_Used m)) \<and> pct_ok (used_Pct (act_Used (mem_Actual m))))"
proof -
  obtain base where b: "get = Ok base" "m = fillPercentages base"
    using assms(1) by (auto simp: Memory_Get_over_def go_outcome)
  obtain t f c where base: "balanced t f c base" using reads[OF b(1) assms(2)] by blast
  have m: "balanced t f c m" using base unfolding balanced_def b(2) fill_keeps .
  moreover have "unat (t - f) + unat f = unat t \<and> unat (t - f - c) + unat (f + c) = unat t \<and>
      pct_ok (used_Pct (mem_Used m)) \<and> pct_ok (used_Pct (act_Used (mem_Actual m)))"
    if t: "t \<noteq> 0" and le: "unat f + unat c \<le> unat t"
  proof -
    have s: "unat (f + c) = unat f + unat c" using le unat_u64_bound[of t] by (intro unat_add_u64) linarith
    have u: "unat (t - f) = unat t - unat f" using le by (intro unat_sub_u64) simp
    have v: "unat (t - f - c) = unat (t - f) - unat c" using le u by (intro unat_sub_u64) simp
    have T: "mem_Total base = Some t" using base by (simp add: balanced_def)
    have "pct_ok (used_Pct (mem_Used m))" "pct_ok (used_Pct (act_Used (mem_Actual m)))"
      unfolding b(2) fill_pcts[OF T t] using base u v le t
      by (auto simp: pct_ok_def balanced_def intro!: Round_ratio)
    then show ?thesis using s u v le by simp
  qed
  ultimately show ?thesis by blast
qed

end

lemma shifted_difference:
  assumes "f \<le> (n :: u32)"
  shows "(push_bit s (ucast (n - f)) :: u64) = push_bit s (ucast n) - push_bit s (ucast f)"
proof -
  have "uint (n - f) = uint n - uint f" using assms by (simp add: uint_sub_if_size word_le_def)
  then have "(of_int (uint (n - f)) :: u64) = of_int (uint n) - of_int (uint f)" by (simp only: of_int_diff)
  then have "(ucast (n - f) :: u64) = ucast n - ucast f" by (simp only: of_int_uint)
  then show ?thesis by (simp only: push_bit_eq_mult left_diff_distrib)
qed


interpretation openbsd: memory_reader "memory_get_openbsd o'" "openbsd_sane o'" for o'
proof
  fix m
  assume g: "memory_get_openbsd o' = Ok m" and s: "openbsd_sane o'"
  obtain uv where uv: "sysctl_data (ob_uvmexp o') ''Error in VM_UVMEXP sysctl call'' = Ok uv"
    using g by (auto simp: memory_get_openbsd_def go_outcome)
  then have le: "uv_free uv \<le> uv_npages uv"
    using s by (auto simp: openbsd_sane_def sysctl_data_def split: prod.splits if_splits)
  show "\<exists>t f c. balanced t f c m"
    using g uv shifted_difference[OF le]
    by (auto simp: memory_get_openbsd_def Let_def go_outcome balanced_def)
qed

interpretation darwin_memory: memory_reader "memory_get_darwin m" True for m
  by standard (auto simp: memory_get_darwin_def Let_def go_outcome balanced_def)

interpretation freebsd: memory_reader "memory_get_freebsd sysctl" True for sysctl
  by standard (auto simp: memory_get_freebsd_def Let_def go_outcome balanced_def)

interpretation aix_memory: memory_reader "memory_get_aix pagesize perfstat" True for pagesize perfstat
  by standard (auto simp: memory_get_aix_def Let_def balanced_def split: outcome.splits)

interpretation windows_memory: memory_reader "memory_get_windows status" True for status
proof
  fix m
  assume g: "memory_get_windows status = Ok m"
  then obtain s where "status = Ok s" by (auto simp: memory_get_windows_def go_outcome)
  then have "balanced (TotalPhys s) (AvailPhys s) 0 m" using g by (auto simp: memory_get_windows_def Let_def balanced_def)
  then show "\<exists>t f c. balanced t f c m" by blast
qed

text \<open>
  C23. On every other system too, what \<open>Get\<close> reports as used and free, and as actually used
  and free, adds up to the total (on OpenBSD when the kernel reports no more free pages
  than there are); with consistent numbers no sum wraps and the percentages lie between 0
  and 1.
\<close>

theorem other_memory_accounted:
  assumes "Memory_Get_over get = Ok m"
    and "get = memory_get_openbsd o' \<and> openbsd_sane o' \<or> get = memory_get_darwin mac \<or> get = memory_get_freebsd sysctl \<or>
      get = memory_get_aix pagesize perfstat \<or> get = memory_get_windows status"
  shows "\<exists>t f c. balanced t f c m \<and>
    (t \<noteq> 0 \<and> unat f + unat c \<le> unat t \<longrightarrow>
       unat (t - f) + unat f = unat t \<and> unat (t - f - c) + unat (f + c) = unat t \<and>
       pct_ok (used_Pct (mem_Used m)) \<and> pct_ok (used_Pct (act_Used (mem_Actual m))))"
  using assms(2)
proof (elim disjE conjE)
  assume "get = memory_get_openbsd o'" "openbsd_sane o'"
  then show ?thesis using assms(1) openbsd.accounted[of o' m] by simp
next
  assume "get = memory_get_darwin mac"
  then show ?thesis using assms(1) darwin_memory.accounted[of mac m] by simp
next
  assume "get = memory_get_freebsd sysctl"
  then show ?thesis using assms(1) freebsd.accounted[of sysctl m] by simp
next
  assume "get = memory_get_aix pagesize perfstat"
  then show ?thesis using assms(1) aix_memory.accounted[of pagesize perfstat m] by simp
next
  assume "get = memory_get_windows status"
  then show ?thesis using assms(1) windows_memory.accounted[of status m] by simp
qed

theorem other_memory_accounted_witness:
  "\<exists>m. Memory_Get_over (memory_get_aix 4096 (Ok \<lparr>real_total = 100, real_free = 40, numperm = 10\<rparr>)) = Ok m \<and>
     pct_ok (used_Pct (mem_Used m))"
proof -
  let ?get = "memory_get_aix 4096 (Ok \<lparr>real_total = 100, real_free = 40, numperm = 10\<rparr>)"
  obtain m where m: "Memory_Get_over ?get = Ok m" "mem_Total m = Some 409600" "mem_Free m = Some 163840"
      "act_Free (mem_Actual m) = Some 204800"
    by (simp add: Memory_Get_over_def memory_get_aix_def Let_def fill_keeps)
  obtain t f c where b: "balanced t f c m" "t \<noteq> 0 \<and> unat f + unat c \<le> unat t \<longrightarrow> pct_ok (used_Pct (mem_Used m))"
    using other_memory_accounted[OF m(1) disjI2[OF disjI2[OF disjI2[OF disjI1[OF refl]]]]] by blast
  have "t = 409600" "f = 163840" and c: "f + c = 204800" using b(1) m(2-4) by (auto simp: balanced_def)
  have "c = 204800 - f" unfolding c[symmetric] by simp
  then have "c = 40960" using \<open>f = 163840\<close> by simp
  then have "pct_ok (used_Pct (mem_Used m))" using b(2) \<open>t = 409600\<close> \<open>f = 163840\<close> by simp
  then show ?thesis using m(1) by blast
qed

end
