(* ===== verification/Diskio.thy ===== *)
theory Diskio
  imports Metric_Math Sampling
begin

text \<open>
  \<open>metric/system/diskio\<close>, the Linux implementation: the rates \<open>CalcIOStatistics\<close> derives
  from two readings of a device's counters and from the CPU time between two samplings.
  The counters come from gopsutil and the CPU sample from gosigar, outside the
  repository: a sample is a value of type \<open>'c\<close> with its \<open>Total\<close> as an argument. Proved:
  what the rollover correction computes, the bound of the busy percentage, and which
  counters are kept for each device.
\<close>

section \<open>State\<close>

record IOMetric =
  ReadRequestMergeCountPerSec :: f64
  WriteRequestMergeCountPerSec :: f64
  ReadRequestCountPerSec :: f64
  WriteRequestCountPerSec :: f64
  ReadBytesPerSec :: f64
  WriteBytesPerSec :: f64
  AvgRequestSize :: f64
  AvgQueueSize :: f64
  AvgAwaitTime :: f64
  AvgReadAwaitTime :: f64
  AvgWriteAwaitTime :: f64
  AvgServiceTime :: f64
  BusyPct :: f64

text \<open>The fields of gopsutil's \<open>IOCountersStat\<close> that are used.\<close>

record IOCountersStat =
  io_ReadCount :: u64
  io_MergedReadCount :: u64
  io_WriteCount :: u64
  io_MergedWriteCount :: u64
  io_ReadBytes :: u64
  io_WriteBytes :: u64
  io_ReadTime :: u64
  io_WriteTime :: u64
  io_IoTime :: u64
  io_WeightedIO :: u64
  io_Name :: string

record 'c IOStat =
  lastDiskIOCounters :: "string \<rightharpoonup> IOCountersStat"
  lastCPU :: 'c
  curCPU :: 'c

definition zeroIOMetric :: IOMetric where
  "zeroIOMetric = (let z = F64Fin False 0 in
     \<lparr>ReadRequestMergeCountPerSec = z, WriteRequestMergeCountPerSec = z, ReadRequestCountPerSec = z,
      WriteRequestCountPerSec = z, ReadBytesPerSec = z, WriteBytesPerSec = z, AvgRequestSize = z,
      AvgQueueSize = z, AvgAwaitTime = z, AvgReadAwaitTime = z, AvgWriteAwaitTime = z,
      AvgServiceTime = z, BusyPct = z\<rparr>)"

section \<open>Operations\<close>

definition GetCLKTCK :: u32 where
  "GetCLKTCK = 100"

definition IOCounters :: "(string list \<Rightarrow> (string \<rightharpoonup> IOCountersStat) outcome) \<Rightarrow> string list \<Rightarrow> (string \<rightharpoonup> IOCountersStat) outcome" where
  "IOCounters disk_IOCounters names = disk_IOCounters names"

definition NewDiskIOStat :: "'c \<Rightarrow> 'c IOStat" where
  "NewDiskIOStat zeroCpu = \<lparr>lastDiskIOCounters = Map.empty, lastCPU = zeroCpu, curCPU = zeroCpu\<rparr>"

text \<open>\<open>curCPU.Get()\<close> fills the sample or returns an error; the argument is what it leaves and returns.\<close>

definition OpenSampling :: "'c \<times> go_error option \<Rightarrow> 'c IOStat \<Rightarrow> go_error option \<times> 'c IOStat" where
  "OpenSampling got stat = (snd got, stat\<lparr>curCPU := fst got\<rparr>)"

definition CloseSampling :: "'c IOStat \<Rightarrow> 'c IOStat" where
  "CloseSampling stat = stat\<lparr>lastCPU := curCPU stat\<rparr>"

definition returnOrFix32BitRollover :: "u64 \<Rightarrow> u64 \<Rightarrow> u64" where
  "returnOrFix32BitRollover current prev =
     (let maxUint32 = 4294967295 in
      if prev \<le> current then current - prev
      else if prev > maxUint32 then 0
      else (let delta = maxUint32 - prev in delta + current))"

definition delta_ms :: "('c \<Rightarrow> u64) \<Rightarrow> int \<Rightarrow> 'c IOStat \<Rightarrow> f64" where
  "delta_ms cpuTotal numCPU stat =
     f64_div (f64_div (f64_mul (F64Fin False 1000) (f64_of_u64 (cpuTotal (curCPU stat) - cpuTotal (lastCPU stat))))
                (f64_of_int numCPU))
       (f64_of_int (uint GetCLKTCK))"

text \<open>The part of \<open>CalcIOStatistics\<close> that fills the result.\<close>

definition io_metric :: "IOCountersStat \<Rightarrow> IOCountersStat \<Rightarrow> f64 \<Rightarrow> IOMetric" where
  "io_metric counter prev deltams =
     (let rdIOs = io_ReadCount counter - io_ReadCount prev;
          rdMerges = io_MergedReadCount counter - io_MergedReadCount prev;
          rdBytes = io_ReadBytes counter - io_ReadBytes prev;
          rdTicks = returnOrFix32BitRollover (io_ReadTime counter) (io_ReadTime prev);
          wrIOs = io_WriteCount counter - io_WriteCount prev;
          wrMerges = io_MergedWriteCount counter - io_MergedWriteCount prev;
          wrBytes = io_WriteBytes counter - io_WriteBytes prev;
          wrTicks = returnOrFix32BitRollover (io_WriteTime counter) (io_WriteTime prev);
          tcks = returnOrFix32BitRollover (io_IoTime counter) (io_IoTime prev);
          aveq = returnOrFix32BitRollover (io_WeightedIO counter) (io_WeightedIO prev);
          nIOs = rdIOs + wrIOs;
          nTicks = rdTicks + wrTicks;
          nBytes = rdBytes + wrBytes;
          zero = F64Fin False 0;
          sz = (if nIOs > 0 then f64_div (f64_of_u64 nBytes) (f64_of_u64 nIOs) else zero);
          wait = (if nIOs > 0 then f64_div (f64_of_u64 nTicks) (f64_of_u64 nIOs) else zero);
          svct = (if nIOs > 0 then f64_div (f64_of_u64 tcks) (f64_of_u64 nIOs) else zero);
          queue = f64_div (f64_of_u64 aveq) deltams;
          perSec = (\<lambda>x. Round (f64_div (f64_mul (F64Fin False 1000) (f64_of_u64 x)) deltams));
          busy = Round (f64_div (f64_mul (F64Fin False 100) (f64_of_u64 tcks)) deltams)
      in \<lparr>ReadRequestMergeCountPerSec = perSec rdMerges,
          WriteRequestMergeCountPerSec = perSec wrMerges,
          ReadRequestCountPerSec = perSec rdIOs,
          WriteRequestCountPerSec = perSec wrIOs,
          ReadBytesPerSec = perSec rdBytes,
          WriteBytesPerSec = perSec wrBytes,
          AvgRequestSize = Round sz,
          AvgQueueSize = Round queue,
          AvgAwaitTime = Round wait,
          AvgReadAwaitTime = (if rdIOs > 0 then Round (f64_div (f64_of_u64 rdTicks) (f64_of_u64 rdIOs)) else zero),
          AvgWriteAwaitTime = (if wrIOs > 0 then Round (f64_div (f64_of_u64 wrTicks) (f64_of_u64 wrIOs)) else zero),
          AvgServiceTime = Round svct,
          BusyPct = (if f64_less (F64Fin False 100) busy then F64Fin False 100 else busy)\<rparr>)"

definition CalcIOStatistics :: "('c \<Rightarrow> u64) \<Rightarrow> int \<Rightarrow> IOCountersStat \<Rightarrow> 'c IOStat \<Rightarrow> IOMetric outcome \<times> 'c IOStat" where
  "CalcIOStatistics cpuTotal numCPU counter stat =
     (case lastDiskIOCounters stat (io_Name counter) of
        None \<Rightarrow>
          (Ok zeroIOMetric,
           stat\<lparr>lastDiskIOCounters := (lastDiskIOCounters stat)(io_Name counter \<mapsto> counter)\<rparr>)
      | Some prev \<Rightarrow>
          (let deltams = delta_ms cpuTotal numCPU stat in
           if f64_le deltams (F64Fin False 0) then
             (Err (Message ''the delta cpu time between close sampling and open sampling is less or equal to 0''), stat)
           else
             (Ok (io_metric counter prev deltams),
              stat\<lparr>lastDiskIOCounters := (lastDiskIOCounters stat)(io_Name counter \<mapsto> counter)\<rparr>)))"

section \<open>Rollover\<close>

text \<open>
  C27. For a kernel counter of 32 bits that advanced by \<open>k\<close> since the previous reading,
  the correction returns \<open>k\<close> when the counter did not roll over and \<open>k - 1\<close> when it
  did: the step from \<open>2^32 - 1\<close> to 0 is not counted.
\<close>

theorem rollover_delta:
  assumes "p < 2 ^ 32" "k < 2 ^ 32"
  shows "unat (returnOrFix32BitRollover (of_nat ((p + k) mod 2 ^ 32)) (of_nat p)) =
    (if p + k < 2 ^ 32 then k else k - 1)"
proof -
  have p: "unat (of_nat p :: u64) = p" using assms by (intro unat_of_nat_u64) simp
  have m: "unat (4294967295 :: u64) = 4294967295" by simp
  show ?thesis
  proof (cases "p + k < 2 ^ 32")
    case True
    then have c: "unat (of_nat (p + k) :: u64) = p + k" by (intro unat_of_nat_u64) simp
    have "(of_nat p :: u64) \<le> of_nat (p + k)" unfolding word_le_nat_alt p c by simp
    then have "returnOrFix32BitRollover (of_nat (p + k)) (of_nat p) = of_nat (p + k) - of_nat p"
      by (simp only: returnOrFix32BitRollover_def Let_def if_True)
    moreover have "unat ((of_nat (p + k) :: u64) - of_nat p) = k"
      using unat_sub_u64[of "of_nat p :: u64" "of_nat (p + k)"] unfolding p c by simp
    ultimately show ?thesis using True by (simp only: mod_less if_True)
  next
    case False
    let ?c = "p + k - 2 ^ 32"
    have md: "(p + k) mod 2 ^ 32 = ?c" using False assms by (simp add: mod_if)
    have c: "unat (of_nat ?c :: u64) = ?c" using assms by (intro unat_of_nat_u64 less_imp_diff_less) simp
    have "?c < p" using assms False by linarith
    then have "\<not> (of_nat p :: u64) \<le> of_nat ?c" unfolding word_le_nat_alt p c by simp
    moreover have "\<not> (4294967295 :: u64) < of_nat p" unfolding word_less_nat_alt p m using assms by simp
    ultimately have "returnOrFix32BitRollover (of_nat ?c) (of_nat p) = (4294967295 - of_nat p) + of_nat ?c"
      by (simp only: returnOrFix32BitRollover_def Let_def if_False)
    moreover have d: "unat (4294967295 - of_nat p :: u64) = 4294967295 - p"
      using unat_sub_u64[of "of_nat p :: u64" 4294967295] assms unfolding p m by simp
    moreover have "unat ((4294967295 - of_nat p :: u64) + of_nat ?c) = (4294967295 - p) + ?c"
    proof -
      have "(4294967295 - p) + ?c < 2 ^ 64" using assms by simp
      then show ?thesis using unat_add_u64[of "4294967295 - of_nat p" "of_nat ?c"] unfolding d c by simp
    qed
    ultimately show ?thesis using assms False unfolding md by simp
  qed
qed

theorem rollover_delta_witness:
  "unat (returnOrFix32BitRollover (of_nat ((4294967290 + 10) mod 2 ^ 32)) (of_nat 4294967290)) = 9"
  using rollover_delta[of 4294967290 10] by simp

section \<open>Devices\<close>

lemma busy_at_most_100: "\<not> f64_less (F64Fin False 100) (BusyPct (io_metric counter prev deltams))"
  by (simp add: io_metric_def Let_def)

text \<open>
  A call of \<open>CalcIOStatistics\<close> either fails, leaving the state as it was, because
  the CPU time of the sampling interval is not positive, or stores the new counters of
  the device, keeps those of every other device, and returns the zero metrics for a
  device it sees for the first time and otherwise metrics with at most 100 percent busy
  time.
\<close>

theorem CalcIOStatistics_cases:
  "case CalcIOStatistics cpuTotal numCPU counter stat of
     (Ok met, stat') \<Rightarrow>
        stat' = stat\<lparr>lastDiskIOCounters := (lastDiskIOCounters stat)(io_Name counter \<mapsto> counter)\<rparr> \<and>
        (case lastDiskIOCounters stat (io_Name counter) of
           None \<Rightarrow> met = zeroIOMetric
         | Some prev \<Rightarrow> met = io_metric counter prev (delta_ms cpuTotal numCPU stat)) \<and>
        \<not> f64_less (F64Fin False 100) (BusyPct met)
   | (Err e, stat') \<Rightarrow> stat' = stat \<and> lastDiskIOCounters stat (io_Name counter) \<noteq> None \<and>
        f64_le (delta_ms cpuTotal numCPU stat) (F64Fin False 0)
   | (Panic, _) \<Rightarrow> False"
  by (cases "lastDiskIOCounters stat (io_Name counter)")
    (simp_all add: CalcIOStatistics_def Let_def busy_at_most_100, simp add: zeroIOMetric_def Let_def)

definition interval_positive :: "('c \<Rightarrow> u64) \<Rightarrow> int \<Rightarrow> 'c IOStat \<Rightarrow> bool" where
  "interval_positive cpuTotal numCPU stat \<longleftrightarrow> \<not> f64_le (delta_ms cpuTotal numCPU stat) (F64Fin False 0)"

text \<open>The length of an interval in which the CPU time has advanced is positive.\<close>

lemma round53_between:
  assumes "p2 a \<le> q" "q \<le> p2 b" "-1074 \<le> a" "a \<le> b"
  shows "p2 a \<le> round53 q" "round53 q \<le> p2 b"
proof -
  have "0 \<le> q" using assms(1) p2_pos[of a] by linarith
  moreover have "-1074 \<le> b" using assms by linarith
  ultimately show "p2 a \<le> round53 q" "round53 q \<le> p2 b"
    using round53_ge[OF _ assms(1) round53_p2[OF assms(3)]] round53_le[OF _ assms(2) round53_p2] by auto
qed

lemma f64_div_between:
  assumes "p2 a \<le> x" "x \<le> p2 b" "1 \<le> y" "y \<le> p2 c" "-1074 \<le> a - c" "b \<le> 1023" "a \<le> b" "0 \<le> c"
  shows "\<exists>z. f64_div (F64Fin False x) (F64Fin False y) = F64Fin False z \<and> p2 (a - c) \<le> z \<and> z \<le> p2 b"
proof -
  have x: "0 < x" using assms(1) p2_pos[of a] by linarith
  have "p2 (a - c) * y \<le> p2 (a - c) * p2 c" using assms(4) by (intro mult_left_mono) auto
  also have "\<dots> = p2 a" by (simp flip: p2_add)
  finally have lo: "p2 (a - c) \<le> x / y" using assms by (simp add: pos_le_divide_eq)
  have "x / y \<le> x / 1" using x assms(3) by (intro divide_left_mono) auto
  then have hi: "x / y \<le> p2 b" using assms(2) by linarith
  have "x / y \<le> p2 1023" by (rule order_trans[OF hi]) (simp only: p2_le_iff assms(6))
  then have "f64_div (F64Fin False x) (F64Fin False y) = F64Fin False (round53 (x / y))"
    using x assms(3) by (intro f64_div_fin) auto
  then show ?thesis using round53_between[OF lo hi assms(5)] assms(7,8) by auto
qed

lemma delta_ms_positive:
  assumes "cpuTotal (curCPU stat) \<noteq> cpuTotal (lastCPU stat)" "1 \<le> n" "n \<le> 2 ^ 39"
  shows "interval_positive cpuTotal n stat"
proof -
  let ?d = "cpuTotal (curCPU stat) - cpuTotal (lastCPU stat)"
  have "?d \<noteq> 0" using assms(1) by simp
  then have "0 < unat ?d" by (simp add: unat_gt_0)
  then have "1 \<le> uint ?d" using uint_nat[of ?d] by linarith
  then have "(of_int 1 :: rat) \<le> of_int (uint ?d)" by (simp only: of_int_le_iff)
  moreover have "of_int (uint ?d) \<le> p2 64"
    using uint_u64_bound[of ?d] by (simp only: p2_int of_int_le_iff)
  ultimately have d: "p2 0 \<le> round53 (of_int (uint ?d))" "round53 (of_int (uint ?d)) \<le> p2 64"
    using round53_between[of 0 "of_int (uint ?d)" 64] by simp_all
  let ?m = "1000 * round53 (of_int (uint ?d))"
  have "(1000 :: rat) \<le> p2 10" by simp
  then have "?m \<le> p2 10 * p2 64" using d by (intro mult_mono) auto
  then have m: "p2 0 \<le> ?m" "?m \<le> p2 74" using d by (simp_all flip: p2_add)
  have "?m \<le> p2 1023" by (rule order_trans[OF m(2)]) (simp only: p2_le_iff)
  then have mul: "f64_mul (F64Fin False 1000) (f64_of_u64 ?d) = F64Fin False (round53 ?m)"
    using d by (simp add: f64_of_u64_fin f64_round_fin)
  note rm = round53_between[OF m]
  have n: "f64_of_int n = F64Fin False (of_int n)" "(1 :: rat) \<le> of_int n" "of_int n \<le> p2 39"
    using assms by (auto intro: f64_of_small_int)
  obtain y where y: "f64_div (F64Fin False (round53 ?m)) (F64Fin False (of_int n)) = F64Fin False y"
    "p2 (0 - 39) \<le> y" "y \<le> p2 74"
    using f64_div_between[OF rm(1) rm(2) n(2,3)] by auto
  obtain z where z: "f64_div (F64Fin False y) (F64Fin False 100) = F64Fin False z" "p2 (0 - 39 - 7) \<le> z"
    using f64_div_between[OF y(2,3), of 100 7] by auto
  have c: "f64_of_int (uint GetCLKTCK) = F64Fin False 100"
    using f64_of_small_int[of 100] by (simp add: GetCLKTCK_def)
  have "delta_ms cpuTotal n stat = F64Fin False z"
    unfolding delta_ms_def mul n(1) y(1) c by (rule z(1))
  moreover have "0 < z" using z(2) p2_pos[of "0 - 39 - 7"] by linarith
  ultimately show ?thesis by (simp add: interval_positive_def f64_le_def)
qed

text \<open>
  Within one sampling interval of positive length the counters of a device are a
  \<open>sampler\<close>: the stored sample is the last one handed in for that device.
\<close>

lemma delta_ms_update [simp]: "delta_ms cpuTotal n (stat\<lparr>lastDiskIOCounters := x\<rparr>) = delta_ms cpuTotal n stat"
  by (simp add: delta_ms_def)

interpretation disk_counters: sampler
  "\<lambda>stat counter. snd (CalcIOStatistics cpuTotal numCPU counter stat)"
  "\<lambda>stat. lastDiskIOCounters stat name"
  "\<lambda>counter. if io_Name counter = name then Some (Some counter) else None"
  "interval_positive cpuTotal numCPU"
  for cpuTotal numCPU name
  by unfold_locales (auto simp: CalcIOStatistics_def interval_positive_def Let_def split: option.splits)

text \<open>
  C28. After any number of calls in one sampling interval of positive length, the
  counters kept for a device are the last ones handed in for it.
\<close>

theorem disk_counters_history:
  assumes "interval_positive cpuTotal numCPU stat"
  shows "lastDiskIOCounters (foldl (\<lambda>s c. snd (CalcIOStatistics cpuTotal numCPU c s)) stat cs) name =
    last (lastDiskIOCounters stat name # List.map_filter
      (\<lambda>c. if io_Name c = name then Some (Some c) else None) cs)"
  using assms by (rule disk_counters.stored_run)

definition demo_counters :: "string \<Rightarrow> u64 \<Rightarrow> IOCountersStat" where
  "demo_counters name k =
     \<lparr>io_ReadCount = k, io_MergedReadCount = 0, io_WriteCount = 0, io_MergedWriteCount = 0,
      io_ReadBytes = 0, io_WriteBytes = 0, io_ReadTime = 0, io_WriteTime = 0, io_IoTime = 0,
      io_WeightedIO = 0, io_Name = name\<rparr>"

theorem disk_counters_history_witness:
  "lastDiskIOCounters
     (foldl (\<lambda>s c. snd (CalcIOStatistics id 1 c s)) ((NewDiskIOStat (0 :: u64))\<lparr>curCPU := 500\<rparr>)
        [demo_counters ''sda'' 1, demo_counters ''sdb'' 2, demo_counters ''sda'' 3]) ''sda''
   = Some (demo_counters ''sda'' 3)"
proof -
  have "interval_positive id 1 ((NewDiskIOStat (0 :: u64))\<lparr>curCPU := 500\<rparr>)"
    by (rule delta_ms_positive) (simp_all add: NewDiskIOStat_def)
  from disk_counters_history[OF this,
      of "[demo_counters ''sda'' 1, demo_counters ''sdb'' 2, demo_counters ''sda'' 3]" "''sda''"]
  show ?thesis by (simp add: map_filter_simps demo_counters_def)
qed

end
