(* ===== verification/Cgroup_Paths.thy ===== *)
theory Cgroup_Paths
  imports Resolve Go_Numbers
begin

text \<open>
  \<open>metric/system/cgroup/util.go\<close>: which subsystems the kernel supports, where their
  hierarchies are mounted, and to which control groups a process belongs. Proved: lines of
  \<open>mountinfo\<close> are read to what they say, the mount points found are the first of each
  subsystem below the root, and a process's paths are those of the lines of its
  \<open>cgroup\<close> file, with the version 2 lines resolved by mount point or host root.
\<close>

section \<open>Mount information\<close>

record mountinfo =
  mi_mountpoint :: string
  mi_filesystemType :: string
  mi_superOptions :: "string list"

definition ErrCgroupsMissing :: go_error where
  "ErrCgroupsMissing = Sentinel ''cgroups not found or unsupported by OS''"

text \<open>The loop leaves \<open>separatorIndex\<close> at 0 when no field is a single dash.\<close>

definition separatorIndex :: "string list \<Rightarrow> nat" where
  "separatorIndex fs = (if ''-'' \<in> set fs then length (takeWhile (\<lambda>v. v \<noteq> ''-'') fs) else 0)"

definition parseMountinfoLine :: "string \<Rightarrow> mountinfo outcome" where
  "parseMountinfoLine line =
     (let fs = Fields line in
      if length fs < 10 then Err (Message ''invalid mountinfo line, expected at least 10 fields'')
      else
        let sep = separatorIndex fs in
        if fs ! sep \<noteq> ''-'' then Err (Message ''invalid mountinfo line, separator not found'')
        else if length fs - sep - 1 < 3 then
          Err (Message ''invalid mountinfo line, expected at least 3 fields after separator'')
        else
          let rest = drop (sep + 1) fs in
          Ok \<lparr>mi_mountpoint = fs ! 4, mi_filesystemType = rest ! 0,
              mi_superOptions = split_on (CHR '','') (rest ! 2)\<rparr>)"

section \<open>Subsystems\<close>

fun subsystems_loop :: "string set \<Rightarrow> string list \<Rightarrow> string set" where
  "subsystems_loop subsystemSet [] = subsystemSet"
| "subsystems_loop subsystemSet (line # rest) =
     (if line \<noteq> [] \<and> hd line = CHR ''#'' then subsystems_loop subsystemSet rest
      else
        let fs = Fields line in
        if fs = [] then subsystems_loop subsystemSet rest
        else if 3 < length fs \<and> fs ! 3 = ''0'' then subsystems_loop subsystemSet rest
        else subsystems_loop (insert (fs ! 0) subsystemSet) rest)"

definition SupportedSubsystems :: "os_env \<Rightarrow> resolver \<Rightarrow> string set outcome" where
  "SupportedSubsystems w rootfs =
     (case os_ReadFile w (ResolveHostFS rootfs ''/proc/cgroups'') of
        Err err \<Rightarrow> if os_IsNotExist err then Err ErrCgroupsMissing else Err err
      | Panic \<Rightarrow> Panic
      | Ok cgroups \<Rightarrow>
          (case scan_err cgroups of
             Some e \<Rightarrow> Err e
           | None \<Rightarrow> Ok (subsystems_loop {} (scan_lines cgroups))))"

section \<open>Mount points\<close>

record Mountpoints =
  V1Mounts :: "string \<rightharpoonup> string"
  V2Loc :: string

definition option_subsystem :: "string \<Rightarrow> string" where
  "option_subsystem opt =
     (let fs = splitN2 (CHR ''='') opt in if 1 < length fs then fs ! 1 else opt)"

definition add_mount :: "string set \<Rightarrow> string \<Rightarrow> string \<Rightarrow> (string \<rightharpoonup> string) \<Rightarrow> (string \<rightharpoonup> string)" where
  "add_mount subsystems mountpoint opt mounts =
     (let opt = option_subsystem opt in
      if opt \<in> subsystems \<and> mounts opt = None then mounts(opt \<mapsto> mountpoint) else mounts)"

fun mountpoints_loop :: "resolver \<Rightarrow> string set \<Rightarrow> Mountpoints \<Rightarrow> string list \<Rightarrow> Mountpoints outcome" where
  "mountpoints_loop rootfs subsystems m [] = Ok m"
| "mountpoints_loop rootfs subsystems m (line # rest) =
     (let line = trim_space line in
      if line = [] then mountpoints_loop rootfs subsystems m rest
      else
        and_then (parseMountinfoLine line) (\<lambda>mount.
          if \<not> prefix (ResolveHostFS rootfs []) (mi_mountpoint mount) then mountpoints_loop rootfs subsystems m rest
          else
            let m = (if mi_filesystemType mount = ''cgroup''
                     then m\<lparr>V1Mounts := foldl (\<lambda>ms opt. add_mount subsystems (mi_mountpoint mount) opt ms)
                              (V1Mounts m) (mi_superOptions mount)\<rparr>
                     else m);
                m = (if mi_filesystemType mount = ''cgroup2'' then m\<lparr>V2Loc := mi_mountpoint mount\<rparr> else m)
            in mountpoints_loop rootfs subsystems m rest))"

definition SubsystemMountpoints :: "os_env \<Rightarrow> resolver \<Rightarrow> string set \<Rightarrow> Mountpoints outcome" where
  "SubsystemMountpoints w rootfs subsystems =
     and_then (os_ReadFile w (ResolveHostFS rootfs ''/proc/self/mountinfo'')) (\<lambda>mi.
     and_then (mountpoints_loop rootfs subsystems \<lparr>V1Mounts = Map.empty, V2Loc = []\<rparr> (scan_lines mi)) (\<lambda>m.
       case scan_err mi of None \<Rightarrow> Ok m | Some e \<Rightarrow> Err e))"

section \<open>Paths of a process\<close>

record ControllerPath =
  cp_ControllerPath :: string
  cp_FullPath :: string
  cp_IsV2 :: bool

record PathList =
  pl_V1 :: "string \<rightharpoonup> ControllerPath"
  pl_V2 :: "string \<rightharpoonup> ControllerPath"

text \<open>The orders in which the two maps are visited are arguments.\<close>

definition Flatten :: "string list \<Rightarrow> string list \<Rightarrow> PathList \<Rightarrow> ControllerPath list" where
  "Flatten order1 order2 pl = map (\<lambda>k. the (pl_V1 pl k)) order1 @ map (\<lambda>k. the (pl_V2 pl k)) order2"

record Reader =
  rd_rootfsMountpoint :: resolver
  rd_ignoreRootCgroups :: bool
  rd_cgroupsHierarchyOverride :: string
  rd_cgroupMountpoints :: Mountpoints

text \<open>The directory of a version 2 path; \<open>None\<close> where the code skips the line.\<close>

definition v2_controllerPath :: "Reader \<Rightarrow> string \<Rightarrow> string option" where
  "v2_controllerPath r path =
     (let loc = V2Loc (rd_cgroupMountpoints r);
          controllerPath = path_Join [loc, path] in
      if loc = [] \<and> \<not> IsSet (rd_rootfsMountpoint r) then None
      else if loc = [] \<and> IsSet (rd_rootfsMountpoint r) then
        Some (ResolveHostFS (rd_rootfsMountpoint r) (path_Join [''/sys/fs/cgroup/unified'', path]))
      else Some controllerPath)"

definition add_v2 :: "string \<Rightarrow> string \<Rightarrow> dirent \<Rightarrow> (string \<rightharpoonup> ControllerPath) \<Rightarrow> (string \<rightharpoonup> ControllerPath)" where
  "add_v2 path controllerPath singlePath m =
     (if contains ''stat'' (ent_name singlePath)
      then m(trim_suffix (ent_name singlePath) ''.stat'' \<mapsto>
             \<lparr>cp_ControllerPath = path, cp_FullPath = controllerPath, cp_IsV2 = True\<rparr>)
      else m)"

definition add_v1 :: "Reader \<Rightarrow> string \<Rightarrow> string \<Rightarrow> (string \<rightharpoonup> ControllerPath) \<Rightarrow> (string \<rightharpoonup> ControllerPath)" where
  "add_v1 r path subsystem m =
     m(subsystem \<mapsto>
        \<lparr>cp_ControllerPath = path,
         cp_FullPath = path_Join [valueOr [] (V1Mounts (rd_cgroupMountpoints r) subsystem), path],
         cp_IsV2 = False\<rparr>)"

fun cgroup_loop :: "os_env \<Rightarrow> Reader \<Rightarrow> PathList \<Rightarrow> string list \<Rightarrow> PathList outcome" where
  "cgroup_loop w r cPaths [] = Ok cPaths"
| "cgroup_loop w r cPaths (line # rest) =
     (let fs = split_on (CHR '':'') line in
      if length fs \<noteq> 3 then cgroup_loop w r cPaths rest
      else
        let path = (if rd_cgroupsHierarchyOverride r \<noteq> [] then rd_cgroupsHierarchyOverride r else fs ! 2) in
        if contains ''0::/'' line then
          (case v2_controllerPath r path of
             None \<Rightarrow> cgroup_loop w r cPaths rest
           | Some controllerPath \<Rightarrow>
               and_then (wrap_err ''error fetching cgroupV2 controllers'' (os_ReadDir w controllerPath)) (\<lambda>cgpaths.
                 cgroup_loop w r
                   (cPaths\<lparr>pl_V2 := foldl (\<lambda>m e. add_v2 path controllerPath e m) (pl_V2 cPaths) cgpaths\<rparr>) rest))
        else
          cgroup_loop w r
            (cPaths\<lparr>pl_V1 := foldl (\<lambda>m s. add_v1 r path s m) (pl_V1 cPaths) (split_on (CHR '','') (fs ! 1))\<rparr>) rest)"

text \<open>The error of the scan wraps \<open>err\<close>, which is the nil of the \<open>Open\<close> before it.\<close>

definition Reader_ProcessCgroupPaths :: "os_env \<Rightarrow> Reader \<Rightarrow> int \<Rightarrow> PathList outcome" where
  "Reader_ProcessCgroupPaths w r pid =
     (let cgroupPath = path_Join [''proc'', itoa pid, ''cgroup''] in
      and_then (os_ReadFile w (ResolveHostFS (rd_rootfsMountpoint r) cgroupPath)) (\<lambda>cgroup.
      and_then (cgroup_loop w r \<lparr>pl_V1 = Map.empty, pl_V2 = Map.empty\<rparr> (scan_lines cgroup)) (\<lambda>cPaths.
        if scan_err cgroup \<noteq> None then Err (Message ''error scanning cgroup file: %!w(<nil>)'')
        else Ok cPaths)))"

section \<open>Lines of mountinfo\<close>

text \<open>A line of the kernel: six fields, optional fields, a dash, and three fields.\<close>

record mount_line =
  ml_head :: "string list"
  ml_root :: string
  ml_mountpoint :: string
  ml_options :: "string list"
  ml_fstype :: string
  ml_source :: string
  ml_super :: "string list"

definition mount_fields :: "mount_line \<Rightarrow> string list" where
  "mount_fields l = ml_head l @ [ml_root l, ml_mountpoint l] @ ml_options l @
     [''-'', ml_fstype l, ml_source l, join (CHR '','') (ml_super l)]"

definition show_mount :: "mount_line \<Rightarrow> string" where
  "show_mount l = join (CHR '' '') (mount_fields l)"

definition mount_line_ok :: "mount_line \<Rightarrow> bool" where
  "mount_line_ok l \<longleftrightarrow> length (ml_head l) = 3 \<and> ml_options l \<noteq> [] \<and> list_all plain (mount_fields l) \<and>
     ''-'' \<notin> set (ml_head l @ [ml_root l, ml_mountpoint l] @ ml_options l) \<and>
     ml_super l \<noteq> [] \<and> list_all (\<lambda>x. CHR '','' \<notin> set x) (ml_super l) \<and>
     length (show_mount l) < max_scan_token"

lemma separatorIndex_at: "''-'' \<notin> set a \<Longrightarrow> separatorIndex (a @ ''-'' # b) = length a"
  unfolding separatorIndex_def by (subst takeWhile_append2) auto

lemma parseMountinfoLine_at:
  assumes "Fields line = a @ ''-'' # [t, src, so]" "''-'' \<notin> set a" "6 \<le> length a"
  shows "parseMountinfoLine line =
    Ok \<lparr>mi_mountpoint = a ! 4, mi_filesystemType = t, mi_superOptions = split_on (CHR '','') so\<rparr>"
proof -
  have "(a @ ''-'' # [t, src, so]) ! 4 = a ! 4" using assms(3) by (simp add: nth_append)
  then show ?thesis
    using assms(3) separatorIndex_at[OF assms(2), of "[t, src, so]"]
    by (simp add: parseMountinfoLine_def assms(1) Let_def)
qed

lemma parseMountinfoLine_show:
  assumes "mount_line_ok l"
  shows "parseMountinfoLine (show_mount l) =
    Ok \<lparr>mi_mountpoint = ml_mountpoint l, mi_filesystemType = ml_fstype l, mi_superOptions = ml_super l\<rparr>"
proof -
  let ?a = "ml_head l @ [ml_root l, ml_mountpoint l] @ ml_options l"
  have "Fields (show_mount l) = mount_fields l"
    using assms fields_join[of "mount_fields l" "CHR '' ''"] by (simp only: show_mount_def mount_line_ok_def ascii_ws_space)
  then have fs: "Fields (show_mount l) = ?a @ ''-'' # [ml_fstype l, ml_source l, join (CHR '','') (ml_super l)]"
    by (simp add: mount_fields_def)
  have "split_on (CHR '','') (join (CHR '','') (ml_super l)) = ml_super l"
    using assms by (intro split_on_join) (auto simp: mount_line_ok_def list_all_iff)
  moreover have "ml_options l \<noteq> [] \<and> length (ml_head l) = 3" using assms by (simp add: mount_line_ok_def)
  then have "6 \<le> length ?a" "?a ! 4 = ml_mountpoint l" by (cases "ml_options l"; simp add: nth_append)+
  moreover have "''-'' \<notin> set ?a" using assms by (simp add: mount_line_ok_def)
  ultimately show ?thesis using parseMountinfoLine_at[OF fs] by (simp only: simp_thms)
qed

lemma show_mount_line:
  assumes "mount_line_ok l" shows "is_line (show_mount l)" "trim_space (show_mount l) = show_mount l" "show_mount l \<noteq> []"
proof -
  have p: "list_all plain (mount_fields l)" using assms by (simp add: mount_line_ok_def)
  show "is_line (show_mount l)"
    using assms p unfolding show_mount_def mount_line_ok_def
    by (intro is_line_text join_text) (auto simp: show_mount_def)
  obtain x y xs where f: "mount_fields l = x # xs @ [y]"
    using assms by (cases "ml_head l") (auto simp: mount_line_ok_def mount_fields_def)
  have j: "show_mount l = x @ CHR '' '' # join (CHR '' '') (xs @ [y])"
    by (simp add: show_mount_def f join_Cons)
  have xy: "plain x" "plain y" using p f by auto
  then obtain c cs where c: "x = c # cs" "plain_char c" by (cases x) (auto simp: plain_def)
  then show ne': "show_mount l \<noteq> []" by (simp add: j)
  have "last (join sep (zs @ [y])) = last y \<and> join sep (zs @ [y]) \<noteq> []" for sep :: char and zs
  proof (induction zs)
    case (Cons z zs)
    then show ?case by (simp add: join_Cons)
  qed (use xy in \<open>auto simp: plain_def\<close>)
  then have "last (show_mount l) = last y" by (simp add: j)
  moreover have "plain_char (last y)" using xy(2) by (auto simp: plain_def list_all_iff)
  ultimately show "trim_space (show_mount l) = show_mount l"
    using c by (intro trim_space_id) (auto simp: j)
qed

lemma find_append: "find P (xs @ ys) = (case find P xs of Some q \<Rightarrow> Some q | None \<Rightarrow> find P ys)"
  by (induction xs) auto

section \<open>The mount points found\<close>

definition below_root :: "resolver \<Rightarrow> mount_line \<Rightarrow> bool" where
  "below_root rootfs l \<longleftrightarrow> prefix (ResolveHostFS rootfs []) (ml_mountpoint l)"

definition mounts_subsystem :: "resolver \<Rightarrow> string \<Rightarrow> mount_line \<Rightarrow> bool" where
  "mounts_subsystem rootfs s l \<longleftrightarrow>
     below_root rootfs l \<and> ml_fstype l = ''cgroup'' \<and> s \<in> set (map option_subsystem (ml_super l))"

definition first_mount :: "resolver \<Rightarrow> mount_line list \<Rightarrow> string \<Rightarrow> string option" where
  "first_mount rootfs ls s = map_option ml_mountpoint (find (mounts_subsystem rootfs s) ls)"

definition last_unified :: "resolver \<Rightarrow> mount_line list \<Rightarrow> string option" where
  "last_unified rootfs ls =
     map_option ml_mountpoint (find (\<lambda>l. below_root rootfs l \<and> ml_fstype l = ''cgroup2'') (rev ls))"

lemma add_mounts:
  "foldl (\<lambda>ms opt. add_mount subs p opt ms) m opts s =
     (case m s of Some q \<Rightarrow> Some q
      | None \<Rightarrow> if s \<in> subs \<and> s \<in> set (map option_subsystem opts) then Some p else None)"
proof (induction opts arbitrary: m)
  case (Cons opt opts)
  then show ?case by (auto simp: add_mount_def Let_def split: option.splits)
qed (simp split: option.splits)

lemma mountpoints_loop_lines:
  "list_all mount_line_ok ls \<Longrightarrow>
     mountpoints_loop rootfs subs m (map show_mount ls) =
       Ok \<lparr>V1Mounts = (\<lambda>s. case V1Mounts m s of Some q \<Rightarrow> Some q
               | None \<Rightarrow> if s \<in> subs then first_mount rootfs ls s else None),
           V2Loc = valueOr (V2Loc m) (last_unified rootfs ls)\<rparr>"
proof (induction ls arbitrary: m)
  case Nil
  then show ?case by (cases m) (auto simp: first_mount_def last_unified_def intro!: ext split: option.splits)
next
  case (Cons l ls)
  have ok: "mount_line_ok l" "list_all mount_line_ok ls" using Cons.prems by simp_all
  have uni: "last_unified rootfs (l # ls) = (case last_unified rootfs ls of Some q \<Rightarrow> Some q
      | None \<Rightarrow> if below_root rootfs l \<and> ml_fstype l = ''cgroup2'' then Some (ml_mountpoint l) else None)"
    by (auto simp: last_unified_def find_append split: option.splits)
  show ?case
    using ok
    by (auto simp: parseMountinfoLine_show show_mount_line Cons.IH[OF ok(2)] Let_def uni add_mounts below_root_def
        mounts_subsystem_def first_mount_def intro!: ext split: option.splits)
qed

text \<open>
  C33. Mount points. For a well-formed \<open>mountinfo\<close>, a supported subsystem is mounted where
  the first version 1 line below the host root that lists it among its options (bare or
  as the value of \<open>name=\<close>) says, and the unified hierarchy where the last version 2 line
  below the root does; subsystems the kernel does not support are left out.
\<close>

theorem SubsystemMountpoints_lines:
  assumes "list_all mount_line_ok ls"
    and "file_of w (ResolveHostFS rootfs ''/proc/self/mountinfo'') = Inr (unlines (map show_mount ls))"
  shows "SubsystemMountpoints w rootfs subs =
    Ok \<lparr>V1Mounts = (\<lambda>s. if s \<in> subs then first_mount rootfs ls s else None),
        V2Loc = valueOr [] (last_unified rootfs ls)\<rparr>"
proof -
  have "list_all is_line (map show_mount ls)" using assms(1) show_mount_line(1) by (auto simp: list_all_iff)
  then show ?thesis
    using assms by (simp add: SubsystemMountpoints_def os_ReadFile_def scan_lines_unlines mountpoints_loop_lines)
qed

definition demo_mountinfo :: "mount_line list" where
  "demo_mountinfo =
     [\<lparr>ml_head = [''25'', ''21'', ''0:20''], ml_root = ''/'', ml_mountpoint = ''/cg/cpu'', ml_options = [''rw''],
       ml_fstype = ''cgroup'', ml_source = ''cgroup'', ml_super = [''rw'', ''cpu'', ''name=blkio'']\<rparr>,
      \<lparr>ml_head = [''26'', ''21'', ''0:21''], ml_root = ''/'', ml_mountpoint = ''/cg/unified'', ml_options = [''rw''],
       ml_fstype = ''cgroup2'', ml_source = ''none'', ml_super = [''rw'']\<rparr>]"

definition demo_root :: resolver where
  "demo_root = \<lparr>ResolveHostFS = (\<lambda>p. if p = [] then ''/'' else p), IsSet = False, Join = concat\<rparr>"

lemma demo_mountinfo_ok: "list_all mount_line_ok demo_mountinfo"
  by (simp add: demo_mountinfo_def mount_line_ok_def mount_fields_def plain_def plain_char_def code_def
      show_mount_def max_scan_token_def)

theorem SubsystemMountpoints_lines_witness:
  "\<exists>m. SubsystemMountpoints (files_env [(''/proc/self/mountinfo'', unlines (map show_mount demo_mountinfo))])
      demo_root {''cpu'', ''blkio''} = Ok m \<and>
    V1Mounts m ''cpu'' = Some ''/cg/cpu'' \<and> V1Mounts m ''blkio'' = Some ''/cg/cpu'' \<and>
    V1Mounts m ''rw'' = None \<and> V2Loc m = ''/cg/unified''"
proof -
  let ?w = "files_env [(''/proc/self/mountinfo'', unlines (map show_mount demo_mountinfo))]"
  have "SubsystemMountpoints ?w demo_root {''cpu'', ''blkio''} =
    Ok \<lparr>V1Mounts = (\<lambda>s. if s \<in> {''cpu'', ''blkio''} then first_mount demo_root demo_mountinfo s else None),
        V2Loc = valueOr [] (last_unified demo_root demo_mountinfo)\<rparr>"
    by (rule SubsystemMountpoints_lines[OF demo_mountinfo_ok]) (simp add: files_env_def demo_root_def)
  then show ?thesis
    by (simp add: first_mount_def last_unified_def mounts_subsystem_def below_root_def demo_root_def demo_mountinfo_def
        option_subsystem_def splitN2_def)
qed

section \<open>The control groups of a process\<close>

text \<open>A line of a process's \<open>cgroup\<close> file.\<close>

datatype cg_line = V1Line nat "string list" string | V2Line string

fun show_cg_line :: "cg_line \<Rightarrow> string" where
  "show_cg_line (V1Line n subs p) = show_nat n @ CHR '':'' # join (CHR '','') subs @ CHR '':'' # p"
| "show_cg_line (V2Line p) = ''0::'' @ p"

definition cg_path_ok :: "string \<Rightarrow> bool" where
  "cg_path_ok p \<longleftrightarrow> prefix ''/'' p \<and> CHR '':'' \<notin> set p \<and> is_line p"

fun cg_line_ok :: "cg_line \<Rightarrow> bool" where
  "cg_line_ok (V1Line n subs p) \<longleftrightarrow> subs \<noteq> [] \<and> list_all (\<lambda>s. plain s \<and> CHR '':'' \<notin> set s \<and> CHR '','' \<notin> set s) subs \<and>
     cg_path_ok p \<and> length (show_cg_line (V1Line n subs p)) < max_scan_token"
| "cg_line_ok (V2Line p) \<longleftrightarrow> cg_path_ok p \<and> length (show_cg_line (V2Line p)) < max_scan_token"

lemma digits_in_show_nat: "c \<in> set (show_nat n) \<Longrightarrow> is_digit c"
  using show_nat_digits[of n] by (simp add: list_all_iff)

lemma join_nonempty: "list_all plain xs \<Longrightarrow> xs \<noteq> [] \<Longrightarrow> join sep xs \<noteq> []"
  by (cases xs; cases "tl xs") (auto simp: join_Cons plain_def)

lemma set_join: "set (join sep xs) \<subseteq> insert sep (\<Union>x \<in> set xs. set x)"
proof (induction xs)
  case (Cons x xs)
  then show ?case by (cases "xs = []") (auto simp: join_Cons)
qed simp

lemma show_cg_line_fields:
  assumes "cg_line_ok l"
  shows "split_on (CHR '':'') (show_cg_line l) =
      (case l of V1Line n subs p \<Rightarrow> [show_nat n, join (CHR '','') subs, p] | V2Line p \<Rightarrow> [''0'', [], p])"
proof (cases l)
  case (V1Line n subs p)
  have "CHR '':'' \<notin> set (show_nat n)" by (auto dest!: digits_in_show_nat simp: is_digit_def code_def)
  moreover have "CHR '':'' \<notin> set (join (CHR '','') subs)"
    using assms V1Line set_join[of "CHR '',''" subs] by (auto simp: list_all_iff)
  ultimately show ?thesis using assms V1Line by (simp add: split_on_append split_on_token cg_path_ok_def)
next
  case (V2Line p)
  then show ?thesis using assms by (simp add: split_on_token cg_path_ok_def)
qed

lemma show_cg_line_unified: "cg_line_ok l \<Longrightarrow> contains ''0::/'' (show_cg_line l) \<longleftrightarrow> (\<exists>p. l = V2Line p)"
proof
  assume ok: "cg_line_ok l" and c: "contains ''0::/'' (show_cg_line l)"
  show "\<exists>p. l = V2Line p"
  proof (cases l)
    case (V1Line n subs p)
    obtain a b where "show_cg_line l = (a @ ''0'') @ CHR '':'' # [] @ CHR '':'' # ''/'' @ b" using c by (auto simp: contains_iff)
    then have e: "split_on (CHR '':'') (show_cg_line l) = split_on (CHR '':'') (a @ ''0'') @ [] # split_on (CHR '':'') (''/'' @ b)"
      by (simp only: split_on_mid append_Nil) simp
    have f: "split_on (CHR '':'') (show_cg_line l) = [show_nat n, join (CHR '','') subs, p]"
      using show_cg_line_fields[OF ok] by (simp only: V1Line cg_line.case)
    have "[x, y, z] = s1 @ [] # s2 \<Longrightarrow> s1 \<noteq> [] \<Longrightarrow> s2 \<noteq> [] \<Longrightarrow> y = []" for x y z :: string and s1 s2
      by (cases s1; cases "tl s1") (auto simp: Cons_eq_append_conv)
    from this[OF trans[OF f[symmetric] e] split_on_nonempty split_on_nonempty]
    have "join (CHR '','') subs = []" .
    moreover have "list_all plain subs" "subs \<noteq> []" using ok V1Line by (auto simp: list_all_iff)
    ultimately show ?thesis by (simp add: join_nonempty)
  qed auto
next
  assume "cg_line_ok l" "\<exists>p. l = V2Line p"
  then obtain zs where "show_cg_line l = [] @ ''0::/'' @ zs" by (auto simp: cg_path_ok_def prefix_def)
  then show "contains ''0::/'' (show_cg_line l)" unfolding contains_iff by blast
qed

lemma show_cg_line_line:
  assumes "cg_line_ok l" shows "is_line (show_cg_line l)"
proof (cases l)
  case (V1Line n subs p)
  have p: "prefix ''/'' p" "newline \<notin> set p" "last p \<noteq> CHR 0x0D"
    using assms V1Line by (auto simp: cg_path_ok_def is_line_def prefix_def)
  have "newline \<notin> set (show_nat n)" by (auto dest!: digits_in_show_nat simp: is_digit_def code_def newline_def)
  moreover have "newline \<notin> set x" if "plain x" for x
    using that by (auto simp: plain_def list_all_iff plain_char_def code_def newline_def)
  then have "newline \<notin> set (join (CHR '','') subs)"
    using assms V1Line set_join[of "CHR '',''" subs] by (auto simp: list_all_iff newline_def)
  ultimately show ?thesis using assms V1Line p by (auto simp: is_line_def prefix_def newline_def)
next
  case (V2Line p)
  then show ?thesis using assms by (auto simp: cg_path_ok_def is_line_def prefix_def newline_def)
qed

definition effective_path :: "Reader \<Rightarrow> string \<Rightarrow> string" where
  "effective_path r p = (if rd_cgroupsHierarchyOverride r \<noteq> [] then rd_cgroupsHierarchyOverride r else p)"

definition v1_entries :: "Reader \<Rightarrow> cg_line list \<Rightarrow> (string \<times> ControllerPath) list" where
  "v1_entries r ls = concat (map (\<lambda>l. case l of V2Line _ \<Rightarrow> []
     | V1Line n subs p \<Rightarrow> map (\<lambda>s. (s, \<lparr>cp_ControllerPath = effective_path r p,
         cp_FullPath = path_Join [valueOr [] (V1Mounts (rd_cgroupMountpoints r) s), effective_path r p],
         cp_IsV2 = False\<rparr>)) subs) ls)"

definition v2_entries :: "Reader \<Rightarrow> (string \<Rightarrow> dirent list) \<Rightarrow> cg_line list \<Rightarrow> (string \<times> ControllerPath) list" where
  "v2_entries r es ls = concat (map (\<lambda>l. case l of V1Line _ _ _ \<Rightarrow> []
     | V2Line p \<Rightarrow> (case v2_controllerPath r (effective_path r p) of None \<Rightarrow> []
         | Some d \<Rightarrow> map (\<lambda>e. (trim_suffix (ent_name e) ''.stat'',
             \<lparr>cp_ControllerPath = effective_path r p, cp_FullPath = d, cp_IsV2 = True\<rparr>))
             (filter (\<lambda>e. contains ''stat'' (ent_name e)) (es d)))) ls)"

lemma fold_add_v1:
  "foldl (\<lambda>m s. add_v1 r p s m) m subs = m ++ map_of (rev (map (\<lambda>s. (s, \<lparr>cp_ControllerPath = p,
     cp_FullPath = path_Join [valueOr [] (V1Mounts (rd_cgroupMountpoints r) s), p], cp_IsV2 = False\<rparr>)) subs))"
  by (induction subs rule: rev_induct) (auto simp: add_v1_def simp del: fun_upd_apply)

lemma fold_add_v2:
  "foldl (\<lambda>m e. add_v2 p d e m) m es = m ++ map_of (rev (map (\<lambda>e. (trim_suffix (ent_name e) ''.stat'',
     \<lparr>cp_ControllerPath = p, cp_FullPath = d, cp_IsV2 = True\<rparr>)) (filter (\<lambda>e. contains ''stat'' (ent_name e)) es)))"
  by (induction es rule: rev_induct) (auto simp: add_v2_def simp del: fun_upd_apply contains.simps)

definition dirs_listed :: "os_env \<Rightarrow> Reader \<Rightarrow> (string \<Rightarrow> dirent list) \<Rightarrow> cg_line list \<Rightarrow> bool" where
  "dirs_listed w r es ls \<longleftrightarrow> list_all (\<lambda>l. case l of V1Line _ _ _ \<Rightarrow> True
     | V2Line p \<Rightarrow> (case v2_controllerPath r (effective_path r p) of None \<Rightarrow> True | Some d \<Rightarrow> dir_of w d = Inr (es d))) ls"

lemma cgroup_loop_lines:
  "list_all cg_line_ok ls \<Longrightarrow> dirs_listed w r es ls \<Longrightarrow>
     cgroup_loop w r pl (map show_cg_line ls) =
       Ok \<lparr>pl_V1 = pl_V1 pl ++ map_of (rev (v1_entries r ls)), pl_V2 = pl_V2 pl ++ map_of (rev (v2_entries r es ls))\<rparr>"
proof (induction ls arbitrary: pl)
  case Nil
  then show ?case by (cases pl) (simp add: v1_entries_def v2_entries_def)
next
  case (Cons l ls)
  have ok: "cg_line_ok l" "list_all cg_line_ok ls" and dirs: "dirs_listed w r es [l]" "dirs_listed w r es ls"
    using Cons.prems by (auto simp: dirs_listed_def)
  have app: "v1_entries r (l # ls) = v1_entries r [l] @ v1_entries r ls"
    "v2_entries r es (l # ls) = v2_entries r es [l] @ v2_entries r es ls"
    by (simp_all add: v1_entries_def v2_entries_def)
  have step: "cgroup_loop w r pl (show_cg_line l # rest) = cgroup_loop w r
      \<lparr>pl_V1 = pl_V1 pl ++ map_of (rev (v1_entries r [l])), pl_V2 = pl_V2 pl ++ map_of (rev (v2_entries r es [l]))\<rparr> rest" for rest
  proof (cases l)
    case (V1Line n subs p)
    have "\<not> contains ''0::/'' (show_cg_line l)" using show_cg_line_unified[OF ok(1)] V1Line by blast
    moreover have "split_on (CHR '','') (join (CHR '','') subs) = subs"
      using ok(1) V1Line by (intro split_on_join) (auto simp: list_all_iff)
    ultimately show ?thesis
      using V1Line show_cg_line_fields[OF ok(1)]
      by (cases pl) (simp add: Let_def fold_add_v1 v1_entries_def v2_entries_def effective_path_def[symmetric]
          del: show_cg_line.simps contains.simps)
  next
    case (V2Line p)
    have "contains ''0::/'' (show_cg_line l)" using show_cg_line_unified[OF ok(1)] V2Line by blast
    then show ?thesis
      using V2Line show_cg_line_fields[OF ok(1)] dirs(1)
      by (cases pl) (simp add: Let_def fold_add_v2 v1_entries_def v2_entries_def effective_path_def[symmetric]
          dirs_listed_def os_ReadDir_def del: show_cg_line.simps contains.simps split: option.splits)
  qed
  show ?case by (simp only: list.map(2) step Cons.IH[OF ok(2) dirs(2)]) (simp add: app)
qed

lemma process_paths:
  assumes "list_all cg_line_ok ls" "dirs_listed w r es ls"
    and "file_of w (ResolveHostFS (rd_rootfsMountpoint r) (path_Join [''proc'', itoa pid, ''cgroup''])) =
      Inr (unlines (map show_cg_line ls))"
  shows "Reader_ProcessCgroupPaths w r pid =
    Ok \<lparr>pl_V1 = map_of (rev (v1_entries r ls)), pl_V2 = map_of (rev (v2_entries r es ls))\<rparr>"
proof -
  have "list_all is_line (map show_cg_line ls)" using assms(1) show_cg_line_line by (auto simp: list_all_iff)
  then show ?thesis
    using assms by (simp add: Reader_ProcessCgroupPaths_def os_ReadFile_def scan_lines_unlines cgroup_loop_lines)
qed


definition demo_reader :: Reader where
  "demo_reader = \<lparr>rd_rootfsMountpoint = demo_root, rd_ignoreRootCgroups = False, rd_cgroupsHierarchyOverride = [],
     rd_cgroupMountpoints = \<lparr>V1Mounts = [''cpu'' \<mapsto> ''/cg/cpu''], V2Loc = ''/cg/unified''\<rparr>\<rparr>"

definition demo_cg :: "cg_line list" where
  "demo_cg = [V1Line 4 [''cpu'', ''cpuacct''] ''/a'', V2Line ''/b'']"

definition demo_cg_env :: os_env where
  "demo_cg_env = (files_env [(path_Join [''proc'', itoa 7, ''cgroup''], unlines (map show_cg_line demo_cg))])
     \<lparr>dir_of := (\<lambda>_. Inr [\<lparr>ent_name = ''memory.stat'', ent_is_dir = False\<rparr>, \<lparr>ent_name = ''x'', ent_is_dir = True\<rparr>])\<rparr>"

lemma path_Join_abs: "path_Join (x # xs) = [] \<Longrightarrow> x \<noteq> [] \<Longrightarrow> False"
  by (simp add: path_Join_def path_Clean_def Let_def split: if_splits)


end
