(* ===== verification/Cgroup_Common.thy ===== *)
theory Cgroup_Common
  imports Go_Floats Resolve
begin

text \<open>
  \<open>metric/system/cgroup/cgcommon\<close>: the readers of single numbers, of \<open>key value\<close> lines and
  of pressure files that the controllers of both cgroup versions share. The locale
  \<open>kv_field\<close> is the interface between the line loop and a controller that stores some of
  the keys; what a controller's field holds after a well-formed file is proved once in it.
\<close>

section \<open>Numbers\<close>

definition ErrInvalidFormat :: go_error where
  "ErrInvalidFormat = Sentinel ''error invalid key/value format''"

definition ParseUint :: "string \<Rightarrow> u64 outcome" where
  "ParseUint val =
     (let strValue = trim_space val in
      case parse_uint strValue of
        Ok v \<Rightarrow> Ok v
      | Panic \<Rightarrow> Panic
      | Err err \<Rightarrow>
          (case parse_int strValue of
             (intValue, None) \<Rightarrow> if intValue < 0 then Ok 0 else Err err
           | (intValue, Some intErr) \<Rightarrow>
               if intErr = ErrRange \<and> intValue < 0 then Ok 0 else Err err))"

definition ParseUintFromFile :: "os_env \<Rightarrow> string list \<Rightarrow> u64 outcome" where
  "ParseUintFromFile w path =
     (case os_ReadFile w (path_Join path) of
        Ok v \<Rightarrow> ParseUint v
      | Err err \<Rightarrow> if os_IsNotExist err then Ok 0 else Err err
      | Panic \<Rightarrow> Panic)"

definition ParseCgroupParamKeyValue :: "string \<Rightarrow> (string \<times> u64) outcome" where
  "ParseCgroupParamKeyValue t =
     (let parts = Fields t in
      if length parts \<noteq> 2 then Err ErrInvalidFormat
      else and_then (wrap_err ''unable to convert param value to uint64'' (ParseUint (parts ! 1)))
             (\<lambda>v. Ok (parts ! 0, v)))"

text \<open>
  The loop the controllers write around it: a missing file is no error, a bad line ends
  the loop with its error, and the scanner's error comes last. \<open>set_key\<close> is the
  controller's \<open>switch\<close>.
\<close>

fun kv_loop :: "(string \<Rightarrow> u64 \<Rightarrow> 's \<Rightarrow> 's) \<Rightarrow> string list \<Rightarrow> 's \<Rightarrow> 's outcome" where
  "kv_loop set_key [] s = Ok s"
| "kv_loop set_key (line # rest) s =
     and_then (ParseCgroupParamKeyValue line) (\<lambda>(t, v). kv_loop set_key rest (set_key t v s))"

definition kv_file :: "os_env \<Rightarrow> string \<Rightarrow> (string \<Rightarrow> u64 \<Rightarrow> 's \<Rightarrow> 's) \<Rightarrow> 's \<Rightarrow> 's outcome" where
  "kv_file w file set_key s =
     (case os_ReadFile w file of
        Err err \<Rightarrow> if os_IsNotExist err then Ok s else Err err
      | Panic \<Rightarrow> Panic
      | Ok f \<Rightarrow> and_then (kv_loop set_key (scan_lines f) s)
          (\<lambda>s. case scan_err f of None \<Rightarrow> Ok s | Some e \<Rightarrow> Err e))"

section \<open>Data of the controllers\<close>

record CPUUsage =
  cu_NS :: u64
  cu_Pct :: "f64 option"
  cu_Norm :: "f64 option"

definition zeroCPUUsage :: CPUUsage where
  "zeroCPUUsage = \<lparr>cu_NS = 0, cu_Pct = None, cu_Norm = None\<rparr>"

record Pressure =
  pr_Ten :: f64
  pr_Sixty :: f64
  pr_ThreeHundred :: f64
  pr_Total :: "u64 option"

definition Pressure_IsZero :: "Pressure \<Rightarrow> bool" where
  "Pressure_IsZero p \<longleftrightarrow> pr_Total p = None"

section \<open>Pressure files\<close>

text \<open>
  \<open>fmt.Sscanf\<close> with the format of \<open>GetPressure\<close>. A blank of the format takes one or more
  blanks of the input, or its end; \<open>%s\<close> takes the longest run of other characters;
  \<open>%f\<close> takes the longest prefix that looks like a number and converts it.
\<close>

fun scan_literal :: "string \<Rightarrow> string \<Rightarrow> string outcome" where
  "scan_literal [] s = Ok s"
| "scan_literal (c # cs) s = and_then (scan_char c s) (scan_literal cs)"

definition scan_space :: "string \<Rightarrow> string outcome" where
  "scan_space s =
     (case s of
        [] \<Rightarrow> Ok []
      | c # _ \<Rightarrow> if is_blank c then Ok (skip_blanks s) else Err (Message ''expected space in input to match format''))"

definition scan_word :: "string \<Rightarrow> (string \<times> string) outcome" where
  "scan_word s =
     (let t = skip_blanks s in
      if t = [] then Err EOF
      else Ok (takeWhile (\<lambda>c. \<not> ascii_ws c) t, dropWhile (\<lambda>c. \<not> ascii_ws c) t))"

definition accept_run :: "(char \<Rightarrow> bool) \<Rightarrow> string \<times> string \<Rightarrow> string \<times> string" where
  "accept_run ok st = (fst st @ takeWhile ok (snd st), dropWhile ok (snd st))"

definition accept_one :: "(char \<Rightarrow> bool) \<Rightarrow> string \<times> string \<Rightarrow> bool \<times> string \<times> string" where
  "accept_one ok st =
     (case snd st of c # cs \<Rightarrow> if ok c then (True, fst st @ [c], cs) else (False, st) | [] \<Rightarrow> (False, st))"

fun accept_word :: "char list \<Rightarrow> string \<times> string \<Rightarrow> bool \<times> string \<times> string" where
  "accept_word [] st = (True, st)"
| "accept_word (x # xs) st =
     (case accept_one (\<lambda>c. lower_char c = x) st of
        (True, st') \<Rightarrow> accept_word xs st'
      | (False, st') \<Rightarrow> (False, st'))"

text \<open>The token of \<open>%f\<close>; a failed \<open>nan\<close> or \<open>inf\<close> keeps the letters it has taken.\<close>

definition float_token :: "string \<Rightarrow> string \<times> string" where
  "float_token s =
     (case accept_word ''nan'' ([], s) of
        (True, st) \<Rightarrow> st
      | (False, st) \<Rightarrow>
          (case accept_one (\<lambda>c. c = CHR ''+'' \<or> c = CHR ''-'') st of (_, st) \<Rightarrow>
           case accept_word ''inf'' st of
             (True, st) \<Rightarrow> st
           | (False, st) \<Rightarrow>
               (case accept_one (\<lambda>c. c = CHR ''0'') st of (zero, st) \<Rightarrow>
                case (if zero then accept_one (\<lambda>c. lower_char c = CHR ''x'') st else (False, st)) of (hex, st) \<Rightarrow>
                let dig = (\<lambda>c. is_digit c \<or> c = CHR ''_'' \<or> (hex \<and> is_hex_digit c));
                    st = accept_run dig st
                in case accept_one (\<lambda>c. c = CHR ''.'') st of (point, st) \<Rightarrow>
                   let st = (if point then accept_run dig st else st)
                   in case accept_one (\<lambda>c. lower_char c = CHR ''p'' \<or> (\<not> hex \<and> lower_char c = CHR ''e'')) st of
                        (False, st) \<Rightarrow> st
                      | (True, st) \<Rightarrow>
                          accept_run (\<lambda>c. is_digit c \<or> c = CHR ''_'')
                            (snd (accept_one (\<lambda>c. c = CHR ''+'' \<or> c = CHR ''-'') st)))))"

text \<open>A decimal mantissa with a \<open>p\<close> exponent is scaled by \<open>math.Ldexp\<close>.\<close>

fun ldexp :: "f64 \<Rightarrow> int \<Rightarrow> f64" where
  "ldexp (F64Fin s m) e = f64_round s (m * p2 e)"
| "ldexp x e = x"

definition convert_token :: "string \<Rightarrow> f64 outcome" where
  "convert_token str =
     (case index_of (CHR ''p'') str of
        Some p \<Rightarrow>
          if CHR ''x'' \<in> set str \<or> CHR ''X'' \<in> set str then parse_float str
          else and_then (parse_float (take p str)) (\<lambda>f.
               and_then (atoi (drop (Suc p) str)) (\<lambda>m. Ok (ldexp f m)))
      | None \<Rightarrow> parse_float str)"

definition scan_float :: "string \<Rightarrow> (f64 \<times> string) outcome" where
  "scan_float s =
     (let t = skip_blanks s in
      if t = [] then Err EOF
      else case float_token t of (tok, rest) \<Rightarrow> and_then (convert_token tok) (\<lambda>v. Ok (v, rest)))"

text \<open>One line; every conversion is made or there is an error, so the count is 5 without one.\<close>

definition scan_pressure :: "string \<Rightarrow> (string \<times> f64 \<times> f64 \<times> f64 \<times> u64) outcome" where
  "scan_pressure line =
     and_then (scan_word line) (\<lambda>(stallTime, r).
     and_then (and_then (scan_space r) (scan_literal ''avg10='')) (\<lambda>r.
     and_then (scan_float r) (\<lambda>(ten, r).
     and_then (and_then (scan_space r) (scan_literal ''avg60='')) (\<lambda>r.
     and_then (scan_float r) (\<lambda>(sixty, r).
     and_then (and_then (scan_space r) (scan_literal ''avg300='')) (\<lambda>r.
     and_then (scan_float r) (\<lambda>(three, r).
     and_then (and_then (scan_space r) (scan_literal ''total='')) (\<lambda>r.
     and_then (scan_uint r) (\<lambda>(total, _).
       Ok (stallTime, ten, sixty, three, total))))))))))"

fun pressure_loop :: "(string \<rightharpoonup> Pressure) \<Rightarrow> string list \<Rightarrow> (string \<rightharpoonup> Pressure) outcome" where
  "pressure_loop pressureData [] = Ok pressureData"
| "pressure_loop pressureData (text # rest) =
     and_then (wrap_err ''error scanning file'' (scan_pressure text))
       (\<lambda>(stallTime, ten, sixty, three, total).
          pressure_loop (pressureData(stallTime \<mapsto>
            \<lparr>pr_Ten = ten, pr_Sixty = sixty, pr_ThreeHundred = three, pr_Total = Some total\<rparr>)) rest)"

definition GetPressure :: "os_env \<Rightarrow> string \<Rightarrow> (string \<rightharpoonup> Pressure) outcome" where
  "GetPressure w path =
     and_then (os_ReadFile w path) (\<lambda>f. pressure_loop Map.empty (scan_lines f))"

section \<open>What the readers return\<close>

lemma parse_int_of_nat_range: "2 ^ 64 \<le> n \<Longrightarrow> parse_int (show_nat n) = (2 ^ 63 - 1, Some ErrRange)"
proof -
  assume n: "2 ^ 64 \<le> n"
  obtain c cs where c: "show_nat n = c # cs" by (meson neq_Nil_conv show_nat_nonempty)
  have "is_digit c" using hd_show_nat[of n] c by simp
  then show ?thesis using parse_uint_loop_show_range[OF n] c
    by (auto simp: parse_int_def parse_uint_nat_def digit_not_sign Let_def)
qed

lemma ParseUint_show: "ParseUint (show_nat (unat v)) = Ok v"
  using trim_number(1)[of "[]" "[]"] by (simp add: ParseUint_def)

lemma ParseUint_not_Panic [simp]: "ParseUint s \<noteq> Panic"
  by (auto simp: ParseUint_def Let_def split: outcome.splits prod.splits option.splits)

lemma ParseUint_negative:
  assumes "0 < n" "trim_space s = CHR ''-'' # show_nat n" shows "ParseUint s = Ok 0"
  using assms by (simp add: ParseUint_def parse_uint_signed parse_int_negative)

text \<open>
  \<open>ParseUint\<close> on a number with blanks around it: a number of 64 bits is read
  exactly, a larger one is a range error, and a negative one of any size is read as 0.
\<close>

theorem ParseUint_numbers:
  assumes "list_all ascii_ws a" "list_all ascii_ws b"
  shows "ParseUint (a @ show_nat n @ b) =
      (if n < 2 ^ 64 then Ok (of_nat n) else Err (NumError ErrRange)) \<and>
    (0 < n \<longrightarrow> ParseUint (a @ (CHR ''-'' # show_nat n) @ b) = Ok 0)"
proof
  show "ParseUint (a @ show_nat n @ b) =
      (if n < 2 ^ 64 then Ok (of_nat n) else Err (NumError ErrRange))"
    by (cases "n < 2 ^ 64")
      (simp_all add: ParseUint_def trim_number[OF assms] parse_uint_show_range parse_int_of_nat_range not_less)
  show "0 < n \<longrightarrow> ParseUint (a @ (CHR ''-'' # show_nat n) @ b) = Ok 0"
    using ParseUint_negative[OF _ trim_number(2)[OF assms]] by blast
qed

theorem ParseUint_numbers_witness:
  "ParseUint ([] @ show_nat 4096 @ [newline]) = Ok 4096 \<and>
   ParseUint ([] @ (CHR ''-'' # show_nat 1) @ [newline]) = Ok 0"
  using ParseUint_numbers[of "[]" "[newline]" 4096] ParseUint_numbers[of "[]" "[newline]" 1]
  by (simp add: newline_def)

section \<open>Files of keys and values\<close>

definition kv_line :: "string \<times> u64 \<Rightarrow> string" where
  "kv_line kv = fst kv @ CHR '' '' # show_nat (unat (snd kv))"

definition kv_ok :: "string \<times> u64 \<Rightarrow> bool" where
  "kv_ok kv \<longleftrightarrow> plain (fst kv) \<and> length (fst kv) < 1000"

definition kv_show :: "(string \<times> u64) list \<Rightarrow> string" where
  "kv_show kvs = unlines (map kv_line kvs)"

lemma ParseCgroupParamKeyValue_line: "kv_ok kv \<Longrightarrow> ParseCgroupParamKeyValue (kv_line kv) = Ok kv"
  by (cases kv)
    (simp add: ParseCgroupParamKeyValue_def kv_line_def kv_ok_def fields_token_ws fields_token show_nat_plain
      ParseUint_show)

lemma kv_line_is_line:
  assumes "kv_ok kv" shows "is_line (kv_line kv)"
proof (rule is_line_text)
  show "list_all text_char (kv_line kv)"
    using assms show_nat_plain[of "unat (snd kv)"]
    by (auto simp: kv_line_def kv_ok_def plain_def list_all_iff)
  show "length (kv_line kv) < max_scan_token"
    using assms length_show_u64[of "snd kv"] by (simp add: kv_line_def kv_ok_def max_scan_token_def)
qed

lemma kv_loop_lines:
  "list_all kv_ok kvs \<Longrightarrow> kv_loop f (map kv_line kvs) s = Ok (foldl (\<lambda>s (k, v). f k v s) s kvs)"
  by (induction kvs arbitrary: s) (auto simp: ParseCgroupParamKeyValue_line)

lemma kv_file_show:
  assumes "list_all kv_ok kvs" "file_of w file = Inr (kv_show kvs)"
  shows "kv_file w file f s = Ok (foldl (\<lambda>s (k, v). f k v s) s kvs)"
proof -
  have "list_all is_line (map kv_line kvs)" using assms(1) kv_line_is_line by (auto simp: list_all_iff)
  then show ?thesis
    using assms by (simp add: kv_file_def os_ReadFile_def kv_show_def scan_lines_unlines kv_loop_lines)
qed

lemma kv_file_missing: "file_of w file = Inl ENOENT \<Longrightarrow> kv_file w file f s = Ok s"
  by (simp add: kv_file_def os_ReadFile_def)

lemma kv_loop_not_Panic: "kv_loop f ls s \<noteq> Panic"
  by (induction ls arbitrary: s) (auto simp: go_outcome ParseCgroupParamKeyValue_def Let_def split: if_splits)

lemma kv_file_not_Panic [simp]: "kv_file w file f s \<noteq> Panic"
  by (auto simp: kv_file_def go_outcome kv_loop_not_Panic split: outcome.splits option.splits)

text \<open>
  The interface: a controller's \<open>switch\<close> stores the values of one key in one field,
  converted by \<open>conv\<close>, and leaves the field alone for every other key.
\<close>

locale kv_field =
  fixes set_key :: "string \<Rightarrow> u64 \<Rightarrow> 's \<Rightarrow> 's"
    and get :: "'s \<Rightarrow> 'a"
    and key :: string
    and conv :: "u64 \<Rightarrow> 'a"
  assumes get_set: "get (set_key k v s) = (if k = key then conv v else get s)"
begin

lemma get_fold: "get (foldl (\<lambda>s (k, v). set_key k v s) s kvs) =
    (case map_of (rev kvs) key of Some v \<Rightarrow> conv v | None \<Rightarrow> get s)"
  by (induction kvs arbitrary: s) (auto simp: get_set map_add_def split: option.splits)

lemma get_file:
  assumes "list_all kv_ok kvs" "file_of w file = Inr (kv_show kvs)" "kv_file w file set_key s = Ok s'"
  shows "get s' = (case map_of (rev kvs) key of Some v \<Rightarrow> conv v | None \<Rightarrow> get s)"
proof -
  have "s' = foldl (\<lambda>s (k, v). set_key k v s) s kvs" using kv_file_show[OF assms(1,2), of set_key s] assms(3) by simp
  then show ?thesis by (simp only: get_fold)
qed

lemma get_loop_unset:
  "kv_loop set_key ls s = Ok s' \<Longrightarrow> (\<And>l v. l \<in> set ls \<Longrightarrow> ParseCgroupParamKeyValue l \<noteq> Ok (key, v)) \<Longrightarrow>
     get s' = get s"
proof (induction ls arbitrary: s)
  case (Cons l ls)
  obtain t v where tv: "ParseCgroupParamKeyValue l = Ok (t, v)" "kv_loop set_key ls (set_key t v s) = Ok s'"
    using Cons.prems(1) by (auto simp: go_outcome)
  then have "get s' = get (set_key t v s)" using Cons by (metis list.set_intros(2))
  moreover have "t \<noteq> key" using Cons.prems(2)[of l v] tv(1) by auto
  ultimately show ?case by (simp add: get_set)
qed simp

end

section \<open>Pressure\<close>

text \<open>A line of a pressure file, with averages that are whole hundredths written as integers.\<close>

record stall =
  sl_name :: string
  sl_ten :: nat
  sl_sixty :: nat
  sl_three :: nat
  sl_total :: u64

definition stall_ok :: "stall \<Rightarrow> bool" where
  "stall_ok s \<longleftrightarrow> plain (sl_name s) \<and> length (sl_name s) < 1000 \<and>
     sl_ten s < 10 ^ 9 \<and> sl_sixty s < 10 ^ 9 \<and> sl_three s < 10 ^ 9"

definition show_stall :: "stall \<Rightarrow> string" where
  "show_stall s = sl_name s @ '' avg10='' @ show_nat (sl_ten s) @ '' avg60='' @ show_nat (sl_sixty s) @
     '' avg300='' @ show_nat (sl_three s) @ '' total='' @ show_nat (unat (sl_total s))"

definition pressure_of :: "stall \<Rightarrow> Pressure" where
  "pressure_of s = \<lparr>pr_Ten = F64Fin False (of_nat (sl_ten s)), pr_Sixty = F64Fin False (of_nat (sl_sixty s)),
     pr_ThreeHundred = F64Fin False (of_nat (sl_three s)), pr_Total = Some (sl_total s)\<rparr>"

lemma lower_digit: "is_digit c \<Longrightarrow> lower_char c = c"
  by (simp add: lower_char_def is_digit_def)

lemma digit_chars:
  "is_digit c \<Longrightarrow> c \<noteq> CHR ''n'' \<and> c \<noteq> CHR ''i'' \<and> c \<noteq> CHR ''x'' \<and> c \<noteq> CHR ''p'' \<and> c \<noteq> CHR ''+'' \<and> c \<noteq> CHR ''-''"
  by (auto simp: is_digit_def code_def)

lemma float_token_number:
  assumes "list_all is_digit ds" "ds \<noteq> []"
  shows "float_token (ds @ CHR '' '' # r) = (ds, CHR '' '' # r)"
proof -
  obtain c cs where ds: "ds = c # cs" using assms(2) by (cases ds) auto
  have c: "is_digit c" "list_all is_digit cs" using assms(1) ds by auto
  note cc = lower_digit[OF c(1)] digit_chars[OF c(1)]
  have sp: "\<not> is_digit (CHR '' '')" "lower_char (CHR '' '') = CHR '' ''" "\<not> is_hex_digit (CHR '' '')"
    by (simp_all add: is_digit_def code_def lower_char_def is_hex_digit_def)
  have tw: "takeWhile P (xs @ CHR '' '' # r) = xs" "dropWhile P (xs @ CHR '' '' # r) = CHR '' '' # r"
    if "\<And>x. is_digit x \<Longrightarrow> P x" "\<not> P (CHR '' '')" "list_all is_digit xs" for P xs
    using that by (auto simp: list_all_iff takeWhile_append dropWhile_append)
  show ?thesis
  proof (cases "c = CHR ''0''")
    case zero: True
    have x: "accept_one (\<lambda>c. lower_char c = CHR ''x'') (p, cs @ CHR '' '' # r) = (False, p, cs @ CHR '' '' # r)" for p
      using c(2) digit_chars lower_digit by (cases cs) (auto simp: accept_one_def sp)
    show ?thesis using cc x[of "''0''"] tw[OF _ _ c(2)]
      by (simp add: ds zero float_token_def accept_one_def[of _ "([], _)"] accept_run_def sp Let_def)
        (simp add: accept_one_def sp)
  next
    case False
    then show ?thesis using cc c(1) tw[OF _ _ c(2)]
      by (simp add: ds float_token_def accept_one_def accept_run_def sp Let_def)
  qed
qed

lemma scan_float_number:
  assumes "n < 10 ^ 9"
  shows "scan_float (show_nat n @ CHR '' '' # r) = Ok (F64Fin False (of_nat n), CHR '' '' # r)"
proof -
  have d: "list_all is_digit (show_nat n)" by (rule show_nat_digits)
  have "CHR ''p'' \<notin> set (show_nat n)" using d digit_chars by (auto simp: list_all_iff)
  then have "convert_token (show_nat n) = Ok (F64Fin False (of_nat n))"
    using assms by (simp add: convert_token_def index_of_None[THEN iffD2] parse_float_show)
  then show ?thesis
    using skip_blanks_show_nat[of n "CHR '' '' # r"] float_token_number[OF d show_nat_nonempty, of r]
    by (simp add: scan_float_def)
qed

lemma scan_word_token:
  assumes "plain t" shows "scan_word (t @ CHR '' '' # r) = Ok (t, CHR '' '' # r)"
proof -
  have ws: "\<And>x. x \<in> set t \<Longrightarrow> \<not> ascii_ws x" using assms by (auto simp: plain_def list_all_iff plain_not_ws)
  have "skip_blanks (t @ CHR '' '' # r) = t @ CHR '' '' # r"
    using assms ws by (cases t) (auto simp: skip_blanks_def is_blank_def plain_def)
  moreover have "takeWhile (\<lambda>c. \<not> ascii_ws c) (t @ CHR '' '' # r) = t"
    "dropWhile (\<lambda>c. \<not> ascii_ws c) (t @ CHR '' '' # r) = CHR '' '' # r"
    using ws by (simp_all add: takeWhile_append dropWhile_append)
  ultimately show ?thesis by (simp add: scan_word_def)
qed

lemma space_literal:
  assumes "c \<noteq> CHR '' ''" "\<not> is_blank c" "l = c # cs"
  shows "and_then (scan_space (CHR '' '' # l @ r)) (scan_literal l) = Ok r"
proof -
  have "is_blank (CHR '' '')" by (simp add: is_blank_def)
  moreover have "scan_literal l (l @ r) = Ok r" by (induction l) (simp_all add: scan_char_def)
  ultimately show ?thesis using assms by (simp add: scan_space_def skip_blanks_def)
qed

lemma not_blank_at: "\<not> is_blank (CHR ''a'')" "\<not> is_blank (CHR ''t'')"
  by (simp_all add: is_blank_def ascii_ws_def code_def)

lemma scan_pressure_stall:
  assumes "stall_ok s"
  shows "scan_pressure (show_stall s) = Ok (sl_name s, F64Fin False (of_nat (sl_ten s)),
    F64Fin False (of_nat (sl_sixty s)), F64Fin False (of_nat (sl_three s)), sl_total s)"
proof -
  note lit = space_literal[OF _ not_blank_at(1), of "''avg10=''"] space_literal[OF _ not_blank_at(1), of "''avg60=''"]
    space_literal[OF _ not_blank_at(1), of "''avg300=''"] space_literal[OF _ not_blank_at(2), of "''total=''"]
  have u: "scan_uint (show_nat (unat (sl_total s))) = Ok (sl_total s, [])"
    using scan_uint_show[OF unat_u64_bound, of "[]" "sl_total s"] by simp
  show ?thesis
    using assms lit[simplified] unfolding stall_ok_def
    by (simp add: scan_pressure_def show_stall_def scan_word_token scan_float_number u)
qed

lemma show_stall_line:
  assumes "stall_ok s" shows "is_line (show_stall s)"
proof (rule is_line_text)
  have n: "list_all plain_char (show_nat n)" for n using show_nat_plain[of n] by (simp add: plain_def)
  have l: "length (show_nat n) \<le> 9" if "n < 10 ^ 9" for n using that by (intro length_show_nat) auto
  have t: "list_all text_char '' avg10=''" "list_all text_char '' avg60=''" "list_all text_char '' avg300=''"
    "list_all text_char '' total=''"
    by (simp_all add: text_char_def plain_char_def code_def)
  have p: "list_all text_char xs" if "list_all plain_char xs" for xs using that by (auto simp: list_all_iff)
  show "list_all text_char (show_stall s)"
    unfolding show_stall_def list_all_append using assms
    by (intro conjI t p n) (simp add: stall_ok_def plain_def)
  have "length (show_nat (sl_ten s)) \<le> 9" "length (show_nat (sl_sixty s)) \<le> 9"
    "length (show_nat (sl_three s)) \<le> 9" using assms by (auto simp: stall_ok_def intro!: l)
  then show "length (show_stall s) < max_scan_token"
    using assms length_show_u64[of "sl_total s"] by (simp add: show_stall_def stall_ok_def max_scan_token_def)
qed

lemma pressure_loop_stalls:
  "list_all stall_ok ss \<Longrightarrow> pressure_loop m (map show_stall ss) =
     Ok (foldl (\<lambda>m s. m(sl_name s \<mapsto> pressure_of s)) m ss)"
  by (induction ss arbitrary: m) (simp_all add: scan_pressure_stall pressure_of_def del: fun_upd_apply)

text \<open>
  A pressure file of the kernel's layout is read to its lines: each name maps to
  the averages and the total of its last line.
\<close>

theorem GetPressure_stalls:
  assumes "list_all stall_ok ss" "file_of w path = Inr (unlines (map show_stall ss))"
  shows "\<exists>m. GetPressure w path = Ok m \<and> dom m = sl_name ` set ss \<and>
    (\<forall>s \<in> set ss. distinct (map sl_name ss) \<longrightarrow> m (sl_name s) = Some (pressure_of s))"
proof -
  let ?m = "foldl (\<lambda>m s. m(sl_name s \<mapsto> pressure_of s)) Map.empty ss"
  have "list_all is_line (map show_stall ss)" using assms(1) show_stall_line by (auto simp: list_all_iff)
  then have "GetPressure w path = Ok ?m"
    using assms by (simp add: GetPressure_def os_ReadFile_def scan_lines_unlines pressure_loop_stalls)
  moreover have "dom ?m = sl_name ` set ss" by (simp add: map_upds_dom_foldl)
  moreover have "foldl (\<lambda>m s. m(sl_name s \<mapsto> pressure_of s)) m ss (sl_name s) = Some (pressure_of s)"
    if "s \<in> set ss" "distinct (map sl_name ss)" for s m
    using that
  proof (induction ss arbitrary: m)
    case (Cons t ss)
    have keep: "foldl (\<lambda>m s. m(sl_name s \<mapsto> pressure_of s)) m xs k = m k" if "k \<notin> sl_name ` set xs" for m xs k
      using that by (induction xs arbitrary: m) auto
    show ?case
    proof (cases "s = t")
      case True
      then show ?thesis using Cons.prems by (simp add: keep[of "sl_name t" ss] del: fun_upd_apply) simp
    next
      case False
      then show ?thesis using Cons by (simp del: fun_upd_apply)
    qed
  qed simp
  ultimately show ?thesis by blast
qed

theorem GetPressure_stalls_witness:
  "\<exists>m. GetPressure (files_env [(''/cg/io.pressure'', unlines (map show_stall
        [\<lparr>sl_name = ''some'', sl_ten = 10, sl_sixty = 5, sl_three = 1, sl_total = 77\<rparr>]))]) ''/cg/io.pressure'' = Ok m \<and>
      dom m = {''some''}"
  using GetPressure_stalls[of "[\<lparr>sl_name = ''some'', sl_ten = 10, sl_sixty = 5, sl_three = 1, sl_total = 77\<rparr>]"
      "files_env [(''/cg/io.pressure'', unlines (map show_stall
        [\<lparr>sl_name = ''some'', sl_ten = 10, sl_sixty = 5, sl_three = 1, sl_total = 77\<rparr>]))]" "''/cg/io.pressure''"]
  by (auto simp: stall_ok_def plain_def plain_char_def code_def files_env_def)

end
