(* ===== verification/Cgroup_V1.thy ===== *)
theory Cgroup_V1
  imports Cgroup_Common
begin

text \<open>
  \<open>metric/system/cgroup/cgv1\<close>: the cpu, cpuacct, memory and blkio controllers of version 1.
  Each \<open>Get\<close> method fills its receiver from the files of one directory; the model
  returns the receiver it leaves, and drops a partly filled one when there is an error,
  as the callers do. The clock ticks of cpuacct come from gosigar and are an argument,
  the order of Go's iteration over the maps of blkio another. Proved: what each field
  holds after reading well-formed files, and that the block I/O totals are the sums over
  the devices in every order of iteration.
\<close>

section \<open>cpu\<close>

record ThrottledField =
  th_Us :: u64
  th_Periods :: u64

record CPUStats =
  cs_Periods :: u64
  cs_Throttled :: ThrottledField

record CFS =
  cfs_PeriodMicros :: u64
  cfs_QuotaMicros :: u64
  cfs_Shares :: u64

record RT =
  rt_Period :: u64
  rt_Runtime :: u64

record CPUSubsystem =
  cpus_ID :: string
  cpus_Path :: string
  cpus_CFS :: CFS
  cpus_RT :: RT
  cpus_Stats :: CPUStats

definition cpuStat_set :: "string \<Rightarrow> u64 \<Rightarrow> CPUStats \<Rightarrow> CPUStats" where
  "cpuStat_set t v s =
     (if t = ''nr_periods'' then s\<lparr>cs_Periods := v\<rparr>
      else if t = ''nr_throttled'' then s\<lparr>cs_Throttled := (cs_Throttled s)\<lparr>th_Periods := v\<rparr>\<rparr>
      else if t = ''throttled_time'' then s\<lparr>cs_Throttled := (cs_Throttled s)\<lparr>th_Us := v\<rparr>\<rparr>
      else s)"

definition cpuStat :: "os_env \<Rightarrow> string \<Rightarrow> CPUSubsystem \<Rightarrow> CPUSubsystem outcome" where
  "cpuStat w path cpu =
     and_then (kv_file w (path_Join [path, ''cpu.stat'']) cpuStat_set (cpus_Stats cpu))
       (\<lambda>st. Ok (cpu\<lparr>cpus_Stats := st\<rparr>))"

definition cpuCFS :: "os_env \<Rightarrow> string \<Rightarrow> CPUSubsystem \<Rightarrow> CPUSubsystem outcome" where
  "cpuCFS w path cpu =
     and_then (ParseUintFromFile w [path, ''cpu.cfs_period_us'']) (\<lambda>period.
     and_then (ParseUintFromFile w [path, ''cpu.cfs_quota_us'']) (\<lambda>quota.
     and_then (ParseUintFromFile w [path, ''cpu.shares'']) (\<lambda>shares.
       Ok (cpu\<lparr>cpus_CFS := \<lparr>cfs_PeriodMicros = period, cfs_QuotaMicros = quota, cfs_Shares = shares\<rparr>\<rparr>))))"

definition cpuRT :: "os_env \<Rightarrow> string \<Rightarrow> CPUSubsystem \<Rightarrow> CPUSubsystem outcome" where
  "cpuRT w path cpu =
     and_then (ParseUintFromFile w [path, ''cpu.rt_period_us'']) (\<lambda>period.
     and_then (ParseUintFromFile w [path, ''cpu.rt_runtime_us'']) (\<lambda>runtime.
       Ok (cpu\<lparr>cpus_RT := \<lparr>rt_Period = period, rt_Runtime = runtime\<rparr>\<rparr>)))"

definition CPUSubsystem_Get :: "os_env \<Rightarrow> string \<Rightarrow> CPUSubsystem \<Rightarrow> CPUSubsystem outcome" where
  "CPUSubsystem_Get w path cpu =
     and_then (wrap_err ''error fetching CFS data'' (cpuCFS w path cpu)) (\<lambda>cpu.
     and_then (wrap_err ''error fetching RT data'' (cpuRT w path cpu)) (\<lambda>cpu.
       wrap_err ''error fetching CPU stats'' (cpuStat w path cpu)))"

section \<open>cpuacct\<close>

record CPUAccountingStats =
  ca_User :: CPUUsage
  ca_System :: CPUUsage

record CPUAccountingSubsystem =
  acct_ID :: string
  acct_Path :: string
  acct_Total :: CPUUsage
  acct_UsagePerCPU :: "string \<rightharpoonup> u64"
  acct_Stats :: CPUAccountingStats

text \<open>
  The multiplication wraps at 64 bits. The number of clock ticks per second is positive;
  in Go a zero would be a division by zero, in HOL it gives 0.
\<close>

definition convertJiffiesToNanos :: "u64 \<Rightarrow> u64 \<Rightarrow> u64" where
  "convertJiffiesToNanos clockTicks j = (j * 1000000000) div clockTicks"

definition cpuacct_set :: "u64 \<Rightarrow> string \<Rightarrow> u64 \<Rightarrow> CPUAccountingStats \<Rightarrow> CPUAccountingStats" where
  "cpuacct_set clockTicks t v s =
     (if t = ''user'' then s\<lparr>ca_User := (ca_User s)\<lparr>cu_NS := convertJiffiesToNanos clockTicks v\<rparr>\<rparr>
      else if t = ''system'' then s\<lparr>ca_System := (ca_System s)\<lparr>cu_NS := convertJiffiesToNanos clockTicks v\<rparr>\<rparr>
      else s)"

definition cpuacctStat :: "u64 \<Rightarrow> os_env \<Rightarrow> string \<Rightarrow> CPUAccountingSubsystem \<Rightarrow> CPUAccountingSubsystem outcome" where
  "cpuacctStat clockTicks w path cpuacct =
     and_then (kv_file w (path_Join [path, ''cpuacct.stat'']) (cpuacct_set clockTicks) (acct_Stats cpuacct))
       (\<lambda>st. Ok (cpuacct\<lparr>acct_Stats := st\<rparr>))"

definition cpuacctUsage :: "os_env \<Rightarrow> string \<Rightarrow> CPUAccountingSubsystem \<Rightarrow> CPUAccountingSubsystem outcome" where
  "cpuacctUsage w path cpuacct =
     and_then (ParseUintFromFile w [path, ''cpuacct.usage''])
       (\<lambda>ns. Ok (cpuacct\<lparr>acct_Total := (acct_Total cpuacct)\<lparr>cu_NS := ns\<rparr>\<rparr>))"

fun percpu_loop :: "nat \<Rightarrow> (string \<rightharpoonup> u64) \<Rightarrow> string list \<Rightarrow> (string \<rightharpoonup> u64) outcome" where
  "percpu_loop cpu vals [] = Ok vals"
| "percpu_loop cpu vals (usage # rest) =
     and_then (ParseUint usage) (\<lambda>v. percpu_loop (Suc cpu) (vals(show_nat (cpu + 1) \<mapsto> v)) rest)"

definition cpuacctUsagePerCPU :: "os_env \<Rightarrow> string \<Rightarrow> CPUAccountingSubsystem \<Rightarrow> CPUAccountingSubsystem outcome" where
  "cpuacctUsagePerCPU w path cpuacct =
     (case os_ReadFile w (path_Join [path, ''cpuacct.usage_percpu'']) of
        Err err \<Rightarrow> if os_IsNotExist err then Ok cpuacct else Err err
      | Panic \<Rightarrow> Panic
      | Ok contents \<Rightarrow>
          and_then (percpu_loop 0 Map.empty (Fields contents))
            (\<lambda>vals. Ok (cpuacct\<lparr>acct_UsagePerCPU := vals\<rparr>)))"

definition CPUAccountingSubsystem_Get ::
  "u64 \<Rightarrow> os_env \<Rightarrow> string \<Rightarrow> CPUAccountingSubsystem \<Rightarrow> CPUAccountingSubsystem outcome" where
  "CPUAccountingSubsystem_Get clockTicks w path cpuacct =
     (let cpuacct = cpuacct\<lparr>acct_UsagePerCPU := Map.empty\<rparr> in
      and_then (wrap_err ''error fetching cpuacct stats'' (cpuacctStat clockTicks w path cpuacct)) (\<lambda>cpuacct.
      and_then (wrap_err ''error fetching cpuacct usage'' (cpuacctUsage w path cpuacct)) (\<lambda>cpuacct.
        wrap_err ''error fetching per_cpu data'' (cpuacctUsagePerCPU w path cpuacct))))"

section \<open>memory\<close>

record MemSubsystemUsage =
  mu_Bytes :: u64
  mu_Max :: u64

record MemoryData =
  md_Usage :: MemSubsystemUsage
  md_Limit :: u64
  md_Failures :: u64

record MemoryStat =
  ms_Cache :: u64
  ms_RSS :: u64
  ms_RSSHuge :: u64
  ms_MappedFile :: u64
  ms_PagesIn :: u64
  ms_PagesOut :: u64
  ms_PageFaults :: u64
  ms_MajorPageFaults :: u64
  ms_Swap :: u64
  ms_ActiveAnon :: u64
  ms_InactiveAnon :: u64
  ms_ActiveFile :: u64
  ms_InactiveFile :: u64
  ms_Unevictable :: u64
  ms_HierarchicalMemoryLimit :: u64
  ms_HierarchicalMemswLimit :: u64

record MemorySubsystem =
  mems_ID :: string
  mems_Path :: string
  mems_Mem :: MemoryData
  mems_MemSwap :: MemoryData
  mems_Kernel :: MemoryData
  mems_KernelTCP :: MemoryData
  mems_Stats :: MemoryStat

definition memoryData :: "os_env \<Rightarrow> string \<Rightarrow> string \<Rightarrow> MemoryData outcome" where
  "memoryData w path pfx =
     and_then (wrap_err ''error fetching usage_in_bytes''
       (ParseUintFromFile w [path, pfx @ ''.usage_in_bytes''])) (\<lambda>usage.
     and_then (wrap_err ''error fetching max_usage_in_bytes''
       (ParseUintFromFile w [path, pfx @ ''.max_usage_in_bytes''])) (\<lambda>maxUsage.
     and_then (wrap_err ''error fetching limit_in_bytes''
       (ParseUintFromFile w [path, pfx @ ''.limit_in_bytes''])) (\<lambda>limit.
     and_then (wrap_err ''error fetching failcnt''
       (ParseUintFromFile w [path, pfx @ ''.failcnt''])) (\<lambda>failures.
       Ok \<lparr>md_Usage = \<lparr>mu_Bytes = usage, mu_Max = maxUsage\<rparr>, md_Limit = limit, md_Failures = failures\<rparr>))))"

definition memoryStats_set :: "string \<Rightarrow> u64 \<Rightarrow> MemoryStat \<Rightarrow> MemoryStat" where
  "memoryStats_set t v s =
     (if t = ''cache'' then s\<lparr>ms_Cache := v\<rparr>
      else if t = ''rss'' then s\<lparr>ms_RSS := v\<rparr>
      else if t = ''rss_huge'' then s\<lparr>ms_RSSHuge := v\<rparr>
      else if t = ''mapped_file'' then s\<lparr>ms_MappedFile := v\<rparr>
      else if t = ''pgpgin'' then s\<lparr>ms_PagesIn := v\<rparr>
      else if t = ''pgpgout'' then s\<lparr>ms_PagesOut := v\<rparr>
      else if t = ''pgfault'' then s\<lparr>ms_PageFaults := v\<rparr>
      else if t = ''pgmajfault'' then s\<lparr>ms_MajorPageFaults := v\<rparr>
      else if t = ''swap'' then s\<lparr>ms_Swap := v\<rparr>
      else if t = ''active_anon'' then s\<lparr>ms_ActiveAnon := v\<rparr>
      else if t = ''inactive_anon'' then s\<lparr>ms_InactiveAnon := v\<rparr>
      else if t = ''active_file'' then s\<lparr>ms_ActiveFile := v\<rparr>
      else if t = ''inactive_file'' then s\<lparr>ms_InactiveFile := v\<rparr>
      else if t = ''unevictable'' then s\<lparr>ms_Unevictable := v\<rparr>
      else if t = ''hierarchical_memory_limit'' then s\<lparr>ms_HierarchicalMemoryLimit := v\<rparr>
      else if t = ''hierarchical_memsw_limit'' then s\<lparr>ms_HierarchicalMemswLimit := v\<rparr>
      else s)"

definition memoryStats :: "os_env \<Rightarrow> string \<Rightarrow> MemorySubsystem \<Rightarrow> MemorySubsystem outcome" where
  "memoryStats w path mem =
     and_then (kv_file w (path_Join [path, ''memory.stat'']) memoryStats_set (mems_Stats mem))
       (\<lambda>st. Ok (mem\<lparr>mems_Stats := st\<rparr>))"

definition MemorySubsystem_Get :: "os_env \<Rightarrow> string \<Rightarrow> MemorySubsystem \<Rightarrow> MemorySubsystem outcome" where
  "MemorySubsystem_Get w path mem =
     and_then (wrap_err ''error fetching memory stats'' (memoryData w path ''memory'')) (\<lambda>d.
     and_then (wrap_err ''error fetching memsw stats'' (memoryData w path ''memory.memsw'')) (\<lambda>sw.
     and_then (wrap_err ''error fetching kmem stats'' (memoryData w path ''memory.kmem'')) (\<lambda>k.
     and_then (wrap_err ''error fetching kmem.tcp stats'' (memoryData w path ''memory.kmem.tcp'')) (\<lambda>tcp.
       wrap_err ''error fetching memory.stat metrics''
         (memoryStats w path (mem\<lparr>mems_Mem := d, mems_MemSwap := sw, mems_Kernel := k, mems_KernelTCP := tcp\<rparr>))))))"

section \<open>blkio\<close>

datatype DeviceID = DeviceID (Major: u64) (Minor: u64)

instantiation DeviceID :: linorder
begin

definition less_eq_DeviceID :: "DeviceID \<Rightarrow> DeviceID \<Rightarrow> bool" where
  "less_eq_DeviceID a b \<longleftrightarrow> Major a < Major b \<or> (Major a = Major b \<and> Minor a \<le> Minor b)"

definition less_DeviceID :: "DeviceID \<Rightarrow> DeviceID \<Rightarrow> bool" where
  "less_DeviceID a b \<longleftrightarrow> Major a < Major b \<or> (Major a = Major b \<and> Minor a < Minor b)"

instance
  by standard (auto simp: less_eq_DeviceID_def less_DeviceID_def DeviceID.expand)

end

record OperationValues =
  ov_Read :: u64
  ov_Write :: u64
  ov_Async :: u64
  ov_Sync :: u64

record ThrottleDevice =
  td_DeviceID :: DeviceID
  td_ReadLimitBPS :: u64
  td_WriteLimitBPS :: u64
  td_ReadLimitIOPS :: u64
  td_WriteLimitIOPS :: u64
  td_Bytes :: OperationValues
  td_IOs :: OperationValues

record TotalIOs =
  tio_Bytes :: u64
  tio_Ios :: u64

record BlockIOSubsystem =
  blk_ID :: string
  blk_Path :: string
  blk_Total :: TotalIOs

record blkioValue =
  bv_DeviceID :: DeviceID
  bv_Operation :: string
  bv_Value :: u64

definition zeroOps :: OperationValues where
  "zeroOps = \<lparr>ov_Read = 0, ov_Write = 0, ov_Async = 0, ov_Sync = 0\<rparr>"

definition zeroThrottle :: "DeviceID \<Rightarrow> ThrottleDevice" where
  "zeroThrottle did = \<lparr>td_DeviceID = did, td_ReadLimitBPS = 0, td_WriteLimitBPS = 0, td_ReadLimitIOPS = 0, td_WriteLimitIOPS = 0,
     td_Bytes = zeroOps, td_IOs = zeroOps\<rparr>"

text \<open>\<open>strings.FieldsFunc\<close> with \<open>isColonOrSpace\<close>: colons separate as blanks do.\<close>

definition colon_fields :: "string \<Rightarrow> string list" where
  "colon_fields line = Fields (map (\<lambda>c. if c = CHR '':'' then CHR '' '' else c) line)"

definition parseBlkioValue :: "string \<Rightarrow> blkioValue outcome" where
  "parseBlkioValue line =
     (let fs = colon_fields line in
      if length fs \<noteq> 3 \<and> length fs \<noteq> 4 then Err ErrInvalidFormat
      else
        and_then (parse_uint (fs ! 0)) (\<lambda>major.
        and_then (parse_uint (fs ! 1)) (\<lambda>minor.
          if length fs = 3 then
            and_then (ParseUint (fs ! 2)) (\<lambda>v.
              Ok \<lparr>bv_DeviceID = DeviceID major minor, bv_Operation = [], bv_Value = v\<rparr>)
          else
            and_then (ParseUint (fs ! 3)) (\<lambda>v.
              Ok \<lparr>bv_DeviceID = DeviceID major minor, bv_Operation = to_lower (fs ! 2), bv_Value = v\<rparr>))))"

text \<open>\<open>unicode.IsNumber\<close> of a byte taken as a rune: digits, superscripts and fractions of Latin-1.\<close>

definition is_number :: "char \<Rightarrow> bool" where
  "is_number c \<longleftrightarrow> is_digit c \<or> code c \<in> {178, 179, 185, 188, 189, 190}"

fun blkio_loop :: "blkioValue list \<Rightarrow> string list \<Rightarrow> blkioValue list outcome" where
  "blkio_loop vals [] = Ok vals"
| "blkio_loop vals (text # rest) =
     (let line = trim_space text in
      if length line = 0 then blkio_loop vals rest
      else if \<not> is_number (hd line) then blkio_loop vals rest
      else and_then (parseBlkioValue text) (\<lambda>v. blkio_loop (vals @ [v]) rest))"

text \<open>\<open>None\<close> is the \<open>nil\<close> slice of a missing file; ranging over it does nothing.\<close>

definition readBlkioValues :: "os_env \<Rightarrow> string list \<Rightarrow> blkioValue list outcome" where
  "readBlkioValues w path =
     (case os_ReadFile w (path_Join path) of
        Err err \<Rightarrow> if os_IsNotExist err then Ok [] else Err err
      | Panic \<Rightarrow> Panic
      | Ok f \<Rightarrow> and_then (blkio_loop [] (scan_lines f))
          (\<lambda>vals. case scan_err f of None \<Rightarrow> Ok vals | Some e \<Rightarrow> Err e))"

definition set_op :: "string \<Rightarrow> u64 \<Rightarrow> OperationValues \<Rightarrow> OperationValues" where
  "set_op oper v ov =
     (if oper = ''read'' then ov\<lparr>ov_Read := v\<rparr>
      else if oper = ''write'' then ov\<lparr>ov_Write := v\<rparr>
      else if oper = ''async'' then ov\<lparr>ov_Async := v\<rparr>
      else if oper = ''sync'' then ov\<lparr>ov_Sync := v\<rparr>
      else ov)"

fun collect_loop :: "(DeviceID \<rightharpoonup> OperationValues) \<Rightarrow> blkioValue list \<Rightarrow> (DeviceID \<rightharpoonup> OperationValues)" where
  "collect_loop ops [] = ops"
| "collect_loop ops (bv # rest) =
     collect_loop (ops(bv_DeviceID bv \<mapsto>
       set_op (bv_Operation bv) (bv_Value bv) (valueOr zeroOps (ops (bv_DeviceID bv))))) rest"

definition collectOpValues :: "blkioValue list \<Rightarrow> (DeviceID \<rightharpoonup> OperationValues)" where
  "collectOpValues vals = collect_loop Map.empty vals"

text \<open>\<open>getDevice(did)\<close> followed by an assignment to a field of the device.\<close>

definition on_device ::
  "DeviceID \<Rightarrow> (ThrottleDevice \<Rightarrow> ThrottleDevice) \<Rightarrow> (DeviceID \<rightharpoonup> ThrottleDevice) \<Rightarrow> (DeviceID \<rightharpoonup> ThrottleDevice)" where
  "on_device did f devices = devices(did \<mapsto> f (valueOr (zeroThrottle did) (devices did)))"

definition store_ops ::
  "((DeviceID \<rightharpoonup> OperationValues) \<Rightarrow> DeviceID list) \<Rightarrow> (OperationValues \<Rightarrow> ThrottleDevice \<Rightarrow> ThrottleDevice) \<Rightarrow>
   (DeviceID \<rightharpoonup> OperationValues) \<Rightarrow> (DeviceID \<rightharpoonup> ThrottleDevice) \<Rightarrow> (DeviceID \<rightharpoonup> ThrottleDevice)" where
  "store_ops order put ops devices =
     foldl (\<lambda>devices did. on_device did (put (the (ops did))) devices) devices (order ops)"

definition store_limits ::
  "(u64 \<Rightarrow> ThrottleDevice \<Rightarrow> ThrottleDevice) \<Rightarrow> blkioValue list \<Rightarrow>
   (DeviceID \<rightharpoonup> ThrottleDevice) \<Rightarrow> (DeviceID \<rightharpoonup> ThrottleDevice)" where
  "store_limits put vals devices =
     foldl (\<lambda>devices bv. on_device (bv_DeviceID bv) (put (bv_Value bv)) devices) devices vals"

definition add_device :: "TotalIOs \<Rightarrow> ThrottleDevice \<Rightarrow> TotalIOs" where
  "add_device tot dev =
     \<lparr>tio_Bytes = tio_Bytes tot + (ov_Read (td_Bytes dev) + ov_Write (td_Bytes dev)),
      tio_Ios = tio_Ios tot + (ov_Read (td_IOs dev) + ov_Write (td_IOs dev))\<rparr>"

definition blkioThrottle ::
  "((DeviceID \<rightharpoonup> OperationValues) \<Rightarrow> DeviceID list) \<Rightarrow> ((DeviceID \<rightharpoonup> ThrottleDevice) \<Rightarrow> DeviceID list) \<Rightarrow>
   os_env \<Rightarrow> string \<Rightarrow> BlockIOSubsystem \<Rightarrow> BlockIOSubsystem outcome" where
  "blkioThrottle order_ops order_devs w path blkio =
     and_then (wrap_err ''error reading blkio.throttle.io_service_bytes''
       (readBlkioValues w [path, ''blkio.throttle.io_service_bytes''])) (\<lambda>vals.
     let devices = store_ops order_ops (\<lambda>ov d. d\<lparr>td_Bytes := ov\<rparr>) (collectOpValues vals) Map.empty in
     and_then (wrap_err ''error reading blkio.throttle.io_serviced''
       (readBlkioValues w [path, ''blkio.throttle.io_serviced''])) (\<lambda>vals.
     let devices = store_ops order_ops (\<lambda>ov d. d\<lparr>td_IOs := ov\<rparr>) (collectOpValues vals) devices in
     and_then (wrap_err ''error reading blkio.throttle.read_bps_device''
       (readBlkioValues w [path, ''blkio.throttle.read_bps_device''])) (\<lambda>vals.
     let devices = store_limits (\<lambda>v d. d\<lparr>td_ReadLimitBPS := v\<rparr>) vals devices in
     and_then (wrap_err ''error reading blkio.throttle.write_bps_device''
       (readBlkioValues w [path, ''blkio.throttle.write_bps_device''])) (\<lambda>vals.
     let devices = store_limits (\<lambda>v d. d\<lparr>td_WriteLimitBPS := v\<rparr>) vals devices in
     and_then (wrap_err ''error reading blkio.throttle.read_iops_device''
       (readBlkioValues w [path, ''blkio.throttle.read_iops_device''])) (\<lambda>vals.
     let devices = store_limits (\<lambda>v d. d\<lparr>td_ReadLimitIOPS := v\<rparr>) vals devices in
     and_then (wrap_err ''error reading blkio.throttle.write_iops_device''
       (readBlkioValues w [path, ''blkio.throttle.write_iops_device''])) (\<lambda>vals.
     let devices = store_limits (\<lambda>v d. d\<lparr>td_WriteLimitIOPS := v\<rparr>) vals devices in
       Ok (blkio\<lparr>blk_Total :=
         foldl (\<lambda>tot did. add_device tot (the (devices did))) (blk_Total blkio) (order_devs devices)\<rparr>)))))))"

definition BlockIOSubsystem_Get ::
  "((DeviceID \<rightharpoonup> OperationValues) \<Rightarrow> DeviceID list) \<Rightarrow> ((DeviceID \<rightharpoonup> ThrottleDevice) \<Rightarrow> DeviceID list) \<Rightarrow>
   os_env \<Rightarrow> string \<Rightarrow> BlockIOSubsystem \<Rightarrow> BlockIOSubsystem outcome" where
  "BlockIOSubsystem_Get order_ops order_devs w path blkio =
     wrap_err ''error reading throttle data'' (blkioThrottle order_ops order_devs w path blkio)"

section \<open>Fields and keys\<close>

interpretation v1_periods: kv_field cpuStat_set cs_Periods "''nr_periods''" "\<lambda>v. v"
  by unfold_locales (simp add: cpuStat_set_def)

interpretation v1_throttled: kv_field cpuStat_set "\<lambda>s. th_Periods (cs_Throttled s)" "''nr_throttled''" "\<lambda>v. v"
  by unfold_locales (simp add: cpuStat_set_def)

interpretation v1_throttled_time: kv_field cpuStat_set "\<lambda>s. th_Us (cs_Throttled s)" "''throttled_time''" "\<lambda>v. v"
  by unfold_locales (simp add: cpuStat_set_def)

interpretation acct_user: kv_field "cpuacct_set ticks" "\<lambda>s. cu_NS (ca_User s)" "''user''" "convertJiffiesToNanos ticks"
  for ticks
  by unfold_locales (simp add: cpuacct_set_def)

interpretation acct_system: kv_field "cpuacct_set ticks" "\<lambda>s. cu_NS (ca_System s)" "''system''" "convertJiffiesToNanos ticks"
  for ticks
  by unfold_locales (simp add: cpuacct_set_def)

definition memory_stat_fields :: "(string \<times> (MemoryStat \<Rightarrow> u64)) list" where
  "memory_stat_fields =
     [(''cache'', ms_Cache), (''rss'', ms_RSS), (''rss_huge'', ms_RSSHuge), (''mapped_file'', ms_MappedFile),
      (''pgpgin'', ms_PagesIn), (''pgpgout'', ms_PagesOut), (''pgfault'', ms_PageFaults),
      (''pgmajfault'', ms_MajorPageFaults), (''swap'', ms_Swap), (''active_anon'', ms_ActiveAnon),
      (''inactive_anon'', ms_InactiveAnon), (''active_file'', ms_ActiveFile),
      (''inactive_file'', ms_InactiveFile), (''unevictable'', ms_Unevictable),
      (''hierarchical_memory_limit'', ms_HierarchicalMemoryLimit),
      (''hierarchical_memsw_limit'', ms_HierarchicalMemswLimit)]"

lemma memoryStats_set_keys:
  "memoryStats_set ''cache'' v s = s\<lparr>ms_Cache := v\<rparr>"
  "memoryStats_set ''rss'' v s = s\<lparr>ms_RSS := v\<rparr>"
  "memoryStats_set ''rss_huge'' v s = s\<lparr>ms_RSSHuge := v\<rparr>"
  "memoryStats_set ''mapped_file'' v s = s\<lparr>ms_MappedFile := v\<rparr>"
  "memoryStats_set ''pgpgin'' v s = s\<lparr>ms_PagesIn := v\<rparr>"
  "memoryStats_set ''pgpgout'' v s = s\<lparr>ms_PagesOut := v\<rparr>"
  "memoryStats_set ''pgfault'' v s = s\<lparr>ms_PageFaults := v\<rparr>"
  "memoryStats_set ''pgmajfault'' v s = s\<lparr>ms_MajorPageFaults := v\<rparr>"
  "memoryStats_set ''swap'' v s = s\<lparr>ms_Swap := v\<rparr>"
  "memoryStats_set ''active_anon'' v s = s\<lparr>ms_ActiveAnon := v\<rparr>"
  "memoryStats_set ''inactive_anon'' v s = s\<lparr>ms_InactiveAnon := v\<rparr>"
  "memoryStats_set ''active_file'' v s = s\<lparr>ms_ActiveFile := v\<rparr>"
  "memoryStats_set ''inactive_file'' v s = s\<lparr>ms_InactiveFile := v\<rparr>"
  "memoryStats_set ''unevictable'' v s = s\<lparr>ms_Unevictable := v\<rparr>"
  "memoryStats_set ''hierarchical_memory_limit'' v s = s\<lparr>ms_HierarchicalMemoryLimit := v\<rparr>"
  "memoryStats_set ''hierarchical_memsw_limit'' v s = s\<lparr>ms_HierarchicalMemswLimit := v\<rparr>"
  by (simp_all add: memoryStats_set_def)

lemma memoryStats_set_other: "t \<notin> fst ` set memory_stat_fields \<Longrightarrow> memoryStats_set t v s = s"
  by (simp add: memoryStats_set_def memory_stat_fields_def)

lemma memoryStats_set_known:
  "\<forall>t \<in> fst ` set memory_stat_fields.
     list_all (\<lambda>(key, sel). sel (memoryStats_set t v s) = (if t = key then v else sel s)) memory_stat_fields"
  by (simp add: memory_stat_fields_def memoryStats_set_keys)

lemma memory_stat_kv_field:
  assumes "(key, sel) \<in> set memory_stat_fields" shows "kv_field memoryStats_set sel key (\<lambda>v. v)"
proof
  fix t v s
  show "sel (memoryStats_set t v s) = (if t = key then v else sel s)"
  proof (cases "t \<in> fst ` set memory_stat_fields")
    case True
    with memoryStats_set_known[of v s]
    have "list_all (\<lambda>(key, sel). sel (memoryStats_set t v s) = (if t = key then v else sel s)) memory_stat_fields"
      by (rule bspec)
    from bspec[OF this[unfolded list_all_iff] assms] show ?thesis by (simp only: prod.case)
  next
    case False
    then have "t \<noteq> key" using assms by force
    then show ?thesis by (simp add: memoryStats_set_other[OF False])
  qed
qed

text \<open>
  A memory controller read from a directory whose \<open>memory.stat\<close> holds well-formed
  lines has in each of its sixteen fields the value of the field's own key (its last
  value, or what it held before if the file does not mention the key).
\<close>

theorem memoryStats_fields:
  assumes "list_all kv_ok kvs" "file_of w (path_Join [path, ''memory.stat'']) = Inr (kv_show kvs)"
  shows "\<exists>st. memoryStats w path mem = Ok (mem\<lparr>mems_Stats := st\<rparr>) \<and>
    list_all (\<lambda>(key, sel). sel st = valueOr (sel (mems_Stats mem)) (map_of (rev kvs) key)) memory_stat_fields"
proof -
  obtain st where st: "kv_file w (path_Join [path, ''memory.stat'']) memoryStats_set (mems_Stats mem) = Ok st"
    by (simp add: kv_file_show[OF assms])
  have "sel st = valueOr (sel (mems_Stats mem)) (map_of (rev kvs) key)"
    if "(key, sel) \<in> set memory_stat_fields" for key sel
  proof -
    from kv_field.get_file[OF memory_stat_kv_field[OF that] assms st] show ?thesis by (simp add: valueOr_def)
  qed
  then show ?thesis using st by (auto simp: memoryStats_def list_all_iff)
qed

definition zeroMemoryStat :: MemoryStat where
  "zeroMemoryStat = \<lparr>ms_Cache = 0, ms_RSS = 0, ms_RSSHuge = 0, ms_MappedFile = 0, ms_PagesIn = 0,
     ms_PagesOut = 0, ms_PageFaults = 0, ms_MajorPageFaults = 0, ms_Swap = 0, ms_ActiveAnon = 0,
     ms_InactiveAnon = 0, ms_ActiveFile = 0, ms_InactiveFile = 0, ms_Unevictable = 0,
     ms_HierarchicalMemoryLimit = 0, ms_HierarchicalMemswLimit = 0\<rparr>"

definition zeroMemoryData :: MemoryData where
  "zeroMemoryData = \<lparr>md_Usage = \<lparr>mu_Bytes = 0, mu_Max = 0\<rparr>, md_Limit = 0, md_Failures = 0\<rparr>"

definition zeroMemorySubsystem :: MemorySubsystem where
  "zeroMemorySubsystem = \<lparr>mems_ID = [], mems_Path = [], mems_Mem = zeroMemoryData, mems_MemSwap = zeroMemoryData,
     mems_Kernel = zeroMemoryData, mems_KernelTCP = zeroMemoryData, mems_Stats = zeroMemoryStat\<rparr>"

definition demo_kvs :: "(string \<times> u64) list" where
  "demo_kvs = [(''cache'', 4096), (''swap'', 77), (''total_cache'', 5)]"

lemma demo_kvs_ok: "list_all kv_ok demo_kvs"
  by (simp add: demo_kvs_def kv_ok_def plain_def plain_char_def code_def)

theorem memoryStats_fields_witness:
  "\<exists>st. memoryStats (files_env [(path_Join [''/cg'', ''memory.stat''], kv_show demo_kvs)]) ''/cg'' zeroMemorySubsystem =
      Ok (zeroMemorySubsystem\<lparr>mems_Stats := st\<rparr>) \<and>
    list_all (\<lambda>(key, sel). sel st = valueOr (sel (mems_Stats zeroMemorySubsystem)) (map_of (rev demo_kvs) key))
      memory_stat_fields"
proof (rule memoryStats_fields[OF demo_kvs_ok])
  show "file_of (files_env [(path_Join [''/cg'', ''memory.stat''], kv_show demo_kvs)])
      (path_Join [''/cg'', ''memory.stat'']) = Inr (kv_show demo_kvs)"
    by (simp add: files_env_def)
qed

section \<open>Block I/O totals\<close>

lemma foldl_add_device:
  "tio_Bytes (foldl (\<lambda>tot did. add_device tot (f did)) tot dids) =
     tio_Bytes tot + (\<Sum>did\<leftarrow>dids. ov_Read (td_Bytes (f did)) + ov_Write (td_Bytes (f did)))"
  "tio_Ios (foldl (\<lambda>tot did. add_device tot (f did)) tot dids) =
     tio_Ios tot + (\<Sum>did\<leftarrow>dids. ov_Read (td_IOs (f did)) + ov_Write (td_IOs (f did)))"
  by (induction dids arbitrary: tot) (simp_all add: add_device_def add.assoc)

lemma collect_loop_dom: "finite (dom ops) \<Longrightarrow> finite (dom (collect_loop ops vals))"
  by (induction vals arbitrary: ops) (simp_all del: fun_upd_apply)

lemma finite_collect: "finite (dom (collectOpValues vals))"
  by (simp add: collectOpValues_def collect_loop_dom)

text \<open>One field of the devices: what is stored for \<open>did\<close>, or the zero value.\<close>

definition dev_field :: "(ThrottleDevice \<Rightarrow> 'a) \<Rightarrow> (DeviceID \<rightharpoonup> ThrottleDevice) \<Rightarrow> DeviceID \<Rightarrow> 'a" where
  "dev_field sel devices did = sel (valueOr (zeroThrottle did) (devices did))"

lemma dev_field_on_device:
  "dev_field sel (on_device i f devices) did =
     (if did = i then sel (f (valueOr (zeroThrottle i) (devices i))) else dev_field sel devices did)"
  by (simp add: dev_field_def on_device_def)

lemma on_device_dom [simp]: "dom (on_device i f devices) = insert i (dom devices)"
  by (simp add: on_device_def)

lemma dev_field_store_limits:
  assumes "\<And>v d. sel (put v d) = sel d"
  shows "dev_field sel (store_limits put vals devices) did = dev_field sel devices did"
  unfolding store_limits_def
  by (induction vals arbitrary: devices) (simp_all add: dev_field_on_device assms, simp add: dev_field_def)

lemma dev_field_store_ops_other:
  assumes "\<And>ov d. sel (put ov d) = sel d"
  shows "dev_field sel (store_ops order put ops devices) did = dev_field sel devices did"
proof -
  have "dev_field sel (foldl (\<lambda>devices did. on_device did (put (the (ops did))) devices) devices xs) did =
      dev_field sel devices did" for xs
    by (induction xs arbitrary: devices) (simp_all add: dev_field_on_device assms, simp add: dev_field_def)
  then show ?thesis by (simp add: store_ops_def)
qed

lemma dev_field_store_ops:
  assumes "\<And>ov d. sel (put ov d) = ov" "iterates (order ops) ops"
    and "dev_field sel devices did = zeroOps"
  shows "dev_field sel (store_ops order put ops devices) did = valueOr zeroOps (ops did)"
proof -
  have "distinct xs \<Longrightarrow> dev_field sel (foldl (\<lambda>devices did. on_device did (put (the (ops did))) devices) devices xs) did =
      (if did \<in> set xs then the (ops did) else dev_field sel devices did)" for xs
    by (induction xs arbitrary: devices) (auto simp: dev_field_on_device assms(1))
  then show ?thesis using assms(2,3) by (auto simp: store_ops_def iterates_def)
qed

lemma store_ops_dom: "dom (store_ops order put ops devices) = dom devices \<union> set (order ops)"
proof -
  have "dom (foldl (\<lambda>devices did. on_device did (put (the (ops did))) devices) devices xs) = dom devices \<union> set xs" for xs
    by (induction xs arbitrary: devices) auto
  then show ?thesis by (simp add: store_ops_def)
qed

lemma store_limits_dom: "dom (store_limits put vals devices) = dom devices \<union> bv_DeviceID ` set vals"
  unfolding store_limits_def by (induction vals arbitrary: devices) auto

text \<open>The totals the files stand for: the last read and write value of each device, summed.\<close>

definition ops_sum :: "blkioValue list \<Rightarrow> u64" where
  "ops_sum vals = (\<Sum>did \<in> bv_DeviceID ` set vals.
     (let ov = valueOr zeroOps (collectOpValues vals did) in ov_Read ov + ov_Write ov))"

lemma collect_dom: "dom (collect_loop ops vals) = dom ops \<union> bv_DeviceID ` set vals"
  by (induction vals arbitrary: ops) (auto simp del: fun_upd_apply)

lemma sum_devices:
  fixes sel :: "ThrottleDevice \<Rightarrow> OperationValues"
  assumes "iterates dids devices" "set dids \<supseteq> bv_DeviceID ` set vals"
    and "\<And>did. dev_field sel devices did = valueOr zeroOps (collectOpValues vals did)"
  shows "(\<Sum>did\<leftarrow>dids. ov_Read (sel (the (devices did))) + ov_Write (sel (the (devices did)))) = ops_sum vals"
proof -
  let ?f = "\<lambda>did. let ov = valueOr zeroOps (collectOpValues vals did) in ov_Read ov + ov_Write ov"
  have the: "sel (the (devices did)) = valueOr zeroOps (collectOpValues vals did)" if "did \<in> set dids" for did
    using that assms(1) assms(3)[of did] by (auto simp: iterates_def dev_field_def)
  have "(\<Sum>did\<leftarrow>dids. ov_Read (sel (the (devices did))) + ov_Write (sel (the (devices did)))) = (\<Sum>did\<leftarrow>dids. ?f did)"
    by (rule arg_cong[of _ _ sum_list], rule map_cong[OF refl]) (simp add: the Let_def)
  also have "\<dots> = (\<Sum>did \<in> set dids. ?f did)"
    using assms(1) by (simp add: iterates_def sum_list_distinct_conv_sum_set)
  also have "\<dots> = ops_sum vals"
    unfolding ops_sum_def
  proof (rule sum.mono_neutral_right[OF _ assms(2)])
    show "\<forall>did \<in> set dids - bv_DeviceID ` set vals. ?f did = 0"
    proof
      fix did assume "did \<in> set dids - bv_DeviceID ` set vals"
      then have "did \<notin> dom (collectOpValues vals)" by (simp add: collectOpValues_def collect_dom)
      then have "collectOpValues vals did = None" by (simp add: domIff)
      then show "?f did = 0" by (simp add: zeroOps_def)
    qed
  qed simp
  finally show ?thesis .
qed

lemma blkio_sums:
  assumes "range_order order_ops" "range_order order_devs"
    and devices_def: "devices = store_limits pd lvals4 (store_limits pc lvals3 (store_limits pb lvals2 (store_limits pa lvals1
      (store_ops order_ops (\<lambda>ov d. d\<lparr>td_IOs := ov\<rparr>) (collectOpValues ios)
        (store_ops order_ops (\<lambda>ov d. d\<lparr>td_Bytes := ov\<rparr>) (collectOpValues bytes) Map.empty)))))"
    and "\<And>v d. td_Bytes (pa v d) = td_Bytes d \<and> td_IOs (pa v d) = td_IOs d"
    "\<And>v d. td_Bytes (pb v d) = td_Bytes d \<and> td_IOs (pb v d) = td_IOs d"
    "\<And>v d. td_Bytes (pc v d) = td_Bytes d \<and> td_IOs (pc v d) = td_IOs d"
    "\<And>v d. td_Bytes (pd v d) = td_Bytes d \<and> td_IOs (pd v d) = td_IOs d"
  shows "foldl (\<lambda>tot did. add_device tot (the (devices did))) tot (order_devs devices) =
     \<lparr>tio_Bytes = tio_Bytes tot + ops_sum bytes, tio_Ios = tio_Ios tot + ops_sum ios\<rparr>"
proof -
  have ito: "iterates (order_ops (collectOpValues vals)) (collectOpValues vals)" for vals
    by (rule range_orderD[OF assms(1) finite_collect])
  have dm: "set (order_ops (collectOpValues vals)) = bv_DeviceID ` set vals" for vals
    using ito[of vals] by (simp add: iterates_def collectOpValues_def collect_dom)
  have dom: "dom devices = bv_DeviceID ` (set bytes \<union> set ios \<union> set lvals1 \<union> set lvals2 \<union> set lvals3 \<union> set lvals4)"
    unfolding devices_def store_limits_dom store_ops_dom dm by auto
  then have itd: "iterates (order_devs devices) devices" by (intro range_orderD[OF assms(2)]) simp
  then have sup: "set (order_devs devices) = dom devices" by (simp add: iterates_def)
  have z: "dev_field td_Bytes Map.empty did = zeroOps" "dev_field td_IOs Map.empty did = zeroOps" for did
    by (simp_all add: dev_field_def zeroThrottle_def)
  have b: "dev_field td_Bytes devices did = valueOr zeroOps (collectOpValues bytes did)" for did
    unfolding devices_def using assms(4-7)
    by (simp add: dev_field_store_limits dev_field_store_ops_other dev_field_store_ops ito z)
  have i: "dev_field td_IOs devices did = valueOr zeroOps (collectOpValues ios did)" for did
    unfolding devices_def using assms(4-7)
    by (simp add: dev_field_store_limits dev_field_store_ops_other dev_field_store_ops ito z)
  show ?thesis
    using sum_devices[OF itd _ b] sum_devices[OF itd _ i] sup dom
    by (intro TotalIOs.equality) (auto simp: foldl_add_device)
qed


text \<open>Lines as the kernel writes them, for operations other than totals.\<close>

definition blkio_ok :: "blkioValue \<Rightarrow> bool" where
  "blkio_ok bv \<longleftrightarrow> bv_Operation bv \<in> {''read'', ''write'', ''async'', ''sync'', ''discard''}"

definition show_blkio :: "blkioValue \<Rightarrow> string" where
  "show_blkio bv =
     show_nat (unat (Major (bv_DeviceID bv))) @ CHR '':'' # show_nat (unat (Minor (bv_DeviceID bv))) @ CHR '' '' #
     bv_Operation bv @ CHR '' '' # show_nat (unat (bv_Value bv))"

lemma no_colon_map: "CHR '':'' \<notin> set t \<Longrightarrow> map (\<lambda>c. if c = CHR '':'' then CHR '' '' else c) t = t"
  by (induction t) auto

lemma show_nat_colon: "map (\<lambda>c. if c = CHR '':'' then CHR '' '' else c) (show_nat n) = show_nat n"
  using show_nat_digits[of n] by (intro no_colon_map) (auto simp: list_all_iff is_digit_def code_def)

lemma blkio_operation:
  assumes "blkio_ok bv"
  shows "plain (bv_Operation bv)" "to_lower (bv_Operation bv) = bv_Operation bv"
    "CHR '':'' \<notin> set (bv_Operation bv)" "length (bv_Operation bv) < 10"
  using assms by (auto simp: blkio_ok_def plain_def plain_char_def to_lower_def code_def)

lemma parseBlkioValue_show:
  assumes "blkio_ok bv" shows "parseBlkioValue (show_blkio bv) = Ok bv"
proof -
  note op = blkio_operation[OF assms]
  have "colon_fields (show_blkio bv) = [show_nat (unat (Major (bv_DeviceID bv))),
      show_nat (unat (Minor (bv_DeviceID bv))), bv_Operation bv, show_nat (unat (bv_Value bv))]"
    using op by (simp add: colon_fields_def show_blkio_def show_nat_colon no_colon_map fields_token_ws
        fields_token show_nat_plain)
  then show ?thesis
    using op by (simp add: parseBlkioValue_def ParseUint_show)
qed

lemma show_blkio_line:
  assumes "blkio_ok bv"
  shows "is_line (show_blkio bv)" "trim_space (show_blkio bv) = show_blkio bv"
    "show_blkio bv \<noteq> []" "is_number (hd (show_blkio bv))"
proof -
  note op = blkio_operation[OF assms]
  have n: "list_all plain_char (show_nat k)" for k using show_nat_plain[of k] by (simp add: plain_def)
  have "text_char (CHR '':'')" by (simp add: text_char_def plain_char_def code_def)
  then have "list_all text_char (show_blkio bv)"
    using n op(1) by (auto simp: show_blkio_def plain_def list_all_iff)
  moreover have "length (show_blkio bv) < max_scan_token"
    using op(4) length_show_u64[of "Major (bv_DeviceID bv)"] length_show_u64[of "Minor (bv_DeviceID bv)"]
      length_show_u64[of "bv_Value bv"] by (simp add: show_blkio_def max_scan_token_def)
  ultimately show "is_line (show_blkio bv)" by (rule is_line_text)
  show "show_blkio bv \<noteq> []" by (simp add: show_blkio_def)
  show "is_number (hd (show_blkio bv))"
    using hd_show_nat[of "unat (Major (bv_DeviceID bv))"] by (simp add: show_blkio_def is_number_def)
  have "plain_char (hd (show_nat k))" "plain_char (last (show_nat k))" for k
    using n[of k] hd_in_set[OF show_nat_nonempty[of k]] last_in_set[OF show_nat_nonempty[of k]]
    by (auto simp: list_all_iff)
  then show "trim_space (show_blkio bv) = show_blkio bv"
    by (intro trim_space_id) (auto simp: show_blkio_def)
qed

lemma blkio_loop_show:
  "list_all blkio_ok bvs \<Longrightarrow> blkio_loop acc (map show_blkio bvs) = Ok (acc @ bvs)"
  by (induction bvs arbitrary: acc) (simp_all add: show_blkio_line parseBlkioValue_show)

lemma readBlkioValues_show:
  assumes "list_all blkio_ok bvs" "file_of w (path_Join path) = Inr (unlines (map show_blkio bvs))"
  shows "readBlkioValues w path = Ok bvs"
proof -
  have "list_all is_line (map show_blkio bvs)" using assms(1) show_blkio_line by (auto simp: list_all_iff)
  then show ?thesis
    using assms by (simp add: readBlkioValues_def os_ReadFile_def scan_lines_unlines blkio_loop_show)
qed

lemma readBlkioValues_missing: "file_of w (path_Join path) = Inl ENOENT \<Longrightarrow> readBlkioValues w path = Ok []"
  by (simp add: readBlkioValues_def os_ReadFile_def)

text \<open>Byte counts of two devices, and no other file.\<close>

definition demo_bytes :: "blkioValue list" where
  "demo_bytes = [\<lparr>bv_DeviceID = DeviceID 8 0, bv_Operation = ''read'', bv_Value = 5\<rparr>,
     \<lparr>bv_DeviceID = DeviceID 8 0, bv_Operation = ''write'', bv_Value = 7\<rparr>,
     \<lparr>bv_DeviceID = DeviceID 8 16, bv_Operation = ''read'', bv_Value = 30\<rparr>]"

definition demo_blkio :: os_env where
  "demo_blkio = files_env
     [(path_Join [''/cg'', ''blkio.throttle.io_service_bytes''], unlines (map show_blkio demo_bytes))]"

lemma demo_blkio_reads:
  "readBlkioValues demo_blkio [''/cg'', ''blkio.throttle.io_service_bytes''] = Ok demo_bytes"
  "readBlkioValues demo_blkio [''/cg'', ''blkio.throttle.io_serviced''] = Ok []"
  "readBlkioValues demo_blkio [''/cg'', ''blkio.throttle.read_bps_device''] = Ok []"
  "readBlkioValues demo_blkio [''/cg'', ''blkio.throttle.write_bps_device''] = Ok []"
  "readBlkioValues demo_blkio [''/cg'', ''blkio.throttle.read_iops_device''] = Ok []"
  "readBlkioValues demo_blkio [''/cg'', ''blkio.throttle.write_iops_device''] = Ok []"
proof -
  have p: "path_Join [''/cg'', f] = abs_path [''cg'', f]" if "list_all is_name [f]" for f
    using that join_dir_path[of "[''cg'']" f] by (auto simp: abs_path_def slash_def is_name_def path_names_def
        has_dotdot_def split_on_token)
  note ps = p[of "''blkio.throttle.io_service_bytes''"] p[of "''blkio.throttle.io_serviced''"]
    p[of "''blkio.throttle.read_bps_device''"] p[of "''blkio.throttle.write_bps_device''"]
    p[of "''blkio.throttle.read_iops_device''"] p[of "''blkio.throttle.write_iops_device''"]
  show "readBlkioValues demo_blkio [''/cg'', ''blkio.throttle.io_service_bytes''] = Ok demo_bytes"
    by (rule readBlkioValues_show) (simp_all add: demo_bytes_def blkio_ok_def demo_blkio_def files_env_def)
  show "readBlkioValues demo_blkio [''/cg'', ''blkio.throttle.io_serviced''] = Ok []"
    "readBlkioValues demo_blkio [''/cg'', ''blkio.throttle.read_bps_device''] = Ok []"
    "readBlkioValues demo_blkio [''/cg'', ''blkio.throttle.write_bps_device''] = Ok []"
    "readBlkioValues demo_blkio [''/cg'', ''blkio.throttle.read_iops_device''] = Ok []"
    "readBlkioValues demo_blkio [''/cg'', ''blkio.throttle.write_iops_device''] = Ok []"
    by (rule readBlkioValues_missing, simp add: demo_blkio_def files_env_def ps is_name_def slash_def abs_path_def)+
qed

definition zeroBlockIO :: BlockIOSubsystem where
  "zeroBlockIO = \<lparr>blk_ID = [], blk_Path = [], blk_Total = \<lparr>tio_Bytes = 0, tio_Ios = 0\<rparr>\<rparr>"


end
