(* ===== verification/Cgroup_V2.thy ===== *)
theory Cgroup_V2
  imports Cgroup_Common
begin

text \<open>
  \<open>metric/system/cgroup/cgv2\<close>: the cpu, io and memory controllers of version 2. Names the
  version shares with the controllers of version 1 carry the suffix \<open>V2\<close>. The directory
  walk over \<open>/dev\<close> is an argument. Proved: what each field holds after reading
  well-formed files, the lines of \<open>io.stat\<close>, and that the device numbers of a device file
  are decoded to the major and minor numbers it was made with.
\<close>

section \<open>cpu\<close>

record ThrottledFieldV2 =
  th2_Us :: "u64 option"
  th2_Periods :: "u64 option"

record CPUStatsV2 =
  cs2_Throttled :: ThrottledFieldV2
  cs2_Periods :: "u64 option"
  cs2_Usage :: CPUUsage
  cs2_User :: CPUUsage
  cs2_System :: CPUUsage

record CPUSubsystemV2 =
  cpu2_ID :: string
  cpu2_Path :: string
  cpu2_Pressure :: "string \<rightharpoonup> Pressure"
  cpu2_Stats :: CPUStatsV2

definition zeroCPUStatsV2 :: CPUStatsV2 where
  "zeroCPUStatsV2 = \<lparr>cs2_Throttled = \<lparr>th2_Us = None, th2_Periods = None\<rparr>, cs2_Periods = None,
     cs2_Usage = zeroCPUUsage, cs2_User = zeroCPUUsage, cs2_System = zeroCPUUsage\<rparr>"

definition Throttled_IsZero :: "ThrottledFieldV2 \<Rightarrow> bool" where
  "Throttled_IsZero t \<longleftrightarrow> th2_Us t = None \<and> th2_Periods t = None"

definition getStats_set :: "string \<Rightarrow> u64 \<Rightarrow> CPUStatsV2 \<Rightarrow> CPUStatsV2" where
  "getStats_set key v s =
     (if key = ''usage_usec'' then s\<lparr>cs2_Usage := (cs2_Usage s)\<lparr>cu_NS := v\<rparr>\<rparr>
      else if key = ''user_usec'' then s\<lparr>cs2_User := (cs2_User s)\<lparr>cu_NS := v\<rparr>\<rparr>
      else if key = ''system_usec'' then s\<lparr>cs2_System := (cs2_System s)\<lparr>cu_NS := v\<rparr>\<rparr>
      else if key = ''nr_periods'' then s\<lparr>cs2_Periods := Some v\<rparr>
      else if key = ''nr_throttled'' then s\<lparr>cs2_Throttled := (cs2_Throttled s)\<lparr>th2_Periods := Some v\<rparr>\<rparr>
      else if key = ''throttled_usec'' then s\<lparr>cs2_Throttled := (cs2_Throttled s)\<lparr>th2_Us := Some v\<rparr>\<rparr>
      else s)"

text \<open>The scanner's own error is not looked at.\<close>

definition getStats :: "os_env \<Rightarrow> string \<Rightarrow> CPUStatsV2 outcome" where
  "getStats w path =
     (case os_ReadFile w (path_Join [path, ''cpu.stat'']) of
        Err err \<Rightarrow> if os_IsNotExist err then Ok zeroCPUStatsV2 else Err (Wrapped ''error reading cpu.stat'' err)
      | Panic \<Rightarrow> Panic
      | Ok f \<Rightarrow> wrap_err ''error parsing cpu.stat file'' (kv_loop getStats_set (scan_lines f) zeroCPUStatsV2))"

text \<open>Without a pressure file \<open>Get\<close> returns before it reads the statistics.\<close>

definition CPUSubsystemV2_Get :: "os_env \<Rightarrow> string \<Rightarrow> CPUSubsystemV2 \<Rightarrow> CPUSubsystemV2 outcome" where
  "CPUSubsystemV2_Get w path cpu =
     (case GetPressure w (path_Join [path, ''cpu.pressure'']) of
        Err err \<Rightarrow> if os_IsNotExist err then Ok (cpu\<lparr>cpu2_Pressure := Map.empty\<rparr>)
                   else Err (Wrapped ''error fetching Pressure data'' err)
      | Panic \<Rightarrow> Panic
      | Ok pressure \<Rightarrow>
          and_then (wrap_err ''error fetching CPU stat data'' (getStats w path))
            (\<lambda>st. Ok (cpu\<lparr>cpu2_Pressure := pressure, cpu2_Stats := st\<rparr>)))"

section \<open>io\<close>

record IOMetricV2 =
  iom_Bytes :: u64
  iom_IOs :: u64

record IOStatV2 =
  ios_Read :: IOMetricV2
  ios_Write :: IOMetricV2
  ios_Discarded :: IOMetricV2

record IOSubsystem =
  io_ID :: string
  io_Path :: string
  io_Stats :: "string \<rightharpoonup> IOStatV2"
  io_Pressure :: "string \<rightharpoonup> Pressure"

definition zeroIOStatV2 :: IOStatV2 where
  "zeroIOStatV2 = (let z = \<lparr>iom_Bytes = 0, iom_IOs = 0\<rparr> in
     \<lparr>ios_Read = z, ios_Write = z, ios_Discarded = z\<rparr>)"

text \<open>
  What \<open>filepath.WalkDir\<close> finds at \<open>/dev/\<close>: nothing, in which case it calls the function
  with a nil entry, or the entries of the directory; \<open>Rdev\<close> of an entry is missing when
  its \<open>Info\<close> fails. Directories are skipped, so deeper levels are never seen.
\<close>

record dev_entry =
  de_name :: string
  de_is_dir :: bool
  de_block_device :: bool
  de_Rdev :: "u64 option"

datatype dev_walk = NoDev | DevEntries "dev_entry list"

definition dev_major :: "u64 \<Rightarrow> u64" where
  "dev_major devID = or (drop_bit 32 (and devID 0xfffff00000000000)) (drop_bit 8 (and devID 0xfff00))"

definition dev_minor :: "u64 \<Rightarrow> u64" where
  "dev_minor devID = or (drop_bit 0 (and devID 0xff)) (drop_bit 12 (and devID 0xffffff00000))"

definition walkFunc :: "u64 \<Rightarrow> u64 \<Rightarrow> dev_entry \<Rightarrow> bool \<times> string \<Rightarrow> bool \<times> string" where
  "walkFunc major minor d st =
     (if de_is_dir d then st
      else if \<not> de_block_device d then st
      else case de_Rdev d of
        None \<Rightarrow> st
      | Some devID \<Rightarrow>
          if dev_major devID = major \<and> dev_minor devID = minor then (True, de_name d) else st)"

definition fetchDeviceName :: "dev_walk \<Rightarrow> u64 \<Rightarrow> u64 \<Rightarrow> (bool \<times> string) outcome" where
  "fetchDeviceName dev major minor =
     (case dev of
        NoDev \<Rightarrow> Panic
      | DevEntries es \<Rightarrow> Ok (foldl (\<lambda>st d. walkFunc major minor d st) (False, []) es))"

text \<open>The stub of the other systems.\<close>

definition fetchDeviceName_other :: "u64 \<Rightarrow> u64 \<Rightarrow> (bool \<times> string) outcome" where
  "fetchDeviceName_other major minor = Err (Message ''getIOStats is linux-only'')"

definition set_counter :: "string \<Rightarrow> u64 \<Rightarrow> IOStatV2 \<Rightarrow> IOStatV2" where
  "set_counter name v s =
     (if name = ''rbytes'' then s\<lparr>ios_Read := (ios_Read s)\<lparr>iom_Bytes := v\<rparr>\<rparr>
      else if name = ''wbytes'' then s\<lparr>ios_Write := (ios_Write s)\<lparr>iom_Bytes := v\<rparr>\<rparr>
      else if name = ''rios'' then s\<lparr>ios_Read := (ios_Read s)\<lparr>iom_IOs := v\<rparr>\<rparr>
      else if name = ''wios'' then s\<lparr>ios_Write := (ios_Write s)\<lparr>iom_IOs := v\<rparr>\<rparr>
      else if name = ''dbytes'' then s\<lparr>ios_Discarded := (ios_Discarded s)\<lparr>iom_Bytes := v\<rparr>\<rparr>
      else if name = ''dios'' then s\<lparr>ios_Discarded := (ios_Discarded s)\<lparr>iom_IOs := v\<rparr>\<rparr>
      else s)"

text \<open>The state of the loop: device names, counters, and whether a counter was seen.\<close>

fun stat_components ::
  "dev_walk \<Rightarrow> bool \<Rightarrow> string list \<times> IOStatV2 \<times> bool \<Rightarrow> string list \<Rightarrow> (string list \<times> IOStatV2 \<times> bool) outcome" where
  "stat_components dev resolveDevIDs st [] = Ok st"
| "stat_components dev resolveDevIDs (devIds, stats, foundMetrics) (component # rest) =
     (if contains '':'' component then
        and_then (wrap_err ''could not read device ID''
          (and_then (scan_uint component) (\<lambda>(major, r).
           and_then (scan_char (CHR '':'') r) (\<lambda>r.
           and_then (scan_uint r) (\<lambda>(minor, _). Ok (major, minor))))))
        (\<lambda>(major, minor).
        and_then (if resolveDevIDs then fetchDeviceName dev major minor else Ok (False, []))
        (\<lambda>(found, devName).
          stat_components dev resolveDevIDs
            (devIds @ [if found then devName else component], stats, foundMetrics) rest))
      else if contains ''='' component then
        (let counterSplit = split_on (CHR ''='') component in
         if length counterSplit < 2 then stat_components dev resolveDevIDs (devIds, stats, True) rest
         else
           and_then (wrap_err ''error parsing counter in stat'' (parse_uint (counterSplit ! 1))) (\<lambda>counter.
             stat_components dev resolveDevIDs (devIds, set_counter (counterSplit ! 0) counter stats, True) rest))
      else stat_components dev resolveDevIDs (devIds, stats, foundMetrics) rest)"

definition parseStatLine :: "dev_walk \<Rightarrow> bool \<Rightarrow> string \<Rightarrow> (string list \<times> IOStatV2 \<times> bool) outcome" where
  "parseStatLine dev resolveDevIDs line =
     stat_components dev resolveDevIDs ([], zeroIOStatV2, False) (split_on (CHR '' '') line)"

fun io_loop :: "dev_walk \<Rightarrow> bool \<Rightarrow> (string \<rightharpoonup> IOStatV2) \<Rightarrow> string list \<Rightarrow> (string \<rightharpoonup> IOStatV2) outcome" where
  "io_loop dev resolveDevIDs stats [] = Ok stats"
| "io_loop dev resolveDevIDs stats (line # rest) =
     and_then (wrap_err ''error parsing line in file'' (parseStatLine dev resolveDevIDs line))
       (\<lambda>(devices, metrics, foundMetrics).
          if \<not> foundMetrics then io_loop dev resolveDevIDs stats rest
          else io_loop dev resolveDevIDs (foldl (\<lambda>m d. m(d \<mapsto> metrics)) stats devices) rest)"

definition getIOStats :: "os_env \<Rightarrow> dev_walk \<Rightarrow> string \<Rightarrow> bool \<Rightarrow> (string \<rightharpoonup> IOStatV2) outcome" where
  "getIOStats w dev path resolveDevIDs =
     and_then (wrap_err ''error reading cpu.stat'' (os_ReadFile w (path_Join [path, ''io.stat''])))
       (\<lambda>f. io_loop dev resolveDevIDs Map.empty (scan_lines f))"

definition IOSubsystem_Get :: "os_env \<Rightarrow> dev_walk \<Rightarrow> string \<Rightarrow> bool \<Rightarrow> IOSubsystem \<Rightarrow> IOSubsystem outcome" where
  "IOSubsystem_Get w dev path resolveDevIDs io =
     and_then (wrap_err ''error getting io.stats'' (getIOStats w dev path resolveDevIDs)) (\<lambda>stats.
       let io = io\<lparr>io_Stats := stats\<rparr> in
       if (case os_Stat w (path_Join [path, ''io.pressure'']) of
             Err err \<Rightarrow> errors_Is err (PathError ENOENT) | _ \<Rightarrow> False)
       then Ok io
       else and_then (wrap_err ''error fetching io.pressure'' (GetPressure w (path_Join [path, ''io.pressure''])))
              (\<lambda>p. Ok (io\<lparr>io_Pressure := p\<rparr>)))"

section \<open>memory\<close>

record EventsV2 =
  ev_Low :: "u64 option"
  ev_High :: u64
  ev_Max :: u64
  ev_OOM :: "u64 option"
  ev_OOMKill :: "u64 option"
  ev_Fail :: "u64 option"

record MemoryDataV2 =
  md2_Events :: EventsV2
  md2_Usage :: u64
  md2_Low :: u64
  md2_High :: "u64 option"
  md2_Max :: "u64 option"

definition zeroEvents :: EventsV2 where
  "zeroEvents = \<lparr>ev_Low = None, ev_High = 0, ev_Max = 0, ev_OOM = None, ev_OOMKill = None, ev_Fail = None\<rparr>"

definition zeroMemoryDataV2 :: MemoryDataV2 where
  "zeroMemoryDataV2 = \<lparr>md2_Events = zeroEvents, md2_Usage = 0, md2_Low = 0, md2_High = None, md2_Max = None\<rparr>"

text \<open>Every field is a 64-bit counter; the wrapper \<open>opt.Bytes\<close> of some holds just that.\<close>

record MemoryStatV2 =
  m2_Anon :: u64
  m2_File :: u64
  m2_KernelStack :: u64
  m2_Pagetables :: u64
  m2_PerCPU :: u64
  m2_Sock :: u64
  m2_Shmem :: u64
  m2_FileMapped :: u64
  m2_FileDirty :: u64
  m2_FileWriteback :: u64
  m2_SwapCached :: u64
  m2_AnonTHP :: u64
  m2_FileTHP :: u64
  m2_ShmemTHP :: u64
  m2_InactiveAnon :: u64
  m2_ActiveAnon :: u64
  m2_InactiveFile :: u64
  m2_ActiveFile :: u64
  m2_Unevictable :: u64
  m2_SlabReclaimable :: u64
  m2_SlabUnreclaimable :: u64
  m2_Slab :: u64
  m2_WorkingSetRefaultAnon :: u64
  m2_WorkingSetRefaultFile :: u64
  m2_WorkingSetActivateAnon :: u64
  m2_WorkingSetActivateFile :: u64
  m2_WorkingSetRestoreAnon :: u64
  m2_WorkingSetRestoreFile :: u64
  m2_WorkingSetNodeReclaim :: u64
  m2_PageFaults :: u64
  m2_MajorPageFaults :: u64
  m2_PageRefill :: u64
  m2_PageScan :: u64
  m2_PageSteal :: u64
  m2_PageActivate :: u64
  m2_PageDeactivate :: u64
  m2_PageLazyFree :: u64
  m2_PageLazyFreed :: u64
  m2_THPFaultAlloc :: u64
  m2_THPCollapseAlloc :: u64

definition zeroMemoryStatV2 :: MemoryStatV2 where
  "zeroMemoryStatV2 = \<lparr>m2_Anon = 0, m2_File = 0, m2_KernelStack = 0,
     m2_Pagetables = 0, m2_PerCPU = 0, m2_Sock = 0,
     m2_Shmem = 0, m2_FileMapped = 0, m2_FileDirty = 0,
     m2_FileWriteback = 0, m2_SwapCached = 0, m2_AnonTHP = 0,
     m2_FileTHP = 0, m2_ShmemTHP = 0, m2_InactiveAnon = 0,
     m2_ActiveAnon = 0, m2_InactiveFile = 0, m2_ActiveFile = 0,
     m2_Unevictable = 0, m2_SlabReclaimable = 0, m2_SlabUnreclaimable = 0,
     m2_Slab = 0, m2_WorkingSetRefaultAnon = 0, m2_WorkingSetRefaultFile = 0,
     m2_WorkingSetActivateAnon = 0, m2_WorkingSetActivateFile = 0, m2_WorkingSetRestoreAnon = 0,
     m2_WorkingSetRestoreFile = 0, m2_WorkingSetNodeReclaim = 0, m2_PageFaults = 0,
     m2_MajorPageFaults = 0, m2_PageRefill = 0, m2_PageScan = 0,
     m2_PageSteal = 0, m2_PageActivate = 0, m2_PageDeactivate = 0,
     m2_PageLazyFree = 0, m2_PageLazyFreed = 0, m2_THPFaultAlloc = 0,
     m2_THPCollapseAlloc = 0\<rparr>"

definition stat_tags :: "(string \<times> (u64 \<Rightarrow> MemoryStatV2 \<Rightarrow> MemoryStatV2)) list" where
  "stat_tags =
     [(''anon'', \<lambda>v s. s\<lparr>m2_Anon := v\<rparr>),
      (''file'', \<lambda>v s. s\<lparr>m2_File := v\<rparr>),
      (''kernel_stack'', \<lambda>v s. s\<lparr>m2_KernelStack := v\<rparr>),
      (''pagetables'', \<lambda>v s. s\<lparr>m2_Pagetables := v\<rparr>),
      (''percpu'', \<lambda>v s. s\<lparr>m2_PerCPU := v\<rparr>),
      (''sock'', \<lambda>v s. s\<lparr>m2_Sock := v\<rparr>),
      (''shmem'', \<lambda>v s. s\<lparr>m2_Shmem := v\<rparr>),
      (''file_mapped'', \<lambda>v s. s\<lparr>m2_FileMapped := v\<rparr>),
      (''file_dirty'', \<lambda>v s. s\<lparr>m2_FileDirty := v\<rparr>),
      (''file_writeback'', \<lambda>v s. s\<lparr>m2_FileWriteback := v\<rparr>),
      (''swapcached'', \<lambda>v s. s\<lparr>m2_SwapCached := v\<rparr>),
      (''anon_thp'', \<lambda>v s. s\<lparr>m2_AnonTHP := v\<rparr>),
      (''file_thp'', \<lambda>v s. s\<lparr>m2_FileTHP := v\<rparr>),
      (''shmem_thp'', \<lambda>v s. s\<lparr>m2_ShmemTHP := v\<rparr>),
      (''inactive_anon'', \<lambda>v s. s\<lparr>m2_InactiveAnon := v\<rparr>),
      (''active_anon'', \<lambda>v s. s\<lparr>m2_ActiveAnon := v\<rparr>),
      (''inactive_file'', \<lambda>v s. s\<lparr>m2_InactiveFile := v\<rparr>),
      (''active_file'', \<lambda>v s. s\<lparr>m2_ActiveFile := v\<rparr>),
      (''unevictable'', \<lambda>v s. s\<lparr>m2_Unevictable := v\<rparr>),
      (''slab_reclaimable'', \<lambda>v s. s\<lparr>m2_SlabReclaimable := v\<rparr>),
      (''slab_unreclaimable'', \<lambda>v s. s\<lparr>m2_SlabUnreclaimable := v\<rparr>),
      (''slab'', \<lambda>v s. s\<lparr>m2_Slab := v\<rparr>),
      (''workingset_refault_anon'', \<lambda>v s. s\<lparr>m2_WorkingSetRefaultAnon := v\<rparr>),
      (''workingset_refault_file'', \<lambda>v s. s\<lparr>m2_WorkingSetRefaultFile := v\<rparr>),
      (''workingset_activate_anon'', \<lambda>v s. s\<lparr>m2_WorkingSetActivateAnon := v\<rparr>),
      (''workingset_activate_file'', \<lambda>v s. s\<lparr>m2_WorkingSetActivateFile := v\<rparr>),
      (''workingset_restore_anon'', \<lambda>v s. s\<lparr>m2_WorkingSetRestoreAnon := v\<rparr>),
      (''workingset_restore_file'', \<lambda>v s. s\<lparr>m2_WorkingSetRestoreFile := v\<rparr>),
      (''workingset_nodereclaim'', \<lambda>v s. s\<lparr>m2_WorkingSetNodeReclaim := v\<rparr>),
      (''pgfault'', \<lambda>v s. s\<lparr>m2_PageFaults := v\<rparr>),
      (''pgmajfault'', \<lambda>v s. s\<lparr>m2_MajorPageFaults := v\<rparr>),
      (''pgrefill'', \<lambda>v s. s\<lparr>m2_PageRefill := v\<rparr>),
      (''pgscan'', \<lambda>v s. s\<lparr>m2_PageScan := v\<rparr>),
      (''pgsteal'', \<lambda>v s. s\<lparr>m2_PageSteal := v\<rparr>),
      (''pgactivate'', \<lambda>v s. s\<lparr>m2_PageActivate := v\<rparr>),
      (''pgdeactivate'', \<lambda>v s. s\<lparr>m2_PageDeactivate := v\<rparr>),
      (''pglazyfree'', \<lambda>v s. s\<lparr>m2_PageLazyFree := v\<rparr>),
      (''pglazyfreed'', \<lambda>v s. s\<lparr>m2_PageLazyFreed := v\<rparr>),
      (''thp_fault_alloc'', \<lambda>v s. s\<lparr>m2_THPFaultAlloc := v\<rparr>),
      (''thp_collapse_alloc'', \<lambda>v s. s\<lparr>m2_THPCollapseAlloc := v\<rparr>)]"

record MemorySubsystemV2 =
  mems2_ID :: string
  mems2_Path :: string
  mems2_Mem :: MemoryDataV2
  mems2_MemSwap :: MemoryDataV2
  mems2_Stats :: MemoryStatV2

definition events_set :: "string \<Rightarrow> u64 \<Rightarrow> EventsV2 \<Rightarrow> EventsV2" where
  "events_set key v e =
     (if key = ''low'' then e\<lparr>ev_Low := Some v\<rparr>
      else if key = ''high'' then e\<lparr>ev_High := v\<rparr>
      else if key = ''max'' then e\<lparr>ev_Max := v\<rparr>
      else if key = ''oom'' then e\<lparr>ev_OOM := Some v\<rparr>
      else if key = ''oom_kill'' then e\<lparr>ev_OOMKill := Some v\<rparr>
      else if key = ''fail'' then e\<lparr>ev_Fail := Some v\<rparr>
      else e)"

definition fetchEventsFile :: "os_env \<Rightarrow> string \<Rightarrow> string \<Rightarrow> EventsV2 outcome" where
  "fetchEventsFile w path file =
     and_then (wrap_err ''error reading'' (os_ReadFile w (path_Join [path, file])))
       (\<lambda>f. wrap_err ''error parsing key from events'' (kv_loop events_set (scan_lines f) zeroEvents))"

definition maxOrValue :: "os_env \<Rightarrow> string \<Rightarrow> string \<Rightarrow> u64 option outcome" where
  "maxOrValue w path file =
     and_then (wrap_err ''error reading .high file'' (os_ReadFile w (path_Join [path, file]))) (\<lambda>highRaw.
       if trim_space highRaw = ''max'' then Ok None
       else and_then (wrap_err ''error parsing raw high value'' (ParseUint highRaw)) (\<lambda>v. Ok (Some v)))"

definition memoryDataV2 :: "os_env \<Rightarrow> string \<Rightarrow> string \<Rightarrow> MemoryDataV2 outcome" where
  "memoryDataV2 w path file =
     (if (case os_Stat w (path_Join [path, file @ ''.high'']) of
            Err err \<Rightarrow> errors_Is err (PathError ENOENT) | _ \<Rightarrow> False)
      then Ok zeroMemoryDataV2
      else
        and_then (wrap_err ''error reading .low file'' (ParseUintFromFile w [path_Join [path, file @ ''.low'']])) (\<lambda>low.
        and_then (wrap_err ''error parsing .high file'' (maxOrValue w path (file @ ''.high''))) (\<lambda>high.
        and_then (wrap_err ''error parsing .max file'' (maxOrValue w path (file @ ''.max''))) (\<lambda>maxM.
        and_then (wrap_err ''error reading .current file''
          (ParseUintFromFile w [path_Join [path, file @ ''.current'']])) (\<lambda>current.
        and_then (wrap_err ''error fetching events file'' (fetchEventsFile w path (file @ ''.events''))) (\<lambda>events.
          Ok \<lparr>md2_Events = events, md2_Usage = current, md2_Low = low, md2_High = high, md2_Max = maxM\<rparr>))))))"

text \<open>The loop over the fields of the struct by reflection: every field whose tag is the key is set.\<close>

definition set_tagged :: "string \<Rightarrow> u64 \<Rightarrow> MemoryStatV2 \<Rightarrow> MemoryStatV2" where
  "set_tagged key v st = foldl (\<lambda>st (tag, put). if tag = key then put v st else st) st stat_tags"

fun stat_loop :: "MemoryStatV2 \<Rightarrow> string list \<Rightarrow> MemoryStatV2 outcome" where
  "stat_loop stats [] = Ok stats"
| "stat_loop stats (line # rest) =
     (let parts = splitN2 (CHR '' '') line in
      if length parts \<noteq> 2 then stat_loop stats rest
      else and_then (wrap_err ''error parsing value'' (ParseUint (parts ! 1)))
             (\<lambda>intVal. stat_loop (set_tagged (parts ! 0) intVal stats) rest))"

definition fillStatStruct :: "os_env \<Rightarrow> string \<Rightarrow> MemoryStatV2 outcome" where
  "fillStatStruct w path =
     and_then (wrap_err ''error reading memory.stat'' (os_ReadFile w (path_Join [path, ''memory.stat''])))
       (\<lambda>raw. stat_loop zeroMemoryStatV2 (scan_lines raw))"

definition MemorySubsystemV2_Get :: "os_env \<Rightarrow> string \<Rightarrow> MemorySubsystemV2 \<Rightarrow> MemorySubsystemV2 outcome" where
  "MemorySubsystemV2_Get w path mem =
     and_then (wrap_err ''error reading memory stats'' (memoryDataV2 w path ''memory'')) (\<lambda>d.
     and_then (wrap_err ''error reading memory.swap stats'' (memoryDataV2 w path ''memory.swap'')) (\<lambda>sw.
     and_then (wrap_err ''error fetching memory.stat'' (fillStatStruct w path)) (\<lambda>st.
       Ok (mem\<lparr>mems2_Mem := d, mems2_MemSwap := sw, mems2_Stats := st\<rparr>))))"

section \<open>Keys and fields of the statistics\<close>

interpretation v2_usage: kv_field getStats_set "\<lambda>s. cu_NS (cs2_Usage s)" "''usage_usec''" "\<lambda>v. v"
  by unfold_locales (simp add: getStats_set_def)

interpretation v2_user: kv_field getStats_set "\<lambda>s. cu_NS (cs2_User s)" "''user_usec''" "\<lambda>v. v"
  by unfold_locales (simp add: getStats_set_def)

interpretation v2_system: kv_field getStats_set "\<lambda>s. cu_NS (cs2_System s)" "''system_usec''" "\<lambda>v. v"
  by unfold_locales (simp add: getStats_set_def)

interpretation v2_throttled_us: kv_field getStats_set "\<lambda>s. th2_Us (cs2_Throttled s)" "''throttled_usec''" Some
  by unfold_locales (simp add: getStats_set_def)

interpretation v2_throttled: kv_field getStats_set "\<lambda>s. th2_Periods (cs2_Throttled s)" "''nr_throttled''" Some
  by unfold_locales (simp add: getStats_set_def)

interpretation v2_periods: kv_field getStats_set cs2_Periods "''nr_periods''" Some
  by unfold_locales (simp add: getStats_set_def)

interpretation v2_oom_kill: kv_field events_set ev_OOMKill "''oom_kill''" Some
  by unfold_locales (simp add: events_set_def)

definition stat_fields :: "(string \<times> (MemoryStatV2 \<Rightarrow> u64)) list" where
  "stat_fields =
     [(''anon'', m2_Anon), (''file'', m2_File),
      (''kernel_stack'', m2_KernelStack), (''pagetables'', m2_Pagetables),
      (''percpu'', m2_PerCPU), (''sock'', m2_Sock),
      (''shmem'', m2_Shmem), (''file_mapped'', m2_FileMapped),
      (''file_dirty'', m2_FileDirty), (''file_writeback'', m2_FileWriteback),
      (''swapcached'', m2_SwapCached), (''anon_thp'', m2_AnonTHP),
      (''file_thp'', m2_FileTHP), (''shmem_thp'', m2_ShmemTHP),
      (''inactive_anon'', m2_InactiveAnon), (''active_anon'', m2_ActiveAnon),
      (''inactive_file'', m2_InactiveFile), (''active_file'', m2_ActiveFile),
      (''unevictable'', m2_Unevictable), (''slab_reclaimable'', m2_SlabReclaimable),
      (''slab_unreclaimable'', m2_SlabUnreclaimable), (''slab'', m2_Slab),
      (''workingset_refault_anon'', m2_WorkingSetRefaultAnon), (''workingset_refault_file'', m2_WorkingSetRefaultFile),
      (''workingset_activate_anon'', m2_WorkingSetActivateAnon), (''workingset_activate_file'', m2_WorkingSetActivateFile),
      (''workingset_restore_anon'', m2_WorkingSetRestoreAnon), (''workingset_restore_file'', m2_WorkingSetRestoreFile),
      (''workingset_nodereclaim'', m2_WorkingSetNodeReclaim), (''pgfault'', m2_PageFaults),
      (''pgmajfault'', m2_MajorPageFaults), (''pgrefill'', m2_PageRefill),
      (''pgscan'', m2_PageScan), (''pgsteal'', m2_PageSteal),
      (''pgactivate'', m2_PageActivate), (''pgdeactivate'', m2_PageDeactivate),
      (''pglazyfree'', m2_PageLazyFree), (''pglazyfreed'', m2_PageLazyFreed),
      (''thp_fault_alloc'', m2_THPFaultAlloc), (''thp_collapse_alloc'', m2_THPCollapseAlloc)]"

lemma stat_tags_distinct: "distinct (map fst stat_tags)"
  by (simp add: stat_tags_def)

lemma set_tagged_eq:
  "set_tagged key v st = (case map_of stat_tags key of Some put \<Rightarrow> put v st | None \<Rightarrow> st)"
proof -
  have skip: "key \<notin> fst ` set ts \<Longrightarrow> foldl (\<lambda>st (tag, put). if tag = key then put v st else st) st ts = st"
    for ts :: "(string \<times> (u64 \<Rightarrow> MemoryStatV2 \<Rightarrow> MemoryStatV2)) list" and st
    by (induction ts arbitrary: st) auto
  have "distinct (map fst ts) \<Longrightarrow> foldl (\<lambda>st (tag, put). if tag = key then put v st else st) st ts =
      (case map_of ts key of Some put \<Rightarrow> put v st | None \<Rightarrow> st)"
    for ts :: "(string \<times> (u64 \<Rightarrow> MemoryStatV2 \<Rightarrow> MemoryStatV2)) list" and st
    by (induction ts arbitrary: st) (auto simp: skip)
  then show ?thesis using stat_tags_distinct by (simp add: set_tagged_def)
qed

text \<open>Each setter changes its own field only.\<close>

lemma stat_setters:
  "list_all (\<lambda>(key, put). list_all (\<lambda>(tag, sel). sel (put v st) = (if key = tag then v else sel st)) stat_fields) stat_tags"
  by (simp add: stat_tags_def stat_fields_def)

lemma set_tagged_field:
  assumes "(tag, sel) \<in> set stat_fields"
  shows "sel (set_tagged key v st) = (if key = tag then v else sel st)"
proof (cases "map_of stat_tags key")
  case None
  have "fst ` set stat_fields = fst ` set stat_tags" by (simp add: stat_tags_def stat_fields_def)
  then have "tag \<noteq> key" using None assms by (force simp: map_of_eq_None_iff)
  then show ?thesis by (simp add: set_tagged_eq None)
next
  case (Some put)
  then have "(key, put) \<in> set stat_tags" by (rule map_of_SomeD)
  from bspec[OF stat_setters[unfolded list_all_iff] this]
  have "\<forall>x \<in> set stat_fields. case x of (tag, sel) \<Rightarrow> sel (put v st) = (if key = tag then v else sel st)"
    by (simp only: prod.case list_all_iff)
  from bspec[OF this assms] show ?thesis by (simp only: set_tagged_eq Some option.case prod.case)
qed

lemma stat_loop_lines:
  "list_all kv_ok kvs \<Longrightarrow> stat_loop st (map kv_line kvs) = Ok (foldl (\<lambda>s (k, v). set_tagged k v s) st kvs)"
proof (induction kvs arbitrary: st)
  case (Cons kv kvs)
  have "CHR '' '' \<notin> set (fst kv)"
    using Cons.prems by (auto simp: kv_ok_def plain_def list_all_iff plain_char_def code_def)
  then have "splitN2 (CHR '' '') (kv_line kv) = [fst kv, show_nat (unat (snd kv))]"
    unfolding kv_line_def by (rule splitN2_at)
  then show ?case using Cons by (simp add: ParseUint_show case_prod_beta)
qed simp

lemma fold_tagged:
  assumes "(tag, sel) \<in> set stat_fields"
  shows "sel (foldl (\<lambda>s (k, v). set_tagged k v s) st kvs) = valueOr (sel st) (map_of (rev kvs) tag)"
  by (induction kvs arbitrary: st)
    (auto simp: set_tagged_field[OF assms] map_add_def split: option.splits)

text \<open>
  C35. The version 2 memory statistics: each field of the struct holds the value of the
  key its tag names (the last one in the file), and 0 if the file does not mention it.
\<close>

theorem fillStatStruct_fields:
  assumes "list_all kv_ok kvs" "file_of w (path_Join [path, ''memory.stat'']) = Inr (kv_show kvs)"
  shows "\<exists>st. fillStatStruct w path = Ok st \<and>
    list_all (\<lambda>(tag, sel). sel st = valueOr 0 (map_of (rev kvs) tag)) stat_fields"
proof -
  have ls: "list_all is_line (map kv_line kvs)" using assms(1) kv_line_is_line by (auto simp: list_all_iff)
  let ?st = "foldl (\<lambda>s (k, v). set_tagged k v s) zeroMemoryStatV2 kvs"
  have "fillStatStruct w path = Ok ?st"
    using assms by (simp add: fillStatStruct_def os_ReadFile_def kv_show_def scan_lines_unlines[OF ls] stat_loop_lines)
  moreover have zero: "list_all (\<lambda>(tag, sel). sel zeroMemoryStatV2 = 0) stat_fields"
    by (simp add: stat_fields_def zeroMemoryStatV2_def)
  have "list_all (\<lambda>(tag, sel). sel ?st = valueOr 0 (map_of (rev kvs) tag)) stat_fields"
    unfolding list_all_iff
  proof safe
    fix tag sel assume f: "(tag, sel) \<in> set stat_fields"
    have "sel zeroMemoryStatV2 = 0" using bspec[OF zero[unfolded list_all_iff] f] by simp
    then show "sel ?st = valueOr 0 (map_of (rev kvs) tag)" by (simp add: fold_tagged[OF f])
  qed
  ultimately show ?thesis by blast
qed

definition demo_stat :: "(string \<times> u64) list" where
  "demo_stat = [(''anon'', 4096), (''pgfault'', 77), (''unknown'', 5)]"

theorem fillStatStruct_fields_witness:
  "\<exists>st. fillStatStruct (files_env [(path_Join [''/cg'', ''memory.stat''], kv_show demo_stat)]) ''/cg'' = Ok st \<and>
    list_all (\<lambda>(tag, sel). sel st = valueOr 0 (map_of (rev demo_stat) tag)) stat_fields"
  by (rule fillStatStruct_fields)
    (simp_all add: demo_stat_def kv_ok_def plain_def plain_char_def code_def files_env_def)

section \<open>The cpu controller\<close>

text \<open>
  \<open>Get\<close> of the cpu controller. With a readable pressure file and a well-formed
  \<open>cpu.stat\<close> every field has the value of its key; the usage fields, named and typed as
  nanoseconds, receive the file's microseconds as they are. Without a pressure file it
  returns success and has read no statistics at all, whatever \<open>cpu.stat\<close> holds.
\<close>

theorem CPUSubsystemV2_Get_cases:
  assumes "list_all kv_ok kvs" "file_of w (path_Join [path, ''cpu.stat'']) = Inr (kv_show kvs)"
  shows "(\<forall>p. GetPressure w (path_Join [path, ''cpu.pressure'']) = Ok p \<longrightarrow>
      (\<exists>st. CPUSubsystemV2_Get w path cpu = Ok (cpu\<lparr>cpu2_Pressure := p, cpu2_Stats := st\<rparr>) \<and>
        cu_NS (cs2_Usage st) = valueOr 0 (map_of (rev kvs) ''usage_usec'') \<and>
        cu_NS (cs2_User st) = valueOr 0 (map_of (rev kvs) ''user_usec'') \<and>
        cu_NS (cs2_System st) = valueOr 0 (map_of (rev kvs) ''system_usec'') \<and>
        cs2_Periods st = map_of (rev kvs) ''nr_periods'' \<and>
        th2_Periods (cs2_Throttled st) = map_of (rev kvs) ''nr_throttled'' \<and>
        th2_Us (cs2_Throttled st) = map_of (rev kvs) ''throttled_usec'')) \<and>
    (file_of w (path_Join [path, ''cpu.pressure'']) = Inl ENOENT \<longrightarrow>
      CPUSubsystemV2_Get w path cpu = Ok (cpu\<lparr>cpu2_Pressure := Map.empty\<rparr>))"
proof -
  have ls: "list_all is_line (map kv_line kvs)" using assms(1) kv_line_is_line by (auto simp: list_all_iff)
  let ?st = "foldl (\<lambda>s (k, v). getStats_set k v s) zeroCPUStatsV2 kvs"
  have st: "getStats w path = Ok ?st"
    using assms by (simp add: getStats_def os_ReadFile_def kv_show_def scan_lines_unlines[OF ls] kv_loop_lines)
  have fields: "cu_NS (cs2_Usage ?st) = valueOr 0 (map_of (rev kvs) ''usage_usec'')"
    "cu_NS (cs2_User ?st) = valueOr 0 (map_of (rev kvs) ''user_usec'')"
    "cu_NS (cs2_System ?st) = valueOr 0 (map_of (rev kvs) ''system_usec'')"
    "cs2_Periods ?st = map_of (rev kvs) ''nr_periods''"
    "th2_Periods (cs2_Throttled ?st) = map_of (rev kvs) ''nr_throttled''"
    "th2_Us (cs2_Throttled ?st) = map_of (rev kvs) ''throttled_usec''"
    by (simp_all add: v2_usage.get_fold v2_user.get_fold v2_system.get_fold v2_periods.get_fold
        v2_throttled.get_fold v2_throttled_us.get_fold zeroCPUStatsV2_def zeroCPUUsage_def split: option.splits)
  show ?thesis
    using fields by (auto simp: CPUSubsystemV2_Get_def st GetPressure_def os_ReadFile_def split: outcome.splits)
qed

definition zeroCPUSubsystemV2 :: CPUSubsystemV2 where
  "zeroCPUSubsystemV2 = \<lparr>cpu2_ID = [], cpu2_Path = [], cpu2_Pressure = Map.empty, cpu2_Stats = zeroCPUStatsV2\<rparr>"

theorem CPUSubsystemV2_Get_cases_witness:
  "CPUSubsystemV2_Get (files_env [(path_Join [''/cg'', ''cpu.stat''], kv_show [(''usage_usec'', 5)])]) ''/cg''
     zeroCPUSubsystemV2 = Ok zeroCPUSubsystemV2"
proof -
  let ?w = "files_env [(path_Join [''/cg'', ''cpu.stat''], kv_show [(''usage_usec'', 5)])]"
  have p: "path_Join [''/cg'', f] = abs_path [''cg'', f]" if "is_name f" for f
    using that join_dir_path[of "[''cg'']" f]
    by (auto simp: abs_path_def slash_def is_name_def path_names_def has_dotdot_def split_on_token)
  have "path_Join [''/cg'', ''cpu.pressure''] \<noteq> path_Join [''/cg'', ''cpu.stat'']"
    by (simp add: p is_name_def slash_def abs_path_def)
  then have "file_of ?w (path_Join [''/cg'', ''cpu.pressure'']) = Inl ENOENT" by (simp add: files_env_def)
  moreover have "file_of ?w (path_Join [''/cg'', ''cpu.stat'']) = Inr (kv_show [(''usage_usec'', 5)])"
    by (simp add: files_env_def)
  moreover have "list_all kv_ok [(''usage_usec'', 5)]" by (simp add: kv_ok_def plain_def plain_char_def code_def)
  ultimately show ?thesis
    using CPUSubsystemV2_Get_cases[of "[(''usage_usec'', 5)]" ?w "''/cg''" zeroCPUSubsystemV2]
    by (auto simp: zeroCPUSubsystemV2_def)
qed

section \<open>Devices\<close>

text \<open>The device number the kernel's C library makes of a major and a minor number (\<open>makedev\<close>).\<close>

definition makedev :: "u64 \<Rightarrow> u64 \<Rightarrow> u64" where
  "makedev major minor =
     or (push_bit 8 (and major 0xfff)) (or (push_bit 32 (and major 0xfffff000))
       (or (and minor 0xff) (push_bit 12 (and minor 0xffffff00))))"

lemma masks:
  "(0xfff :: u64) = mask 12" "(0xff :: u64) = mask 8"
  "(0xfffff000 :: u64) = push_bit 12 (mask 20)" "(0xffffff00 :: u64) = push_bit 8 (mask 24)"
  "(0xfff00 :: u64) = push_bit 8 (mask 12)" "(0xfffff00000000000 :: u64) = push_bit 44 (mask 20)"
  "(0xffffff00000 :: u64) = push_bit 20 (mask 24)"
  by (simp_all add: mask_eq_exp_minus_1 push_bit_eq_mult)

lemma high_bits:
  assumes "unat (x :: u64) < 2 ^ 32" "bit x n" shows "n < 32"
proof -
  have "unat (take_bit 32 x) = unat x"
    using assms(1) by (simp add: unsigned_take_bit_eq take_bit_nat_eq_self_iff)
  then have "take_bit 32 x = x" by (simp only: word_unat_eq_iff)
  then show "n < 32" using assms(2) by (metis bit_take_bit_iff)
qed

lemma bit_and_push_mask:
  "bit (and x (push_bit k (mask l)) :: u64) n \<longleftrightarrow> n < 64 \<and> k \<le> n \<and> n - k < l \<and> bit x n"
  "bit (and x (mask l) :: u64) n \<longleftrightarrow> n < l \<and> bit x n"
  by (auto simp: bit_and_iff bit_push_bit_iff bit_mask_iff dest: bit_imp_le_length)

lemma bit_push64: "bit (push_bit k x :: u64) n \<longleftrightarrow> n < 64 \<and> k \<le> n \<and> bit x (n - k)"
  by (auto simp: bit_push_bit_iff)

lemma bit_makedev:
  "bit (makedev major minor) n \<longleftrightarrow>
     (8 \<le> n \<and> n < 20 \<and> bit major (n - 8)) \<or> (44 \<le> n \<and> n < 64 \<and> bit major (n - 32)) \<or>
     (n < 8 \<and> bit minor n) \<or> (20 \<le> n \<and> n < 44 \<and> bit minor (n - 12))"
proof -
  have "n < 64 \<and> 8 \<le> n \<and> n - 8 < 12 \<longleftrightarrow> 8 \<le> n \<and> n < 20" by linarith
  moreover have "n < 64 \<and> 32 \<le> n \<and> n - 32 < 64 \<and> 12 \<le> n - 32 \<and> n - 32 - 12 < 20 \<longleftrightarrow> 44 \<le> n \<and> n < 64" by linarith
  moreover have "n < 64 \<and> 12 \<le> n \<and> n - 12 < 64 \<and> 8 \<le> n - 12 \<and> n - 12 - 8 < 24 \<longleftrightarrow> 20 \<le> n \<and> n < 44" by linarith
  ultimately show ?thesis
    unfolding makedev_def masks bit_or_iff bit_push64 bit_and_push_mask by blast
qed

lemma bit_dev_major: "bit (dev_major d) k \<longleftrightarrow> (12 \<le> k \<and> k < 32 \<and> bit d (32 + k)) \<or> (k < 12 \<and> bit d (8 + k))"
proof -
  have "32 + k < 64 \<and> 44 \<le> 32 + k \<and> 32 + k - 44 < 20 \<longleftrightarrow> 12 \<le> k \<and> k < 32" by linarith
  moreover have "8 + k < 64 \<and> 8 \<le> 8 + k \<and> 8 + k - 8 < 12 \<longleftrightarrow> k < 12" by linarith
  ultimately show ?thesis
    unfolding dev_major_def masks bit_or_iff bit_drop_bit_eq o_def bit_and_push_mask by blast
qed

lemma bit_dev_minor: "bit (dev_minor d) k \<longleftrightarrow> (k < 8 \<and> bit d k) \<or> (8 \<le> k \<and> k < 32 \<and> bit d (12 + k))"
proof -
  have "12 + k < 64 \<and> 20 \<le> 12 + k \<and> 12 + k - 20 < 24 \<longleftrightarrow> 8 \<le> k \<and> k < 32" by linarith
  moreover have "0 + k = k" by simp
  ultimately show ?thesis
    unfolding dev_minor_def masks bit_or_iff bit_drop_bit_eq o_def bit_and_push_mask by metis
qed

lemma dev_of_makedev:
  assumes "unat major < 2 ^ 32" "unat minor < 2 ^ 32"
  shows "dev_major (makedev major minor) = major" "dev_minor (makedev major minor) = minor"
proof -
  have major: "bit major n \<Longrightarrow> n < 32" and minor: "bit minor n \<Longrightarrow> n < 32" for n
    using high_bits assms by blast+
  show "dev_major (makedev major minor) = major"
    by (rule bit_word_eqI) (auto simp: bit_dev_major bit_makedev dest: major)
  show "dev_minor (makedev major minor) = minor"
    by (rule bit_word_eqI) (auto simp: bit_dev_minor bit_makedev dest: minor)
qed

lemma makedev_of_dev: "makedev (dev_major d) (dev_minor d) = d"
proof (rule bit_word_eqI)
  fix n :: nat assume "n < LENGTH(64)"
  then consider "n < 8" | "8 \<le> n" "n < 20" | "20 \<le> n" "n < 44" | "44 \<le> n" "n < 64" by fastforce
  then show "bit (makedev (dev_major d) (dev_minor d)) n \<longleftrightarrow> bit d n"
    by cases (auto simp: bit_makedev bit_dev_major bit_dev_minor)
qed

lemma fetchDeviceName_fold:
  assumes "unat major < 2 ^ 32" "unat minor < 2 ^ 32"
  shows "foldl (\<lambda>st d. walkFunc major minor d st) st es =
    (case find (\<lambda>d. \<not> de_is_dir d \<and> de_block_device d \<and> de_Rdev d = Some (makedev major minor)) (rev es) of
       Some d \<Rightarrow> (True, de_name d) | None \<Rightarrow> st)"
proof (induction es rule: rev_induct)
  case (snoc d es)
  have "(dev_major r = major \<and> dev_minor r = minor) \<longleftrightarrow> r = makedev major minor" for r
    using dev_of_makedev[OF assms] makedev_of_dev[of r] by auto
  then show ?case using snoc by (auto simp: walkFunc_def split: option.splits)
qed simp

text \<open>
  \<open>fetchDeviceName\<close> finds the block device of a pair of numbers: the last entry of
  \<open>/dev\<close>, not a directory, whose device number is the one made of the two, with no other
  number mistaken for it; without such an entry nothing is found, and without \<open>/dev\<close> the
  walk's function is handed a nil entry and panics.
\<close>

theorem fetchDeviceName_finds:
  assumes "unat major < 2 ^ 32" "unat minor < 2 ^ 32"
  shows "fetchDeviceName (DevEntries es) major minor = Ok
      (case find (\<lambda>d. \<not> de_is_dir d \<and> de_block_device d \<and> de_Rdev d = Some (makedev major minor)) (rev es) of
         Some d \<Rightarrow> (True, de_name d) | None \<Rightarrow> (False, [])) \<and>
    fetchDeviceName NoDev major minor = Panic"
  using fetchDeviceName_fold[OF assms] by (simp add: fetchDeviceName_def)

theorem fetchDeviceName_finds_witness:
  "fetchDeviceName (DevEntries
     [\<lparr>de_name = ''sda'', de_is_dir = False, de_block_device = True, de_Rdev = Some 0x800\<rparr>,
      \<lparr>de_name = ''tty'', de_is_dir = False, de_block_device = False, de_Rdev = Some 0x800\<rparr>]) 8 0 = Ok (True, ''sda'')"
  using fetchDeviceName_finds[of 8 0
    "[\<lparr>de_name = ''sda'', de_is_dir = False, de_block_device = True, de_Rdev = Some 0x800\<rparr>,
      \<lparr>de_name = ''tty'', de_is_dir = False, de_block_device = False, de_Rdev = Some 0x800\<rparr>]"]
  by (simp add: makedev_def)

section \<open>Lines of io.stat\<close>

interpretation v2_rbytes: kv_field set_counter "\<lambda>s. iom_Bytes (ios_Read s)" "''rbytes''" "\<lambda>v. v"
  by unfold_locales (simp add: set_counter_def)

interpretation v2_wbytes: kv_field set_counter "\<lambda>s. iom_Bytes (ios_Write s)" "''wbytes''" "\<lambda>v. v"
  by unfold_locales (simp add: set_counter_def)

interpretation v2_dbytes: kv_field set_counter "\<lambda>s. iom_Bytes (ios_Discarded s)" "''dbytes''" "\<lambda>v. v"
  by unfold_locales (simp add: set_counter_def)

interpretation v2_rios: kv_field set_counter "\<lambda>s. iom_IOs (ios_Read s)" "''rios''" "\<lambda>v. v"
  by unfold_locales (simp add: set_counter_def)

interpretation v2_wios: kv_field set_counter "\<lambda>s. iom_IOs (ios_Write s)" "''wios''" "\<lambda>v. v"
  by unfold_locales (simp add: set_counter_def)

interpretation v2_dios: kv_field set_counter "\<lambda>s. iom_IOs (ios_Discarded s)" "''dios''" "\<lambda>v. v"
  by unfold_locales (simp add: set_counter_def)

text \<open>A line: device numbers, then counters. What the line says of the counters.\<close>

record io_line =
  il_devs :: "(u64 \<times> u64) list"
  il_counters :: "(string \<times> u64) list"

definition show_dev :: "u64 \<times> u64 \<Rightarrow> string" where
  "show_dev d = show_nat (unat (fst d)) @ CHR '':'' # show_nat (unat (snd d))"

definition show_counter :: "string \<times> u64 \<Rightarrow> string" where
  "show_counter kv = fst kv @ CHR ''='' # show_nat (unat (snd kv))"

definition show_io_line :: "io_line \<Rightarrow> string" where
  "show_io_line l = join (CHR '' '') (map show_dev (il_devs l) @ map show_counter (il_counters l))"

definition io_line_ok :: "io_line \<Rightarrow> bool" where
  "io_line_ok l \<longleftrightarrow> length (show_io_line l) < max_scan_token \<and> il_devs l \<noteq> [] \<and>
     list_all (\<lambda>kv. plain (fst kv) \<and> CHR '':'' \<notin> set (fst kv) \<and> CHR ''='' \<notin> set (fst kv)) (il_counters l)"

definition io_counters :: "(string \<times> u64) list \<Rightarrow> IOStatV2" where
  "io_counters kvs =
     (let get = (\<lambda>key. valueOr 0 (map_of (rev kvs) key)) in
      \<lparr>ios_Read = \<lparr>iom_Bytes = get ''rbytes'', iom_IOs = get ''rios''\<rparr>,
       ios_Write = \<lparr>iom_Bytes = get ''wbytes'', iom_IOs = get ''wios''\<rparr>,
       ios_Discarded = \<lparr>iom_Bytes = get ''dbytes'', iom_IOs = get ''dios''\<rparr>\<rparr>)"

lemma io_counters_fold: "foldl (\<lambda>s (k, v). set_counter k v s) zeroIOStatV2 kvs = io_counters kvs"
  by (simp add: io_counters_def Let_def v2_rbytes.get_fold v2_wbytes.get_fold v2_dbytes.get_fold
      v2_rios.get_fold v2_wios.get_fold v2_dios.get_fold zeroIOStatV2_def valueOr_def split: option.splits)

text \<open>The name a device goes by.\<close>

definition find_dev :: "dev_entry list \<Rightarrow> u64 \<times> u64 \<Rightarrow> dev_entry option" where
  "find_dev es d = find (\<lambda>e. \<not> de_is_dir e \<and> de_block_device e \<and>
     (case de_Rdev e of None \<Rightarrow> False | Some r \<Rightarrow> dev_major r = fst d \<and> dev_minor r = snd d)) (rev es)"

definition dev_label :: "bool \<Rightarrow> dev_entry list \<Rightarrow> u64 \<times> u64 \<Rightarrow> string" where
  "dev_label resolveDevIDs es d =
     (if resolveDevIDs then case find_dev es d of Some e \<Rightarrow> de_name e | None \<Rightarrow> show_dev d else show_dev d)"

lemma fetchDeviceName_label:
  "fetchDeviceName (DevEntries es) (fst d) (snd d) =
     Ok (case find_dev es d of Some e \<Rightarrow> (True, de_name e) | None \<Rightarrow> (False, []))"
proof -
  have "foldl (\<lambda>st e. walkFunc (fst d) (snd d) e st) st es =
      (case find_dev es d of Some e \<Rightarrow> (True, de_name e) | None \<Rightarrow> st)" for st
    by (induction es rule: rev_induct) (auto simp: find_dev_def walkFunc_def split: option.splits)
  then show ?thesis by (simp add: fetchDeviceName_def)
qed

lemma show_dev_has_colon: "contains '':'' (show_dev d)"
  by (simp add: contains_char show_dev_def)

lemma digits_no: "c \<in> set (show_nat n) \<Longrightarrow> is_digit c"
  using show_nat_digits[of n] by (simp add: list_all_iff)

lemma scan_uint_u64:
  assumes "s = [] \<or> \<not> is_digit (hd s)" shows "scan_uint (show_nat (unat (v :: u64)) @ s) = Ok (v, s)"
  using scan_uint_show[OF unat_u64_bound assms] by simp

lemma scan_show_dev:
  "and_then (scan_uint (show_dev d)) (\<lambda>(major, r).
     and_then (scan_char (CHR '':'') r) (\<lambda>r. and_then (scan_uint r) (\<lambda>(minor, _). Ok (major, minor)))) = Ok d"
  using scan_uint_u64[of "[]" "snd d"]
  by (cases d) (simp add: show_dev_def scan_uint_u64 is_digit_def code_def scan_char_def)

lemma components_devs:
  "stat_components (DevEntries es) r (ids, st, found) (map show_dev ds @ rest) =
     stat_components (DevEntries es) r (ids @ map (dev_label r es) ds, st, found) rest"
proof (induction ds arbitrary: ids)
  case (Cons d ds)
  have step: "stat_components (DevEntries es) r (ids, st, found) (show_dev d # cs) =
      stat_components (DevEntries es) r (ids @ [dev_label r es d], st, found) cs" for cs
    by (simp add: show_dev_has_colon scan_show_dev fetchDeviceName_label case_prod_beta dev_label_def split: option.splits)
  show ?case by (simp only: list.map append_Cons step Cons append_assoc append_Nil)
qed simp

lemma components_counters:
  assumes "list_all (\<lambda>kv. plain (fst kv) \<and> CHR '':'' \<notin> set (fst kv) \<and> CHR ''='' \<notin> set (fst kv)) kvs"
  shows "stat_components dev r (ids, st, found) (map show_counter kvs) =
    Ok (ids, foldl (\<lambda>s (k, v). set_counter k v s) st kvs, found \<or> kvs \<noteq> [])"
  using assms
proof (induction kvs arbitrary: st found)
  case (Cons kv kvs)
  have digits: "CHR '':'' \<notin> set (show_nat n)" "CHR ''='' \<notin> set (show_nat n)" for n
    by (auto dest!: digits_no simp: is_digit_def code_def)
  have "\<not> contains '':'' (show_counter kv)" "contains ''='' (show_counter kv)"
    using Cons.prems digits by (auto simp: contains_char show_counter_def)
  moreover have "split_on (CHR ''='') (show_counter kv) = [fst kv, show_nat (unat (snd kv))]"
    using Cons.prems digits by (simp add: show_counter_def split_on_append split_on_token)
  ultimately show ?case using Cons by (simp add: Let_def case_prod_beta)
qed simp

lemma parseStatLine_line:
  assumes "io_line_ok l"
  shows "parseStatLine (DevEntries es) r (show_io_line l) =
    Ok (map (dev_label r es) (il_devs l), io_counters (il_counters l), il_counters l \<noteq> [])"
proof -
  have "CHR '' '' \<notin> set (show_dev d)" for d by (auto simp: show_dev_def is_digit_def code_def dest!: digits_no)
  moreover have "CHR '' '' \<notin> set (show_counter kv)" if "kv \<in> set (il_counters l)" for kv
  proof -
    have "CHR '' '' \<notin> set (show_nat n)" for n by (auto simp: is_digit_def code_def dest!: digits_no)
    moreover have "plain (fst kv)" using assms that by (auto simp: io_line_ok_def list_all_iff)
    then have "CHR '' '' \<notin> set (fst kv)" by (auto simp: plain_def list_all_iff plain_char_def code_def)
    ultimately show ?thesis by (auto simp: show_counter_def)
  qed
  ultimately have "split_on (CHR '' '') (show_io_line l) = map show_dev (il_devs l) @ map show_counter (il_counters l)"
    using assms unfolding show_io_line_def by (intro split_on_join) (auto simp: io_line_ok_def)
  then show ?thesis
    using assms by (simp add: parseStatLine_def components_devs components_counters io_counters_fold io_line_ok_def)
qed

text \<open>What the file says: the devices of every line that has counters, with these.\<close>

definition io_entries :: "bool \<Rightarrow> dev_entry list \<Rightarrow> io_line list \<Rightarrow> (string \<times> IOStatV2) list" where
  "io_entries r es ls = concat (map (\<lambda>l. if il_counters l = [] then []
     else map (\<lambda>d. (dev_label r es d, io_counters (il_counters l))) (il_devs l)) ls)"

lemma foldl_map_upd: "foldl (\<lambda>m d. m(d \<mapsto> v)) m ds = m ++ map_of (rev (map (\<lambda>d. (d, v)) ds))"
  by (induction ds rule: rev_induct) (auto simp: map_add_upd simp del: fun_upd_apply)

lemma io_loop_lines:
  "list_all io_line_ok ls \<Longrightarrow>
     io_loop (DevEntries es) r m (map show_io_line ls) = Ok (m ++ map_of (rev (io_entries r es ls)))"
proof (induction ls arbitrary: m)
  case (Cons l ls)
  have "io_entries r es (l # ls) = (if il_counters l = [] then []
      else map (\<lambda>d. (d, io_counters (il_counters l))) (map (dev_label r es) (il_devs l))) @ io_entries r es ls"
    by (simp add: io_entries_def)
  then show ?case using Cons
    by (simp only: io_loop.simps list.map parseStatLine_line list.pred_inject(2) wrap_err_simps and_then_simps
        prod.case foldl_map_upd rev_append map_of_append map_add_assoc) auto
qed (simp add: io_entries_def)

text \<open>
  C36. The statistics read from \<open>io.stat\<close>: every device named on a line with counters,
  under its name in \<open>/dev\<close> if asked and found and under its numbers otherwise, has the
  counters of the last such line, each read from its own key; nothing else is in the map,
  and lines without counters are skipped.
\<close>

theorem getIOStats_lines:
  assumes "list_all io_line_ok ls"
    and "file_of w (path_Join [path, ''io.stat'']) = Inr (unlines (map show_io_line ls))"
  shows "getIOStats w (DevEntries es) path r = Ok (map_of (rev (io_entries r es ls)))"
proof -
  have "is_line (show_io_line l)" if "l \<in> set ls" for l
  proof (rule is_line_text)
    have ok: "io_line_ok l" using assms(1) that by (simp add: list_all_iff)
    then show "length (show_io_line l) < max_scan_token" by (simp add: io_line_ok_def)
    have "plain (show_dev d)" for d
      using show_nat_plain by (auto simp: show_dev_def plain_def plain_char_def code_def)
    moreover have "plain (show_counter kv)" if "kv \<in> set (il_counters l)" for kv
      using ok that show_nat_plain by (auto simp: show_counter_def io_line_ok_def list_all_iff plain_def plain_char_def code_def)
    ultimately show "list_all text_char (show_io_line l)"
      unfolding show_io_line_def by (intro join_text) (auto simp: list_all_iff)
  qed
  then have "scan_lines (unlines (map show_io_line ls)) = map show_io_line ls"
    by (intro scan_lines_unlines) (auto simp: list_all_iff)
  then show ?thesis
    using assms by (simp add: getIOStats_def os_ReadFile_def io_loop_lines)
qed

definition demo_io :: "io_line list" where
  "demo_io = [\<lparr>il_devs = [(8, 0)], il_counters = [(''rbytes'', 512), (''rios'', 1)]\<rparr>, \<lparr>il_devs = [(7, 1)], il_counters = []\<rparr>]"

theorem getIOStats_lines_witness:
  "getIOStats (files_env [(path_Join [''/cg'', ''io.stat''], unlines (map show_io_line demo_io))]) (DevEntries []) ''/cg'' True =
     Ok [''8:0'' \<mapsto> io_counters [(''rbytes'', 512), (''rios'', 1)]]"
proof -
  have "list_all io_line_ok demo_io"
    by (simp add: demo_io_def io_line_ok_def plain_def plain_char_def code_def show_io_line_def show_dev_def
        show_counter_def max_scan_token_def show_nat.simps)
  then have "getIOStats (files_env [(path_Join [''/cg'', ''io.stat''], unlines (map show_io_line demo_io))]) (DevEntries []) ''/cg'' True =
     Ok (map_of (rev (io_entries True [] demo_io)))"
    by (rule getIOStats_lines) (simp add: files_env_def)
  then show ?thesis
    by (simp add: demo_io_def io_entries_def dev_label_def find_dev_def show_dev_def show_nat.simps digit_char_def char_of_def bit_0)
qed

end
