(* ===== verification/Cgroup_Reader.thy ===== *)
theory Cgroup_Reader
  imports Cgroup_Paths Cgroup_V1 Cgroup_V2 Numcpu Metric_Math
begin

text \<open>
  \<open>metric/system/cgroup/reader.go\<close> and \<open>cgstats.go\<close>: the reader that dispatches to the
  controllers of either version, the version a process uses, and the CPU percentages
  between two readings. The orders of the loops over maps, the clock ticks and the devices
  are arguments, gathered in \<open>cg_env\<close>. Proved: the version decision, the common path
  and identifier, that the statistics do not depend on the order in which the controllers
  are visited and hold each controller's own reading, and the percentages.
\<close>

section \<open>Data\<close>

datatype CgroupsVersion = CgroupsV1 | CgroupsV2

record StatsV1 =
  s1_ID :: string
  s1_Path :: string
  s1_CPU :: "CPUSubsystem option"
  s1_CPUAccounting :: "CPUAccountingSubsystem option"
  s1_Memory :: "MemorySubsystem option"
  s1_BlockIO :: "BlockIOSubsystem option"
  s1_Version :: CgroupsVersion

record StatsV2 =
  s2_ID :: string
  s2_Path :: string
  s2_CPU :: "CPUSubsystemV2 option"
  s2_Memory :: "MemorySubsystemV2 option"
  s2_IO :: "IOSubsystem option"
  s2_Version :: CgroupsVersion

definition zeroCPUSubsystem :: CPUSubsystem where
  "zeroCPUSubsystem = \<lparr>cpus_ID = [], cpus_Path = [],
     cpus_CFS = \<lparr>cfs_PeriodMicros = 0, cfs_QuotaMicros = 0, cfs_Shares = 0\<rparr>,
     cpus_RT = \<lparr>rt_Period = 0, rt_Runtime = 0\<rparr>,
     cpus_Stats = \<lparr>cs_Periods = 0, cs_Throttled = \<lparr>th_Us = 0, th_Periods = 0\<rparr>\<rparr>\<rparr>"

definition zeroCPUAccountingSubsystem :: CPUAccountingSubsystem where
  "zeroCPUAccountingSubsystem = \<lparr>acct_ID = [], acct_Path = [], acct_Total = zeroCPUUsage,
     acct_UsagePerCPU = Map.empty, acct_Stats = \<lparr>ca_User = zeroCPUUsage, ca_System = zeroCPUUsage\<rparr>\<rparr>"

definition zeroBlockIOSubsystem :: BlockIOSubsystem where
  "zeroBlockIOSubsystem = \<lparr>blk_ID = [], blk_Path = [], blk_Total = \<lparr>tio_Bytes = 0, tio_Ios = 0\<rparr>\<rparr>"

definition zeroMemorySubsystemV2 :: MemorySubsystemV2 where
  "zeroMemorySubsystemV2 = \<lparr>mems2_ID = [], mems2_Path = [], mems2_Mem = zeroMemoryDataV2,
     mems2_MemSwap = zeroMemoryDataV2, mems2_Stats = zeroMemoryStatV2\<rparr>"

definition zeroIOSubsystem :: IOSubsystem where
  "zeroIOSubsystem = \<lparr>io_ID = [], io_Path = [], io_Stats = Map.empty, io_Pressure = Map.empty\<rparr>"

text \<open>What the readers take from outside the source, with the orders of the loops over Go maps.\<close>

record cg_env =
  ce_os :: os_env
  ce_clockTicks :: u64
  ce_dev :: dev_walk
  ce_order_ops :: "(DeviceID \<rightharpoonup> OperationValues) \<Rightarrow> DeviceID list"
  ce_order_devs :: "(DeviceID \<rightharpoonup> ThrottleDevice) \<Rightarrow> DeviceID list"
  ce_order :: "(string \<rightharpoonup> ControllerPath) \<Rightarrow> string list"

section \<open>The reader\<close>

record ReaderOptions =
  ro_RootfsMountpoint :: resolver
  ro_IgnoreRootCgroups :: bool
  ro_CgroupsHierarchyOverride :: string

definition NewReaderOptions :: "os_env \<Rightarrow> ReaderOptions \<Rightarrow> Reader outcome" where
  "NewReaderOptions w opts =
     and_then (SupportedSubsystems w (ro_RootfsMountpoint opts)) (\<lambda>subsystems.
     and_then (wrap_err ''error finding mountpoints'' (SubsystemMountpoints w (ro_RootfsMountpoint opts) subsystems))
       (\<lambda>mountpoints.
         Ok \<lparr>rd_rootfsMountpoint = ro_RootfsMountpoint opts, rd_ignoreRootCgroups = ro_IgnoreRootCgroups opts,
             rd_cgroupsHierarchyOverride = ro_CgroupsHierarchyOverride opts, rd_cgroupMountpoints = mountpoints\<rparr>))"

definition NewReader :: "os_env \<Rightarrow> resolver \<Rightarrow> bool \<Rightarrow> Reader outcome" where
  "NewReader w rootfsMountpoint ignoreRootCgroups =
     NewReaderOptions w \<lparr>ro_RootfsMountpoint = rootfsMountpoint, ro_IgnoreRootCgroups = ignoreRootCgroups,
       ro_CgroupsHierarchyOverride = []\<rparr>"

definition ProcessCgroupPaths :: "os_env \<Rightarrow> resolver \<Rightarrow> int \<Rightarrow> PathList outcome" where
  "ProcessCgroupPaths w hostfs pid =
     and_then (wrap_err ''error creating cgroups reader'' (NewReader w hostfs False))
       (\<lambda>reader. Reader_ProcessCgroupPaths w reader pid)"

text \<open>The path on the last line of the file with a version 2 controller.\<close>

fun unified_path :: "string \<Rightarrow> string list \<Rightarrow> string outcome" where
  "unified_path cgpath [] = Ok cgpath"
| "unified_path cgpath (controller # rest) =
     (if contains ''0::/'' controller
      then and_then (at_index (split_on (CHR '':'') controller) 2) (\<lambda>p. unified_path p rest)
      else unified_path cgpath rest)"

definition readControllerList :: "os_env \<Rightarrow> string \<Rightarrow> string \<Rightarrow> string list outcome" where
  "readControllerList w cgroupsFile v2path =
     (if v2path = [] then Ok []
      else
        and_then (unified_path [] (split_on newline cgroupsFile)) (\<lambda>cgpath.
          if cgpath = [] then Ok []
          else
            and_then (wrap_err ''error reading file'' (os_ReadFile w (path_Join [v2path, cgpath, ''cgroup.controllers''])))
              (\<lambda>controllersRaw.
                 if controllersRaw = [] then Ok [] else Ok (split_on (CHR '' '') controllersRaw))))"

definition Reader_CgroupsVersion :: "os_env \<Rightarrow> Reader \<Rightarrow> int \<Rightarrow> CgroupsVersion outcome" where
  "Reader_CgroupsVersion w r pid =
     (let cgPath = ResolveHostFS (rd_rootfsMountpoint r) (path_Join [''/proc/'', itoa pid, ''cgroup'']) in
      and_then (wrap_err ''error reading file'' (os_ReadFile w cgPath)) (\<lambda>cgstring.
        if contains ''0::/'' cgstring then
          if length (split_on newline (trim_space cgstring)) = 1 then Ok CgroupsV2
          else
            and_then (wrap_err ''error fetching cgroup controller list''
              (readControllerList w cgstring (V2Loc (rd_cgroupMountpoints r)))) (\<lambda>controllers.
                if 0 < length controllers then Ok CgroupsV2 else Ok CgroupsV1)
        else Ok CgroupsV1))"

fun common_path :: "bool \<Rightarrow> string \<Rightarrow> ControllerPath list \<Rightarrow> string option" where
  "common_path ignoreRoot path [] = Some path"
| "common_path ignoreRoot path (m # ms) =
     (if \<not> cp_IsV2 m \<and> ignoreRoot \<and> cp_ControllerPath m = ''/'' then common_path ignoreRoot path ms
      else if path = [] then common_path ignoreRoot (cp_ControllerPath m) ms
      else if path \<noteq> cp_ControllerPath m then None
      else common_path ignoreRoot path ms)"

definition getCommonCgroupMetadata :: "string list \<Rightarrow> (string \<rightharpoonup> ControllerPath) \<Rightarrow> bool \<Rightarrow> string \<times> string" where
  "getCommonCgroupMetadata order mounts ignoreRoot =
     (case common_path ignoreRoot [] (map (\<lambda>k. the (mounts k)) order) of
        None \<Rightarrow> ([], [])
      | Some path \<Rightarrow> (path, path_Base path))"

section \<open>Statistics of a process\<close>

definition getStatsV1 :: "cg_env \<Rightarrow> ControllerPath \<Rightarrow> string \<Rightarrow> StatsV1 \<Rightarrow> StatsV1 outcome" where
  "getStatsV1 e path name stats =
     (let id = path_Base (cp_ControllerPath path); w = ce_os e in
      if name = ''blkio'' then
        and_then (wrap_err ''error fetching BlockIO stats''
          (BlockIOSubsystem_Get (ce_order_ops e) (ce_order_devs e) w (cp_FullPath path) zeroBlockIOSubsystem))
          (\<lambda>s. Ok (stats\<lparr>s1_BlockIO := Some (s\<lparr>blk_ID := id, blk_Path := cp_ControllerPath path\<rparr>)\<rparr>))
      else if name = ''cpu'' then
        and_then (wrap_err ''error fetching cpu stats'' (CPUSubsystem_Get w (cp_FullPath path) zeroCPUSubsystem))
          (\<lambda>s. Ok (stats\<lparr>s1_CPU := Some (s\<lparr>cpus_ID := id, cpus_Path := cp_ControllerPath path\<rparr>)\<rparr>))
      else if name = ''cpuacct'' then
        and_then (wrap_err ''error fetching cpuacct stats''
          (CPUAccountingSubsystem_Get (ce_clockTicks e) w (cp_FullPath path) zeroCPUAccountingSubsystem))
          (\<lambda>s. Ok (stats\<lparr>s1_CPUAccounting := Some (s\<lparr>acct_ID := id, acct_Path := cp_ControllerPath path\<rparr>)\<rparr>))
      else if name = ''memory'' then
        and_then (wrap_err ''error fetching memory stats'' (MemorySubsystem_Get w (cp_FullPath path) zeroMemorySubsystem))
          (\<lambda>s. Ok (stats\<lparr>s1_Memory := Some (s\<lparr>mems_ID := id, mems_Path := cp_ControllerPath path\<rparr>)\<rparr>))
      else Ok stats)"

definition getStatsV2 :: "cg_env \<Rightarrow> ControllerPath \<Rightarrow> string \<Rightarrow> StatsV2 \<Rightarrow> StatsV2 outcome" where
  "getStatsV2 e path name stats =
     (let id = path_Base (cp_ControllerPath path); w = ce_os e in
      if name = ''cpu'' then
        and_then (wrap_err ''error fetching CPU stats'' (CPUSubsystemV2_Get w (cp_FullPath path) zeroCPUSubsystemV2))
          (\<lambda>s. Ok (stats\<lparr>s2_CPU := Some (s\<lparr>cpu2_ID := id, cpu2_Path := cp_ControllerPath path\<rparr>)\<rparr>))
      else if name = ''memory'' then
        and_then (wrap_err ''error fetching Memory stats'' (MemorySubsystemV2_Get w (cp_FullPath path) zeroMemorySubsystemV2))
          (\<lambda>s. Ok (stats\<lparr>s2_Memory := Some (s\<lparr>mems2_ID := id, mems2_Path := cp_ControllerPath path\<rparr>)\<rparr>))
      else if name = ''io'' then
        and_then (wrap_err ''error fetching IO stats'' (IOSubsystem_Get w (ce_dev e) (cp_FullPath path) True zeroIOSubsystem))
          (\<lambda>s. Ok (stats\<lparr>s2_IO := Some (s\<lparr>io_ID := id, io_Path := cp_ControllerPath path\<rparr>)\<rparr>))
      else Ok stats)"

text \<open>The controllers the loops skip.\<close>

definition skipped :: "Reader \<Rightarrow> ControllerPath \<Rightarrow> bool" where
  "skipped r cgPath \<longleftrightarrow> rd_ignoreRootCgroups r \<and> cp_ControllerPath cgPath = ''/'' \<and>
     rd_cgroupsHierarchyOverride r \<noteq> cp_ControllerPath cgPath"

fun controllers_loop ::
  "(ControllerPath \<Rightarrow> string \<Rightarrow> 's \<Rightarrow> 's outcome) \<Rightarrow> Reader \<Rightarrow> (string \<rightharpoonup> ControllerPath) \<Rightarrow> 's \<Rightarrow> string list \<Rightarrow> 's outcome" where
  "controllers_loop get r paths stats [] = Ok stats"
| "controllers_loop get r paths stats (conName # rest) =
     (let cgPath = the (paths conName) in
      if skipped r cgPath then controllers_loop get r paths stats rest
      else and_then (wrap_err ''error fetching stats for controller'' (get cgPath conName stats))
             (\<lambda>stats. controllers_loop get r paths stats rest))"

definition GetV1StatsForProcess :: "cg_env \<Rightarrow> Reader \<Rightarrow> int \<Rightarrow> StatsV1 outcome" where
  "GetV1StatsForProcess e r pid =
     and_then (Reader_ProcessCgroupPaths (ce_os e) r pid) (\<lambda>paths.
       let order = ce_order e (pl_V1 paths);
           (path, id) = getCommonCgroupMetadata order (pl_V1 paths) (rd_ignoreRootCgroups r) in
       controllers_loop (getStatsV1 e) r (pl_V1 paths)
         \<lparr>s1_ID = id, s1_Path = path, s1_CPU = None, s1_CPUAccounting = None, s1_Memory = None, s1_BlockIO = None,
          s1_Version = CgroupsV1\<rparr> order)"

definition GetV2StatsForProcess :: "cg_env \<Rightarrow> Reader \<Rightarrow> int \<Rightarrow> StatsV2 outcome" where
  "GetV2StatsForProcess e r pid =
     and_then (Reader_ProcessCgroupPaths (ce_os e) r pid) (\<lambda>paths.
       let order = ce_order e (pl_V2 paths);
           (path, id) = getCommonCgroupMetadata order (pl_V2 paths) (rd_ignoreRootCgroups r) in
       controllers_loop (getStatsV2 e) r (pl_V2 paths)
         \<lparr>s2_ID = id, s2_Path = path, s2_CPU = None, s2_Memory = None, s2_IO = None, s2_Version = CgroupsV2\<rparr> order)"

text \<open>The interface \<open>CGStats\<close>: nil, or a pointer to either kind, which may itself be nil.\<close>

datatype CGStats = NilStats | OfV1 "StatsV1 option" | OfV2 "StatsV2 option"

definition GetStatsForPid :: "cg_env \<Rightarrow> Reader \<Rightarrow> int \<Rightarrow> CGStats outcome" where
  "GetStatsForPid e r pid =
     and_then (wrap_err ''error finding cgroup version'' (Reader_CgroupsVersion (ce_os e) r pid)) (\<lambda>v.
       if v = CgroupsV1 then and_then (GetV1StatsForProcess e r pid) (\<lambda>s. Ok (OfV1 (Some s)))
       else and_then (GetV2StatsForProcess e r pid) (\<lambda>s. Ok (OfV2 (Some s))))"

section \<open>Percentages\<close>

text \<open>\<open>Format\<close> over the conversion of package typeconv.\<close>

definition StatsV1_Format :: "(StatsV1 \<Rightarrow> 'm outcome) \<Rightarrow> StatsV1 \<Rightarrow> 'm outcome" where
  "StatsV1_Format Convert stat = wrap_err ''error formatting statsV1 object'' (Convert stat)"

definition StatsV2_Format :: "(StatsV2 \<Rightarrow> 'm outcome) \<Rightarrow> StatsV2 \<Rightarrow> 'm outcome" where
  "StatsV2_Format Convert stat = wrap_err ''error formatting statsV2 object'' (Convert stat)"

text \<open>\<open>CGVersion\<close> has a value receiver: called through the interface on a nil pointer it panics.\<close>

fun CGVersion :: "CGStats \<Rightarrow> CgroupsVersion outcome" where
  "CGVersion (OfV1 (Some _)) = Ok CgroupsV1"
| "CGVersion (OfV2 (Some _)) = Ok CgroupsV2"
| "CGVersion _ = Panic"

definition usage_pct :: "u64 \<Rightarrow> u64 \<Rightarrow> int \<Rightarrow> f64" where
  "usage_pct cur prev timeDeltaNanos = f64_div (f64_of_int (int64_of (cur - prev))) (f64_of_int timeDeltaNanos)"

definition fill_usage :: "CPUUsage \<Rightarrow> CPUUsage \<Rightarrow> int \<Rightarrow> int \<Rightarrow> CPUUsage" where
  "fill_usage cur prev timeDeltaNanos cpuCount =
     (let pct = usage_pct (cu_NS cur) (cu_NS prev) timeDeltaNanos;
          normalizedPct = f64_div pct (f64_of_int cpuCount)
      in cur\<lparr>cu_Pct := Some (Round pct), cu_Norm := Some (Round normalizedPct)\<rparr>)"

text \<open>
  \<open>stat\<close> is the receiver, a pointer; \<open>timeDelta\<close> the difference of the two times in
  nanoseconds; \<open>runtimeNumCPU\<close> what \<open>runtime.NumCPU\<close> returns.
\<close>

definition FillPercentagesV1 :: "os_env \<Rightarrow> int \<Rightarrow> StatsV1 option \<Rightarrow> CGStats \<Rightarrow> int \<Rightarrow> StatsV1 option outcome" where
  "FillPercentagesV1 w runtimeNumCPU stat prev timeDelta =
     and_then (if prev = NilStats then Ok True else and_then (CGVersion prev) (\<lambda>v. Ok (v = CgroupsV1))) (\<lambda>same.
       if \<not> same then Ok stat
       else
         case (prev, stat) of
           (OfV1 (Some prevStat), Some s) \<Rightarrow>
             (case (s1_CPUAccounting s, s1_CPUAccounting prevStat) of
                (Some acct, Some prevAcct) \<Rightarrow>
                  let perCPU = card (dom (acct_UsagePerCPU acct));
                      cpuCount = (if 0 < perCPU then int perCPU else NumCPU w runtimeNumCPU);
                      st = acct_Stats acct; prevSt = acct_Stats prevAcct
                  in Ok (Some (s\<lparr>s1_CPUAccounting := Some (acct\<lparr>
                       acct_Total := fill_usage (acct_Total acct) (acct_Total prevAcct) timeDelta cpuCount,
                       acct_Stats := st\<lparr>ca_User := fill_usage (ca_User st) (ca_User prevSt) timeDelta cpuCount,
                         ca_System := fill_usage (ca_System st) (ca_System prevSt) timeDelta cpuCount\<rparr>\<rparr>)\<rparr>))
              | _ \<Rightarrow> Ok stat)
         | _ \<Rightarrow> Ok stat)"

definition FillPercentagesV2 :: "os_env \<Rightarrow> int \<Rightarrow> StatsV2 option \<Rightarrow> CGStats \<Rightarrow> int \<Rightarrow> StatsV2 option outcome" where
  "FillPercentagesV2 w runtimeNumCPU stat prev timeDelta =
     and_then (if prev = NilStats then Ok True else and_then (CGVersion prev) (\<lambda>v. Ok (v = CgroupsV2))) (\<lambda>same.
       if \<not> same then Ok stat
       else
         case (prev, stat) of
           (OfV2 (Some prevStat), Some s) \<Rightarrow>
             (case (s2_CPU s, s2_CPU prevStat) of
                (Some c, Some prevC) \<Rightarrow>
                  let cpuCount = NumCPU w runtimeNumCPU; st = cpu2_Stats c; prevSt = cpu2_Stats prevC
                  in Ok (Some (s\<lparr>s2_CPU := Some (c\<lparr>cpu2_Stats := st\<lparr>
                       cs2_Usage := fill_usage (cs2_Usage st) (cs2_Usage prevSt) timeDelta cpuCount,
                       cs2_User := fill_usage (cs2_User st) (cs2_User prevSt) timeDelta cpuCount,
                       cs2_System := fill_usage (cs2_System st) (cs2_System prevSt) timeDelta cpuCount\<rparr>\<rparr>)\<rparr>))
              | _ \<Rightarrow> Ok stat)
         | _ \<Rightarrow> Ok stat)"

section \<open>Controllers and their fields\<close>

text \<open>
  The interface between the loop over the controllers and one of them: visiting the
  controller \<open>name\<close> stores its reading in one field and visiting any other leaves the
  field alone; whether a visit succeeds does not depend on what was stored before.
\<close>

locale controller_field =
  fixes visit :: "ControllerPath \<Rightarrow> string \<Rightarrow> 's \<Rightarrow> 's outcome"
    and get :: "'s \<Rightarrow> 'a option"
    and name :: string
    and read :: "ControllerPath \<Rightarrow> 'a outcome"
  assumes own: "visit cg name s = Ok s' \<Longrightarrow> \<exists>x. read cg = Ok x \<and> get s' = Some x"
    and other: "k \<noteq> name \<Longrightarrow> visit cg k s = Ok s' \<Longrightarrow> get s' = get s"
    and success: "visit cg k s = Ok s' \<Longrightarrow> \<exists>t'. visit cg k t = Ok t'"
begin

lemma loop_get:
  "controllers_loop visit r paths s ks = Ok s' \<Longrightarrow> distinct ks \<Longrightarrow>
     get s' = (if name \<in> set ks \<and> \<not> skipped r (the (paths name))
               then (case read (the (paths name)) of Ok x \<Rightarrow> Some x | _ \<Rightarrow> None) else get s)"
proof (induction ks arbitrary: s)
  case (Cons k ks)
  show ?case
  proof (cases "skipped r (the (paths k))")
    case True
    then show ?thesis using Cons by (auto simp: Let_def)
  next
    case False
    then obtain t where t: "visit (the (paths k)) k s = Ok t" "controllers_loop visit r paths t ks = Ok s'"
      using Cons.prems by (auto simp: Let_def go_outcome)
    then have "get s' = (if name \<in> set ks \<and> \<not> skipped r (the (paths name))
        then (case read (the (paths name)) of Ok x \<Rightarrow> Some x | _ \<Rightarrow> None) else get t)"
      using Cons by simp
    then show ?thesis using False Cons.prems(2) t(1) own other by (cases "k = name") force+
  qed
qed simp

text \<open>The loop succeeds exactly when every visit does, so the order of the visits is irrelevant for that.\<close>

lemma loop_success:
  "(\<exists>s'. controllers_loop visit r paths s ks = Ok s') \<longleftrightarrow>
     (\<forall>k \<in> set ks. skipped r (the (paths k)) \<or> (\<exists>t. visit (the (paths k)) k u = Ok t))"
proof (induction ks arbitrary: s)
  case (Cons k ks)
  have "(\<exists>t. visit (the (paths k)) k s = Ok t) \<longleftrightarrow> (\<exists>t. visit (the (paths k)) k u = Ok t)" using success by blast
  then show ?case using Cons by (auto simp: Let_def go_outcome)
qed simp

lemma loop_reorder:
  assumes "controllers_loop visit r paths s ks = Ok s'" "set ks = set js"
  shows "\<exists>s''. controllers_loop visit r paths s js = Ok s''"
  using assms loop_success[of r paths s ks s] loop_success[of r paths s js s] by auto

end

definition read_CPU :: "cg_env \<Rightarrow> ControllerPath \<Rightarrow> CPUSubsystem outcome" where
  "read_CPU e cg = and_then (CPUSubsystem_Get (ce_os e) (cp_FullPath cg) zeroCPUSubsystem)
     (\<lambda>s. Ok (s\<lparr>cpus_ID := path_Base (cp_ControllerPath cg), cpus_Path := cp_ControllerPath cg\<rparr>))"

definition read_CPUAccounting :: "cg_env \<Rightarrow> ControllerPath \<Rightarrow> CPUAccountingSubsystem outcome" where
  "read_CPUAccounting e cg =
     and_then (CPUAccountingSubsystem_Get (ce_clockTicks e) (ce_os e) (cp_FullPath cg) zeroCPUAccountingSubsystem)
     (\<lambda>s. Ok (s\<lparr>acct_ID := path_Base (cp_ControllerPath cg), acct_Path := cp_ControllerPath cg\<rparr>))"

definition read_Memory :: "cg_env \<Rightarrow> ControllerPath \<Rightarrow> MemorySubsystem outcome" where
  "read_Memory e cg = and_then (MemorySubsystem_Get (ce_os e) (cp_FullPath cg) zeroMemorySubsystem)
     (\<lambda>s. Ok (s\<lparr>mems_ID := path_Base (cp_ControllerPath cg), mems_Path := cp_ControllerPath cg\<rparr>))"

definition read_BlockIO :: "cg_env \<Rightarrow> ControllerPath \<Rightarrow> BlockIOSubsystem outcome" where
  "read_BlockIO e cg =
     and_then (BlockIOSubsystem_Get (ce_order_ops e) (ce_order_devs e) (ce_os e) (cp_FullPath cg) zeroBlockIOSubsystem)
     (\<lambda>s. Ok (s\<lparr>blk_ID := path_Base (cp_ControllerPath cg), blk_Path := cp_ControllerPath cg\<rparr>))"

interpretation v1_cpu: controller_field "getStatsV1 e" s1_CPU "''cpu''" "read_CPU e" for e
  by unfold_locales
    (auto simp: getStatsV1_def read_CPU_def Let_def go_outcome split: if_splits)

interpretation v1_cpuacct: controller_field "getStatsV1 e" s1_CPUAccounting "''cpuacct''" "read_CPUAccounting e" for e
  by unfold_locales
    (auto simp: getStatsV1_def read_CPUAccounting_def Let_def go_outcome split: if_splits)

interpretation v1_memory: controller_field "getStatsV1 e" s1_Memory "''memory''" "read_Memory e" for e
  by unfold_locales
    (auto simp: getStatsV1_def read_Memory_def Let_def go_outcome split: if_splits)

interpretation v1_blkio: controller_field "getStatsV1 e" s1_BlockIO "''blkio''" "read_BlockIO e" for e
  by unfold_locales
    (auto simp: getStatsV1_def read_BlockIO_def Let_def go_outcome split: if_splits)

definition read_CPUV2 :: "cg_env \<Rightarrow> ControllerPath \<Rightarrow> CPUSubsystemV2 outcome" where
  "read_CPUV2 e cg = and_then (CPUSubsystemV2_Get (ce_os e) (cp_FullPath cg) zeroCPUSubsystemV2)
     (\<lambda>s. Ok (s\<lparr>cpu2_ID := path_Base (cp_ControllerPath cg), cpu2_Path := cp_ControllerPath cg\<rparr>))"

definition read_MemoryV2 :: "cg_env \<Rightarrow> ControllerPath \<Rightarrow> MemorySubsystemV2 outcome" where
  "read_MemoryV2 e cg = and_then (MemorySubsystemV2_Get (ce_os e) (cp_FullPath cg) zeroMemorySubsystemV2)
     (\<lambda>s. Ok (s\<lparr>mems2_ID := path_Base (cp_ControllerPath cg), mems2_Path := cp_ControllerPath cg\<rparr>))"

definition read_IOV2 :: "cg_env \<Rightarrow> ControllerPath \<Rightarrow> IOSubsystem outcome" where
  "read_IOV2 e cg = and_then (IOSubsystem_Get (ce_os e) (ce_dev e) (cp_FullPath cg) True zeroIOSubsystem)
     (\<lambda>s. Ok (s\<lparr>io_ID := path_Base (cp_ControllerPath cg), io_Path := cp_ControllerPath cg\<rparr>))"

interpretation v2_cpu: controller_field "getStatsV2 e" s2_CPU "''cpu''" "read_CPUV2 e" for e
  by unfold_locales (auto simp: getStatsV2_def read_CPUV2_def Let_def go_outcome split: if_splits)

interpretation v2_memory: controller_field "getStatsV2 e" s2_Memory "''memory''" "read_MemoryV2 e" for e
  by unfold_locales (auto simp: getStatsV2_def read_MemoryV2_def Let_def go_outcome split: if_splits)

interpretation v2_io: controller_field "getStatsV2 e" s2_IO "''io''" "read_IOV2 e" for e
  by unfold_locales (auto simp: getStatsV2_def read_IOV2_def Let_def go_outcome split: if_splits)

section \<open>What a process's statistics hold\<close>

lemma fold_dom_finite:
  assumes "\<And>m x. finite (dom m) \<Longrightarrow> finite (dom (g m x))" "finite (dom m)"
  shows "finite (dom (foldl g m xs))"
  using assms(2) by (induction xs arbitrary: m) (simp_all add: assms(1))

lemma cgroup_loop_finite:
  "cgroup_loop w r pl ls = Ok pl' \<Longrightarrow> finite (dom (pl_V1 pl)) \<Longrightarrow> finite (dom (pl_V2 pl)) \<Longrightarrow>
     finite (dom (pl_V1 pl')) \<and> finite (dom (pl_V2 pl'))"
proof (induction ls arbitrary: pl)
  case (Cons l ls)
  have v1: "finite (dom (foldl (\<lambda>m s. add_v1 r p s m) m xs))" if "finite (dom m)" for p m xs
    by (rule fold_dom_finite) (simp_all add: add_v1_def that)
  have v2: "finite (dom (foldl (\<lambda>m e. add_v2 p d e m) m xs))" if "finite (dom m)" for p d m xs
    by (rule fold_dom_finite) (simp_all add: add_v2_def that)
  show ?case
    using Cons.prems by (auto simp: Let_def go_outcome v1 v2 split: if_splits option.splits dest!: Cons.IH)
qed simp

lemma ProcessCgroupPaths_finite:
  assumes "Reader_ProcessCgroupPaths w r pid = Ok pl"
  shows "finite (dom (pl_V1 pl))" "finite (dom (pl_V2 pl))"
  using assms
  by (auto simp: Reader_ProcessCgroupPaths_def Let_def go_outcome split: if_splits dest!: cgroup_loop_finite)

text \<open>The controllers that count for the common path, and their paths.\<close>

definition counts :: "bool \<Rightarrow> ControllerPath \<Rightarrow> bool" where
  "counts ignoreRoot m \<longleftrightarrow> \<not> (\<not> cp_IsV2 m \<and> ignoreRoot \<and> cp_ControllerPath m = ''/'')"

definition counted_paths :: "(string \<rightharpoonup> ControllerPath) \<Rightarrow> bool \<Rightarrow> string set" where
  "counted_paths mounts ignoreRoot = cp_ControllerPath ` {m \<in> ran mounts. counts ignoreRoot m}"

fun same_path :: "string \<Rightarrow> string list \<Rightarrow> string option" where
  "same_path p [] = Some p"
| "same_path p (q # qs) = (if p = [] then same_path q qs else if p \<noteq> q then None else same_path p qs)"

lemma common_path_counted: "common_path ig p ms = same_path p (map cp_ControllerPath (filter (counts ig) ms))"
proof (induction ms arbitrary: p)
  case (Cons m ms)
  have "common_path ig p (m # ms) = (if \<not> counts ig m then common_path ig p ms
      else if p = [] then common_path ig (cp_ControllerPath m) ms
      else if p \<noteq> cp_ControllerPath m then None else common_path ig p ms)"
    by (simp only: common_path.simps counts_def not_not)
  then show ?case by (simp add: Cons.IH del: common_path.simps)
qed simp

lemma same_path_iff: "p \<noteq> [] \<Longrightarrow> same_path p qs = (if \<forall>q \<in> set qs. q = p then Some p else None)"
  by (induction qs) auto

lemma same_path_set:
  assumes "[] \<notin> set qs"
  shows "qs = [] \<Longrightarrow> same_path [] qs = Some []" "set qs = {p} \<Longrightarrow> same_path [] qs = Some p"
    "qs \<noteq> [] \<Longrightarrow> \<forall>p. set qs \<noteq> {p} \<Longrightarrow> same_path [] qs = None"
proof -
  have q: "same_path [] (q # qs') = (if \<forall>x \<in> set qs'. x = q then Some q else None)" if "qs = q # qs'" for q qs'
    using assms that by (auto simp: same_path_iff)
  show "qs = [] \<Longrightarrow> same_path [] qs = Some []" by simp
  show "set qs = {p} \<Longrightarrow> same_path [] qs = Some p" using q by (cases qs) auto
  show "same_path [] qs = None" if ne: "qs \<noteq> []" and single: "\<forall>p. set qs \<noteq> {p}"
  proof -
    obtain r rs where r: "qs = r # rs" using ne by (cases qs) auto
    have "\<not> (\<forall>x \<in> set rs. x = r)" using single[rule_format, of r] r by auto
    then show ?thesis using q[OF r] r by simp
  qed
qed

lemma counted_paths_set:
  "iterates ks mounts \<Longrightarrow>
     set (map cp_ControllerPath (filter (counts ig) (map (\<lambda>k. the (mounts k)) ks))) = counted_paths mounts ig"
proof -
  assume "iterates ks mounts"
  then have "set (map (\<lambda>k. the (mounts k)) ks) = ran mounts" by (force simp: iterates_def ran_def)
  then show ?thesis by (simp only: set_map set_filter counted_paths_def)
qed

text \<open>
  The common path and identifier of a process's controllers: with one path shared by
  all that count, that path and its last element; with different paths, nothing; with no
  controller that counts, the empty path and the identifier ".". The order in which Go
  visits the map never matters.
\<close>

theorem getCommonCgroupMetadata_common:
  assumes "iterates order mounts" "\<forall>m \<in> ran mounts. cp_ControllerPath m \<noteq> []"
  shows "(counted_paths mounts ignoreRoot = {} \<longrightarrow>
      getCommonCgroupMetadata order mounts ignoreRoot = ([], ''.'')) \<and>
    (\<forall>p. counted_paths mounts ignoreRoot = {p} \<longrightarrow>
      getCommonCgroupMetadata order mounts ignoreRoot = (p, path_Base p)) \<and>
    (counted_paths mounts ignoreRoot \<noteq> {} \<and> (\<forall>p. counted_paths mounts ignoreRoot \<noteq> {p}) \<longrightarrow>
      getCommonCgroupMetadata order mounts ignoreRoot = ([], []))"
proof -
  let ?qs = "map cp_ControllerPath (filter (counts ignoreRoot) (map (\<lambda>k. the (mounts k)) order))"
  have S: "set ?qs = counted_paths mounts ignoreRoot" by (rule counted_paths_set[OF assms(1)])
  have e: "?qs = [] \<longleftrightarrow> counted_paths mounts ignoreRoot = {}" unfolding S[symmetric] set_empty ..
  have ne: "[] \<notin> set ?qs" unfolding S using assms(2) by (auto simp: counted_paths_def)
  have g: "getCommonCgroupMetadata order mounts ignoreRoot =
      (case same_path [] ?qs of None \<Rightarrow> ([], []) | Some p \<Rightarrow> (p, path_Base p))"
    by (simp only: getCommonCgroupMetadata_def common_path_counted)
  show ?thesis
    using same_path_set[OF ne] unfolding g S e by (simp add: path_Base_def)
qed

theorem getCommonCgroupMetadata_common_witness:
  "getCommonCgroupMetadata [''cpu'', ''memory'']
     [''cpu'' \<mapsto> \<lparr>cp_ControllerPath = ''/docker/b2'', cp_FullPath = ''/cg/cpu/docker/b2'', cp_IsV2 = False\<rparr>,
      ''memory'' \<mapsto> \<lparr>cp_ControllerPath = ''/'', cp_FullPath = ''/cg/memory'', cp_IsV2 = False\<rparr>] True =
   (''/docker/b2'', ''b2'')"
proof -
  let ?a = "\<lparr>cp_ControllerPath = ''/docker/b2'', cp_FullPath = ''/cg/cpu/docker/b2'', cp_IsV2 = False\<rparr>"
  let ?b = "\<lparr>cp_ControllerPath = ''/'', cp_FullPath = ''/cg/memory'', cp_IsV2 = False\<rparr>"
  have r: "ran [''cpu'' \<mapsto> ?a, ''memory'' \<mapsto> ?b] = {?a, ?b}" by (simp add: ran_map_upd insert_commute)
  have f: "{m \<in> {?a, ?b}. counts True m} = {?a}" by (auto simp: counts_def)
  have c: "counted_paths [''cpu'' \<mapsto> ?a, ''memory'' \<mapsto> ?b] True = {''/docker/b2''}"
    by (simp only: counted_paths_def r f) simp
  have it: "iterates [''cpu'', ''memory''] [''cpu'' \<mapsto> ?a, ''memory'' \<mapsto> ?b]" by (auto simp: iterates_def)
  have ne: "\<forall>m \<in> ran [''cpu'' \<mapsto> ?a, ''memory'' \<mapsto> ?b]. cp_ControllerPath m \<noteq> []" by (simp only: r) simp
  note common = getCommonCgroupMetadata_common[OF it ne, of True]
  from common[THEN conjunct2, THEN conjunct1, THEN spec, THEN mp, OF c]
  have "getCommonCgroupMetadata [''cpu'', ''memory''] [''cpu'' \<mapsto> ?a, ''memory'' \<mapsto> ?b] True =
      (''/docker/b2'', path_Base ''/docker/b2'')" .
  moreover have "path_Base ''/docker/b2'' = ''b2''" by (simp add: path_Base_def slash_def)
  ultimately show ?thesis by (simp only:)
qed

text \<open>What one controller of the list contributes.\<close>

definition reading :: "Reader \<Rightarrow> (string \<rightharpoonup> ControllerPath) \<Rightarrow> string \<Rightarrow> (ControllerPath \<Rightarrow> 'a outcome) \<Rightarrow> 'a option" where
  "reading r paths name read =
     (case paths name of None \<Rightarrow> None
      | Some cg \<Rightarrow> if skipped r cg then None else (case read cg of Ok x \<Rightarrow> Some x | _ \<Rightarrow> None))"

lemma reading_loop:
  assumes "iterates order paths"
  shows "g = None \<Longrightarrow> (if name \<in> set order \<and> \<not> skipped r (the (paths name))
      then (case read (the (paths name)) of Ok x \<Rightarrow> Some x | _ \<Rightarrow> None) else g) = reading r paths name read"
  using assms by (auto simp: reading_def iterates_def domIff split: option.splits)

lemma controllers_loop_keeps:
  assumes "\<And>cg k s s'. visit cg k s = Ok s' \<Longrightarrow> keep s' = keep s"
  shows "controllers_loop visit r paths s ks = Ok s' \<Longrightarrow> keep s' = keep s"
  by (induction ks arbitrary: s) (auto simp: Let_def go_outcome dest!: assms split: if_splits)

lemma getStatsV1_keeps: "getStatsV1 e cg k s = Ok s' \<Longrightarrow> (s1_ID s', s1_Path s', s1_Version s') = (s1_ID s, s1_Path s, s1_Version s)"
  by (auto simp: getStatsV1_def Let_def go_outcome split: if_splits)

lemma getStatsV2_keeps: "getStatsV2 e cg k s = Ok s' \<Longrightarrow> (s2_ID s', s2_Path s', s2_Version s') = (s2_ID s, s2_Path s, s2_Version s)"
  by (auto simp: getStatsV2_def Let_def go_outcome split: if_splits)

text \<open>The statistics, as determined by the paths and the readings alone.\<close>

definition stats_of_V1 :: "cg_env \<Rightarrow> Reader \<Rightarrow> (string \<rightharpoonup> ControllerPath) \<Rightarrow> StatsV1" where
  "stats_of_V1 e r paths =
     (let (path, id) = getCommonCgroupMetadata (ce_order e paths) paths (rd_ignoreRootCgroups r) in
      \<lparr>s1_ID = id, s1_Path = path, s1_CPU = reading r paths ''cpu'' (read_CPU e),
       s1_CPUAccounting = reading r paths ''cpuacct'' (read_CPUAccounting e),
       s1_Memory = reading r paths ''memory'' (read_Memory e),
       s1_BlockIO = reading r paths ''blkio'' (read_BlockIO e), s1_Version = CgroupsV1\<rparr>)"

definition stats_of_V2 :: "cg_env \<Rightarrow> Reader \<Rightarrow> (string \<rightharpoonup> ControllerPath) \<Rightarrow> StatsV2" where
  "stats_of_V2 e r paths =
     (let (path, id) = getCommonCgroupMetadata (ce_order e paths) paths (rd_ignoreRootCgroups r) in
      \<lparr>s2_ID = id, s2_Path = path, s2_CPU = reading r paths ''cpu'' (read_CPUV2 e),
       s2_Memory = reading r paths ''memory'' (read_MemoryV2 e),
       s2_IO = reading r paths ''io'' (read_IOV2 e), s2_Version = CgroupsV2\<rparr>)"

lemma loop_V1:
  assumes "iterates order paths"
    and "controllers_loop (getStatsV1 e) r paths \<lparr>s1_ID = i0, s1_Path = path, s1_CPU = None, s1_CPUAccounting = None,
      s1_Memory = None, s1_BlockIO = None, s1_Version = v\<rparr> order = Ok st"
  shows "st = \<lparr>s1_ID = i0, s1_Path = path, s1_CPU = reading r paths ''cpu'' (read_CPU e),
       s1_CPUAccounting = reading r paths ''cpuacct'' (read_CPUAccounting e),
       s1_Memory = reading r paths ''memory'' (read_Memory e),
       s1_BlockIO = reading r paths ''blkio'' (read_BlockIO e), s1_Version = v\<rparr>"
proof -
  have d: "distinct order" using assms(1) by (simp add: iterates_def)
  have keep: "(s1_ID st, s1_Path st, s1_Version st) = (i0, path, v)"
    using controllers_loop_keeps[of "getStatsV1 e" "\<lambda>s. (s1_ID s, s1_Path s, s1_Version s)", OF getStatsV1_keeps assms(2)]
    by simp
  show ?thesis
    using v1_cpu.loop_get[OF assms(2) d] v1_cpuacct.loop_get[OF assms(2) d] v1_memory.loop_get[OF assms(2) d]
      v1_blkio.loop_get[OF assms(2) d] keep
    by (cases st) (simp add: reading_loop[OF assms(1)])
qed

lemma loop_V2:
  assumes "iterates order paths"
    and "controllers_loop (getStatsV2 e) r paths \<lparr>s2_ID = i0, s2_Path = path, s2_CPU = None, s2_Memory = None,
      s2_IO = None, s2_Version = v\<rparr> order = Ok st"
  shows "st = \<lparr>s2_ID = i0, s2_Path = path, s2_CPU = reading r paths ''cpu'' (read_CPUV2 e),
       s2_Memory = reading r paths ''memory'' (read_MemoryV2 e),
       s2_IO = reading r paths ''io'' (read_IOV2 e), s2_Version = v\<rparr>"
proof -
  have d: "distinct order" using assms(1) by (simp add: iterates_def)
  have keep: "(s2_ID st, s2_Path st, s2_Version st) = (i0, path, v)"
    using controllers_loop_keeps[of "getStatsV2 e" "\<lambda>s. (s2_ID s, s2_Path s, s2_Version s)", OF getStatsV2_keeps assms(2)]
    by simp
  show ?thesis
    using v2_cpu.loop_get[OF assms(2) d] v2_memory.loop_get[OF assms(2) d] v2_io.loop_get[OF assms(2) d] keep
    by (cases st) (simp add: reading_loop[OF assms(1)])
qed

lemma visit_order [simp]: "getStatsV1 (e\<lparr>ce_order := order\<rparr>) = getStatsV1 e" "getStatsV2 (e\<lparr>ce_order := order\<rparr>) = getStatsV2 e"
  by (simp_all add: getStatsV1_def getStatsV2_def Let_def fun_eq_iff)

lemma same_path_cong:
  assumes "set xs = set ys" "[] \<notin> set xs" shows "same_path [] xs = same_path [] ys"
proof (cases "\<exists>p. set xs = {p}")
  case True
  then obtain p where "set xs = {p}" "set ys = {p}" using assms(1) by auto
  then show ?thesis using same_path_set(2) assms by simp
next
  case False
  then show ?thesis using same_path_set(3)[of xs] same_path_set(3)[of ys] assms by (cases "xs = []"; cases "ys = []") auto
qed

lemma metadata_order:
  assumes "iterates o1 mounts" "iterates o2 mounts" "\<forall>m \<in> ran mounts. cp_ControllerPath m \<noteq> []"
  shows "getCommonCgroupMetadata o1 mounts ig = getCommonCgroupMetadata o2 mounts ig"
proof -
  have "[] \<notin> counted_paths mounts ig" using assms(3) by (auto simp: counted_paths_def)
  then have "same_path [] (map cp_ControllerPath (filter (counts ig) (map (\<lambda>k. the (mounts k)) o1))) =
      same_path [] (map cp_ControllerPath (filter (counts ig) (map (\<lambda>k. the (mounts k)) o2)))"
    by (intro same_path_cong) (simp_all only: counted_paths_set[OF assms(1)] counted_paths_set[OF assms(2)] simp_thms)
  then show ?thesis by (simp only: getCommonCgroupMetadata_def common_path_counted)
qed

text \<open>
  C31. The version 1 statistics of a process. Whenever they can be read, each controller's
  field holds exactly what that controller reads in its own directory, with the identifier
  and the path of its control group; a controller the process does not have, or that is
  skipped as a root control group, is missing; and the same statistics are returned
  whatever order Go visits the map of controllers in.
\<close>

theorem GetV1StatsForProcess_readings:
  assumes "range_order (ce_order e)" "range_order order"
    and "Reader_ProcessCgroupPaths (ce_os e) r pid = Ok paths" "\<forall>m \<in> ran (pl_V1 paths). cp_ControllerPath m \<noteq> []"
    and "GetV1StatsForProcess e r pid = Ok st"
  shows "st = stats_of_V1 e r (pl_V1 paths) \<and> GetV1StatsForProcess (e\<lparr>ce_order := order\<rparr>) r pid = Ok st"
proof -
  let ?m = "pl_V1 paths"
  have it: "iterates (ce_order e ?m) ?m" "iterates (order ?m) ?m"
    using assms(1,2) ProcessCgroupPaths_finite[OF assms(3)] by (simp_all add: range_orderD)
  obtain i p where md: "getCommonCgroupMetadata (ce_order e ?m) ?m (rd_ignoreRootCgroups r) = (p, i)" by force
  then have md': "getCommonCgroupMetadata (order ?m) ?m (rd_ignoreRootCgroups r) = (p, i)"
    using metadata_order[OF it assms(4)] by simp
  let ?s0 = "\<lparr>s1_ID = i, s1_Path = p, s1_CPU = None, s1_CPUAccounting = None, s1_Memory = None, s1_BlockIO = None,
    s1_Version = CgroupsV1\<rparr>"
  have l: "controllers_loop (getStatsV1 e) r ?m ?s0 (ce_order e ?m) = Ok st"
    using assms(3,5) md by (simp add: GetV1StatsForProcess_def Let_def)
  then obtain st' where l': "controllers_loop (getStatsV1 e) r ?m ?s0 (order ?m) = Ok st'"
    using v1_cpu.loop_reorder it by (metis iterates_perm)
  have "st' = st" using loop_V1[OF it(1) l] loop_V1[OF it(2) l'] by simp
  then show ?thesis
    using loop_V1[OF it(1) l] l' assms(3) md md' by (simp add: GetV1StatsForProcess_def stats_of_V1_def Let_def)
qed

text \<open>
  The same for version 2: cpu, memory and io hold their controllers' own readings, in
  whatever order the map of controllers is visited.
\<close>

theorem GetV2StatsForProcess_readings:
  assumes "range_order (ce_order e)" "range_order order"
    and "Reader_ProcessCgroupPaths (ce_os e) r pid = Ok paths" "\<forall>m \<in> ran (pl_V2 paths). cp_ControllerPath m \<noteq> []"
    and "GetV2StatsForProcess e r pid = Ok st"
  shows "st = stats_of_V2 e r (pl_V2 paths) \<and> GetV2StatsForProcess (e\<lparr>ce_order := order\<rparr>) r pid = Ok st"
proof -
  let ?m = "pl_V2 paths"
  have it: "iterates (ce_order e ?m) ?m" "iterates (order ?m) ?m"
    using assms(1,2) ProcessCgroupPaths_finite[OF assms(3)] by (simp_all add: range_orderD)
  obtain i p where md: "getCommonCgroupMetadata (ce_order e ?m) ?m (rd_ignoreRootCgroups r) = (p, i)" by force
  then have md': "getCommonCgroupMetadata (order ?m) ?m (rd_ignoreRootCgroups r) = (p, i)"
    using metadata_order[OF it assms(4)] by simp
  let ?s0 = "\<lparr>s2_ID = i, s2_Path = p, s2_CPU = None, s2_Memory = None, s2_IO = None, s2_Version = CgroupsV2\<rparr>"
  have l: "controllers_loop (getStatsV2 e) r ?m ?s0 (ce_order e ?m) = Ok st"
    using assms(3,5) md by (simp add: GetV2StatsForProcess_def Let_def)
  then obtain st' where l': "controllers_loop (getStatsV2 e) r ?m ?s0 (order ?m) = Ok st'"
    using v2_cpu.loop_reorder it by (metis iterates_perm)
  have "st' = st" using loop_V2[OF it(1) l] loop_V2[OF it(2) l'] by simp
  then show ?thesis
    using loop_V2[OF it(1) l] l' assms(3) md md' by (simp add: GetV2StatsForProcess_def stats_of_V2_def Let_def)
qed

text \<open>A system on which process 7 has control groups and every other file is missing.\<close>

definition marked_root :: resolver where
  "marked_root = \<lparr>ResolveHostFS = (\<lambda>p. CHR ''@'' # p), IsSet = False, Join = concat\<rparr>"

definition sparse_env :: "string \<Rightarrow> os_env" where
  "sparse_env cgroups =
     \<lparr>file_of = (\<lambda>p. if p = CHR ''@'' # path_Join [''proc'', itoa 7, ''cgroup''] then Inr cgroups else Inl ENOENT),
      dir_of = (\<lambda>_. Inr [\<lparr>ent_name = ''cpu.stat'', ent_is_dir = False\<rparr>]), link_of = (\<lambda>_. Inl ENOENT),
      stat_of = (\<lambda>_. Inl ENOENT), env_var = (\<lambda>_. None), user_of = (\<lambda>_. None)\<rparr>"

definition sparse_reader :: Reader where
  "sparse_reader = \<lparr>rd_rootfsMountpoint = marked_root, rd_ignoreRootCgroups = True, rd_cgroupsHierarchyOverride = [],
     rd_cgroupMountpoints = \<lparr>V1Mounts = [''cpu'' \<mapsto> ''/cg/cpu''], V2Loc = ''/cg/unified''\<rparr>\<rparr>"

definition sparse_cg_env :: "string \<Rightarrow> cg_env" where
  "sparse_cg_env cgroups = \<lparr>ce_os = sparse_env cgroups, ce_clockTicks = 100, ce_dev = NoDev, ce_order_ops = sorted_keys,
     ce_order_devs = sorted_keys, ce_order = sorted_keys\<rparr>"

lemma hd_path_Join: "hd x = slash \<Longrightarrow> x \<noteq> [] \<Longrightarrow> path_Join (x # xs) \<noteq> [] \<and> hd (path_Join (x # xs)) = slash"
proof -
  assume x: "hd x = slash" "x \<noteq> []"
  have "join slash (x # xs) \<noteq> [] \<and> hd (join slash (x # xs)) = slash"
    using x by (cases "xs = []") (auto simp: join_Cons)
  then show ?thesis using x by (simp add: path_Join_def path_Clean_def Let_def)
qed

lemma sparse_missing: "hd x = slash \<Longrightarrow> x \<noteq> [] \<Longrightarrow> file_of (sparse_env c) (path_Join (x # xs)) = Inl ENOENT"
  using hd_path_Join[of x xs] by (auto simp: sparse_env_def slash_def)

lemma sparse_CPU: "hd p = slash \<Longrightarrow> p \<noteq> [] \<Longrightarrow> CPUSubsystem_Get (sparse_env c) p zeroCPUSubsystem = Ok zeroCPUSubsystem"
  by (simp add: CPUSubsystem_Get_def cpuCFS_def cpuRT_def cpuStat_def ParseUintFromFile_def os_ReadFile_def sparse_missing
      kv_file_missing zeroCPUSubsystem_def)

lemma sparse_CPUV2: "hd p = slash \<Longrightarrow> p \<noteq> [] \<Longrightarrow> CPUSubsystemV2_Get (sparse_env c) p zeroCPUSubsystemV2 = Ok zeroCPUSubsystemV2"
  by (simp add: CPUSubsystemV2_Get_def GetPressure_def os_ReadFile_def sparse_missing zeroCPUSubsystemV2_def)

definition sparse_lines :: "cg_line list" where
  "sparse_lines = [V1Line 4 [''cpu''] ''/a'', V1Line 3 [''freezer''] ''/'', V2Line ''/a'']"

lemma sparse_paths:
  "\<exists>pl. Reader_ProcessCgroupPaths (sparse_env (unlines (map show_cg_line sparse_lines))) sparse_reader 7 = Ok pl \<and>
     pl_V1 pl = [''cpu'' \<mapsto> \<lparr>cp_ControllerPath = ''/a'', cp_FullPath = path_Join [''/cg/cpu'', ''/a''], cp_IsV2 = False\<rparr>,
       ''freezer'' \<mapsto> \<lparr>cp_ControllerPath = ''/'', cp_FullPath = path_Join [[], ''/''], cp_IsV2 = False\<rparr>] \<and>
     pl_V2 pl = [''cpu'' \<mapsto> \<lparr>cp_ControllerPath = ''/a'', cp_FullPath = path_Join [''/cg/unified'', ''/a''], cp_IsV2 = True\<rparr>]"
proof -
  let ?w = "sparse_env (unlines (map show_cg_line sparse_lines))"
  have "list_all cg_line_ok sparse_lines"
    by (simp add: sparse_lines_def cg_path_ok_def is_line_def newline_def plain_def plain_char_def code_def max_scan_token_def
        show_nat.simps)
  moreover have "dirs_listed ?w sparse_reader (\<lambda>_. [\<lparr>ent_name = ''cpu.stat'', ent_is_dir = False\<rparr>]) sparse_lines"
    by (simp add: dirs_listed_def sparse_lines_def sparse_env_def split: option.splits)
  ultimately have "Reader_ProcessCgroupPaths ?w sparse_reader 7 =
      Ok \<lparr>pl_V1 = map_of (rev (v1_entries sparse_reader sparse_lines)),
          pl_V2 = map_of (rev (v2_entries sparse_reader (\<lambda>_. [\<lparr>ent_name = ''cpu.stat'', ent_is_dir = False\<rparr>]) sparse_lines))\<rparr>"
    by (rule process_paths) (simp add: sparse_env_def sparse_reader_def marked_root_def)
  then show ?thesis
    by (simp add: sparse_lines_def v1_entries_def v2_entries_def effective_path_def sparse_reader_def v2_controllerPath_def
        trim_suffix_def Sublist.suffix_def Let_def)
qed

lemma iterates_list: "distinct ks \<Longrightarrow> set ks = dom m \<Longrightarrow> range_order order \<Longrightarrow> set (order m) = set ks"
  by (metis List.finite_set iterates_def range_orderD)

lemma full_path: "hd (path_Join [''/cg/cpu'', ''/a'']) = slash \<and> path_Join [''/cg/cpu'', ''/a''] \<noteq> []"
  "hd (path_Join [''/cg/unified'', ''/a'']) = slash \<and> path_Join [''/cg/unified'', ''/a''] \<noteq> []"
  using hd_path_Join[of "''/cg/cpu''"] hd_path_Join[of "''/cg/unified''"] by (simp_all add: slash_def)

theorem GetV1StatsForProcess_readings_witness:
  "\<exists>st. GetV1StatsForProcess (sparse_cg_env (unlines (map show_cg_line sparse_lines))) sparse_reader 7 = Ok st \<and>
     s1_CPU st = Some (zeroCPUSubsystem\<lparr>cpus_ID := ''a'', cpus_Path := ''/a''\<rparr>) \<and> s1_Memory st = None"
proof -
  let ?c = "unlines (map show_cg_line sparse_lines)"
  let ?e = "sparse_cg_env ?c"
  obtain pl where pl: "Reader_ProcessCgroupPaths (ce_os ?e) sparse_reader 7 = Ok pl"
    and v1: "pl_V1 pl = [''cpu'' \<mapsto> \<lparr>cp_ControllerPath = ''/a'', cp_FullPath = path_Join [''/cg/cpu'', ''/a''], cp_IsV2 = False\<rparr>,
       ''freezer'' \<mapsto> \<lparr>cp_ControllerPath = ''/'', cp_FullPath = path_Join [[], ''/''], cp_IsV2 = False\<rparr>]"
    using sparse_paths by (auto simp: sparse_cg_env_def)
  have order: "range_order (ce_order ?e)" by (simp add: sparse_cg_env_def range_order_sorted)
  have ks: "set (ce_order ?e (pl_V1 pl)) = {''cpu'', ''freezer''}"
    using iterates_list[OF _ _ order, of "[''cpu'', ''freezer'']" "pl_V1 pl"] by (auto simp: v1)
  have cpu: "read_CPU ?e (the (pl_V1 pl ''cpu'')) = Ok (zeroCPUSubsystem\<lparr>cpus_ID := ''a'', cpus_Path := ''/a''\<rparr>)"
    by (simp add: v1 read_CPU_def sparse_cg_env_def sparse_CPU full_path path_Base_def slash_def)
  have skips: "skipped sparse_reader (the (pl_V1 pl ''freezer''))" "\<not> skipped sparse_reader (the (pl_V1 pl ''cpu''))"
    by (simp_all add: v1 skipped_def sparse_reader_def)
  have "\<exists>t. getStatsV1 ?e (the (pl_V1 pl ''cpu'')) ''cpu'' u = Ok t" for u
    by (simp add: v1 getStatsV1_def Let_def sparse_cg_env_def sparse_CPU full_path)
  then have "\<exists>st. controllers_loop (getStatsV1 ?e) sparse_reader (pl_V1 pl) s (ce_order ?e (pl_V1 pl)) = Ok st" for s
    using v1_cpu.loop_success[of ?e sparse_reader "pl_V1 pl" s "ce_order ?e (pl_V1 pl)" s] skips by (auto simp: ks)
  then obtain st where st: "GetV1StatsForProcess ?e sparse_reader 7 = Ok st"
    unfolding GetV1StatsForProcess_def Let_def pl by (simp add: case_prod_beta) blast
  have "\<forall>m \<in> ran (pl_V1 pl). cp_ControllerPath m \<noteq> []" by (auto simp: v1 ran_map_upd)
  from GetV1StatsForProcess_readings[OF order order pl this st]
  have "st = stats_of_V1 ?e sparse_reader (pl_V1 pl)" by (rule conjunct1)
  moreover have "reading sparse_reader (pl_V1 pl) ''cpu'' (read_CPU ?e) = Some (zeroCPUSubsystem\<lparr>cpus_ID := ''a'', cpus_Path := ''/a''\<rparr>)"
    using cpu skips(2) by (simp add: reading_def v1)
  moreover have "reading sparse_reader (pl_V1 pl) ''memory'' (read_Memory ?e) = None" by (simp add: reading_def v1)
  ultimately show ?thesis using st by (simp add: stats_of_V1_def case_prod_beta)
qed

theorem GetV2StatsForProcess_readings_witness:
  "\<exists>st. GetV2StatsForProcess (sparse_cg_env (unlines (map show_cg_line sparse_lines))) sparse_reader 7 = Ok st \<and>
     s2_CPU st = Some (zeroCPUSubsystemV2\<lparr>cpu2_ID := ''a'', cpu2_Path := ''/a''\<rparr>) \<and> s2_IO st = None"
proof -
  let ?c = "unlines (map show_cg_line sparse_lines)"
  let ?e = "sparse_cg_env ?c"
  obtain pl where pl: "Reader_ProcessCgroupPaths (ce_os ?e) sparse_reader 7 = Ok pl"
    and v2: "pl_V2 pl = [''cpu'' \<mapsto> \<lparr>cp_ControllerPath = ''/a'', cp_FullPath = path_Join [''/cg/unified'', ''/a''], cp_IsV2 = True\<rparr>]"
    using sparse_paths by (auto simp: sparse_cg_env_def)
  have order: "range_order (ce_order ?e)" by (simp add: sparse_cg_env_def range_order_sorted)
  have ks: "set (ce_order ?e (pl_V2 pl)) = {''cpu''}"
    using iterates_list[OF _ _ order, of "[''cpu'']" "pl_V2 pl"] by (auto simp: v2)
  have cpu: "read_CPUV2 ?e (the (pl_V2 pl ''cpu'')) = Ok (zeroCPUSubsystemV2\<lparr>cpu2_ID := ''a'', cpu2_Path := ''/a''\<rparr>)"
    by (simp add: v2 read_CPUV2_def sparse_cg_env_def sparse_CPUV2 full_path path_Base_def slash_def)
  have skips: "\<not> skipped sparse_reader (the (pl_V2 pl ''cpu''))"
    by (simp_all add: v2 skipped_def sparse_reader_def)
  have "\<exists>t. getStatsV2 ?e (the (pl_V2 pl ''cpu'')) ''cpu'' u = Ok t" for u
    by (simp add: v2 getStatsV2_def Let_def sparse_cg_env_def sparse_CPUV2 full_path)
  then have "\<exists>st. controllers_loop (getStatsV2 ?e) sparse_reader (pl_V2 pl) s (ce_order ?e (pl_V2 pl)) = Ok st" for s
    using v2_cpu.loop_success[of ?e sparse_reader "pl_V2 pl" s "ce_order ?e (pl_V2 pl)" s] by (auto simp: ks)
  then obtain st where st: "GetV2StatsForProcess ?e sparse_reader 7 = Ok st"
    unfolding GetV2StatsForProcess_def Let_def pl by (simp add: case_prod_beta) blast
  have "\<forall>m \<in> ran (pl_V2 pl). cp_ControllerPath m \<noteq> []" by (auto simp: v2 ran_map_upd)
  from GetV2StatsForProcess_readings[OF order order pl this st]
  have "st = stats_of_V2 ?e sparse_reader (pl_V2 pl)" by (rule conjunct1)
  moreover have "reading sparse_reader (pl_V2 pl) ''cpu'' (read_CPUV2 ?e) = Some (zeroCPUSubsystemV2\<lparr>cpu2_ID := ''a'', cpu2_Path := ''/a''\<rparr>)"
    using cpu skips by (simp add: reading_def v2)
  moreover have "reading sparse_reader (pl_V2 pl) ''io'' (read_IOV2 ?e) = None" by (simp add: reading_def v2)
  ultimately show ?thesis using st by (simp add: stats_of_V2_def case_prod_beta)
qed

section \<open>The version of a process\<close>

text \<open>The version 2 path of a process's lines, the last one if there are several.\<close>

definition unified_of :: "cg_line list \<Rightarrow> string option" where
  "unified_of ls = fold (\<lambda>l p. case l of V1Line _ _ _ \<Rightarrow> p | V2Line q \<Rightarrow> Some q) ls None"

definition plain_paths :: "cg_line list \<Rightarrow> bool" where
  "plain_paths ls \<longleftrightarrow> list_all (\<lambda>l. case l of V1Line _ _ p \<Rightarrow> plain p | V2Line p \<Rightarrow> plain p) ls"

lemma contains_infix: "contains s t \<Longrightarrow> contains s (a @ t @ b)"
  unfolding contains_iff by (metis append.assoc)

lemma contains_unlines:
  assumes "newline \<notin> set s" "s \<noteq> []"
  shows "contains s (unlines ls) \<longleftrightarrow> (\<exists>l \<in> set ls. contains s l)"
proof (induction ls)
  case Nil
  then show ?case using assms(2) by (simp add: unlines_def)
next
  case (Cons l ls)
  have split: "contains s (l @ newline # r) \<longleftrightarrow> contains s l \<or> contains s r" for r
  proof
    assume "contains s (l @ newline # r)"
    then obtain a b where "l @ newline # r = a @ s @ b" unfolding contains_iff by blast
    then consider us where "newline # r = us @ s @ b" | us where "l = a @ us" "us @ newline # r = s @ b"
      unfolding append_eq_append_conv2 by blast
    then show "contains s l \<or> contains s r"
    proof cases
      case (1 us)
      then show ?thesis using assms unfolding contains_iff by (cases us; cases s) auto
    next
      case (2 us)
      then consider vs where "us @ vs = s" "newline # r = vs @ b" | vs where "us = s @ vs"
        unfolding append_eq_append_conv2 by blast
      then show ?thesis
      proof cases
        case (1 vs)
        then have "vs = []" using assms(1) by (cases vs) auto
        then have "l = a @ s @ []" using 1 2(1) by simp
        then show ?thesis unfolding contains_iff by blast
      next
        case (2 vs)
        then have "l = a @ s @ vs" using \<open>l = a @ us\<close> by simp
        then show ?thesis unfolding contains_iff by blast
      qed
    qed
  next
    assume "contains s l \<or> contains s r"
    then show "contains s (l @ newline # r)"
      using contains_infix[of s l "[]" "newline # r"] contains_infix[of s r "l @ [newline]" "[]"] by auto
  qed
  have "unlines (l # ls) = l @ newline # unlines ls" by (simp add: unlines_def)
  then show ?case by (simp add: split Cons)
qed

lemma unlines_join: "ls \<noteq> [] \<Longrightarrow> unlines ls = join newline ls @ [newline]"
proof (induction ls)
  case (Cons l ls)
  then show ?case by (cases "ls = []") (auto simp: unlines_def join_Cons)
qed simp

lemma show_cg_line_ends:
  assumes "cg_line_ok l" "plain_paths [l]"
  shows "show_cg_line l \<noteq> []" "plain_char (hd (show_cg_line l))" "plain_char (last (show_cg_line l))"
proof -
  obtain x xs p where s: "show_cg_line l = x # xs @ p" "plain_char x" "plain p"
  proof (cases l)
    case (V1Line n subs p)
    have "is_digit (hd (show_nat n))" by (rule hd_show_nat)
    then show ?thesis using that[of "hd (show_nat n)" "tl (show_nat n) @ CHR '':'' # join (CHR '','') subs @ '':''" p] assms V1Line
      by (simp add: plain_paths_def digit_plain)
  next
    case (V2Line p)
    then show ?thesis using that[of "CHR ''0''" "''::''" p] assms by (simp add: plain_paths_def plain_char_def code_def)
  qed
  moreover have "p \<noteq> []" "plain_char (last p)" using s(3) by (auto simp: plain_def list_all_iff)
  ultimately show "show_cg_line l \<noteq> []" "plain_char (hd (show_cg_line l))" "plain_char (last (show_cg_line l))"
    by simp_all
qed

lemma join_ends:
  assumes "xs \<noteq> []" "\<forall>x \<in> set xs. x \<noteq> []"
  shows "join sep xs \<noteq> [] \<and> hd (join sep xs) = hd (hd xs) \<and> last (join sep xs) = last (last xs)"
  using assms
proof (induction xs)
  case (Cons x xs)
  then show ?case by (cases "xs = []") (auto simp: join_Cons)
qed simp

lemma trim_cg_file:
  assumes "list_all cg_line_ok ls" "plain_paths ls" "ls \<noteq> []"
  shows "split_on newline (trim_space (unlines (map show_cg_line ls))) = map show_cg_line ls"
proof -
  have e: "show_cg_line l \<noteq> [] \<and> plain_char (hd (show_cg_line l)) \<and> plain_char (last (show_cg_line l)) \<and> newline \<notin> set (show_cg_line l)"
    if "l \<in> set ls" for l
    using show_cg_line_ends[of l] show_cg_line_line[of l] assms that by (auto simp: list_all_iff plain_paths_def is_line_def)
  let ?j = "join newline (map show_cg_line ls)"
  have "?j \<noteq> [] \<and> hd ?j = hd (hd (map show_cg_line ls)) \<and> last ?j = last (last (map show_cg_line ls))"
    using assms(3) e by (intro join_ends) auto
  moreover have "hd ls \<in> set ls" "last ls \<in> set ls" using assms(3) by auto
  ultimately have "?j \<noteq> []" "plain_char (hd ?j)" "plain_char (last ?j)"
    using assms(3) e by (auto simp: hd_map last_map)
  then have "trim_space ([] @ ?j @ [newline]) = ?j"
    by (intro trim_space_blanks) (simp_all add: newline_def)
  moreover have "split_on newline ?j = map show_cg_line ls"
    using assms(3) e by (intro split_on_join) auto
  ultimately show ?thesis using assms(3) by (simp add: unlines_join)
qed

lemma unified_path_lines:
  "list_all cg_line_ok ls \<Longrightarrow> unified_path p (map show_cg_line ls @ [[]]) =
     Ok (fold (\<lambda>l p. case l of V1Line _ _ _ \<Rightarrow> p | V2Line q \<Rightarrow> q) ls p)"
proof (induction ls arbitrary: p)
  case (Cons l ls)
  then have ok: "cg_line_ok l" by simp
  show ?case
  proof (cases l)
    case (V1Line n subs q)
    then have "\<not> contains ''0::/'' (show_cg_line l)" using show_cg_line_unified[OF ok] by blast
    then show ?thesis using Cons V1Line by (simp del: contains.simps show_cg_line.simps)
  next
    case (V2Line q)
    then have "contains ''0::/'' (show_cg_line l)" using show_cg_line_unified[OF ok] by blast
    moreover have "split_on (CHR '':'') (show_cg_line l) = [''0'', [], q]" using show_cg_line_fields[OF ok] V2Line by simp
    ultimately show ?thesis using Cons V2Line by (simp del: contains.simps show_cg_line.simps)
  qed
qed simp

lemma unified_of_fold:
  "list_all cg_line_ok ls \<Longrightarrow>
     fold (\<lambda>l p. case l of V1Line _ _ _ \<Rightarrow> p | V2Line q \<Rightarrow> q) ls [] = valueOr [] (unified_of ls) \<and>
     (unified_of ls \<noteq> Some []) \<and> (unified_of ls \<noteq> None \<longleftrightarrow> (\<exists>p. V2Line p \<in> set ls))"
proof (induction ls rule: rev_induct)
  case (snoc l ls)
  then show ?case by (cases l) (auto simp: unified_of_def cg_path_ok_def)
qed (simp add: unified_of_def)

text \<open>
  The version of a process. Without a version 2 line it is version 1; with nothing
  but a version 2 line it is version 2; in a mixed file it is version 2 exactly when the
  controllers file of the version 2 group, under the unified mount, is not empty. If that
  file cannot be read, finding the version fails; if there is no unified mount it is
  version 1.
\<close>

theorem CgroupsVersion_lines:
  assumes "list_all cg_line_ok ls" "plain_paths ls" "ls \<noteq> []"
    and "file_of w (ResolveHostFS (rd_rootfsMountpoint r) (path_Join [''/proc/'', itoa pid, ''cgroup''])) =
      Inr (unlines (map show_cg_line ls))"
  shows "Reader_CgroupsVersion w r pid =
    (case unified_of ls of
       None \<Rightarrow> Ok CgroupsV1
     | Some p \<Rightarrow>
         if length ls = 1 then Ok CgroupsV2
         else if V2Loc (rd_cgroupMountpoints r) = [] then Ok CgroupsV1
         else (case file_of w (path_Join [V2Loc (rd_cgroupMountpoints r), p, ''cgroup.controllers'']) of
                 Inl n \<Rightarrow> Err (Wrapped ''error fetching cgroup controller list'' (Wrapped ''error reading file'' (PathError n)))
               | Inr s \<Rightarrow> Ok (if s = [] then CgroupsV1 else CgroupsV2)))"
proof -
  let ?s = "unlines (map show_cg_line ls)"
  have c: "contains ''0::/'' ?s \<longleftrightarrow> unified_of ls \<noteq> None"
    using contains_unlines[of "''0::/''" "map show_cg_line ls"] show_cg_line_unified assms(1) unified_of_fold[OF assms(1)]
    by (auto simp: newline_def list_all_iff simp del: contains.simps)
  have nl: "split_on newline ?s = map show_cg_line ls @ [[]]"
    using assms(1) show_cg_line_line by (intro split_unlines) (auto simp: list_all_iff is_line_def)
  have t: "length (split_on newline (trim_space ?s)) = length ls" by (simp add: trim_cg_file[OF assms(1-3)])
  show ?thesis
  proof (cases "unified_of ls")
    case None
    then show ?thesis using c assms(4) by (simp add: Reader_CgroupsVersion_def os_ReadFile_def del: contains.simps)
  next
    case (Some p)
    have "unified_path [] (split_on newline ?s) = Ok p" "p \<noteq> []"
      using unified_path_lines[OF assms(1)] unified_of_fold[OF assms(1)] Some by (simp_all add: nl)
    then show ?thesis using c Some assms(4) t
      by (auto simp: Reader_CgroupsVersion_def os_ReadFile_def readControllerList_def simp del: contains.simps split: sum.splits)
  qed
qed

theorem CgroupsVersion_lines_witness:
  "Reader_CgroupsVersion (\<lparr>file_of = (\<lambda>p. if p = CHR ''@'' # path_Join [''/proc/'', itoa 7, ''cgroup'']
       then Inr (unlines (map show_cg_line sparse_lines)) else Inr ''cpu io''),
     dir_of = (\<lambda>_. Inl ENOENT), link_of = (\<lambda>_. Inl ENOENT), stat_of = (\<lambda>_. Inl ENOENT), env_var = (\<lambda>_. None),
     user_of = (\<lambda>_. None)\<rparr>) sparse_reader 7 = Ok CgroupsV2"
proof -
  let ?w = "\<lparr>file_of = (\<lambda>p. if p = CHR ''@'' # path_Join [''/proc/'', itoa 7, ''cgroup'']
       then Inr (unlines (map show_cg_line sparse_lines)) else Inr ''cpu io''),
     dir_of = (\<lambda>_. Inl ENOENT), link_of = (\<lambda>_. Inl ENOENT), stat_of = (\<lambda>_. Inl ENOENT), env_var = (\<lambda>_. None),
     user_of = (\<lambda>_. None)\<rparr>"
  have "list_all cg_line_ok sparse_lines"
    by (simp add: sparse_lines_def cg_path_ok_def is_line_def newline_def plain_def plain_char_def code_def max_scan_token_def
        show_nat.simps)
  moreover have "plain_paths sparse_lines" by (simp add: sparse_lines_def plain_paths_def plain_def plain_char_def code_def)
  moreover have "sparse_lines \<noteq> []" by (simp add: sparse_lines_def)
  moreover have "file_of ?w (ResolveHostFS (rd_rootfsMountpoint sparse_reader) (path_Join [''/proc/'', itoa 7, ''cgroup''])) =
      Inr (unlines (map show_cg_line sparse_lines))"
    by (simp add: sparse_reader_def marked_root_def)
  moreover have "unified_of sparse_lines = Some ''/a''" "length sparse_lines = 3" by (simp_all add: sparse_lines_def unified_of_def)
  moreover have "V2Loc (rd_cgroupMountpoints sparse_reader) = ''/cg/unified''" by (simp add: sparse_reader_def)
  moreover have "file_of ?w (path_Join [''/cg/unified'', ''/a'', ''cgroup.controllers'']) = Inr ''cpu io''"
    using hd_path_Join[of "''/cg/unified''" "[''/a'', ''cgroup.controllers'']"] by (auto simp: slash_def)
  ultimately show ?thesis
    using CgroupsVersion_lines[of sparse_lines ?w sparse_reader 7] by simp
qed

section \<open>Percentages between two readings\<close>

definition usage_advances :: "nat \<Rightarrow> nat \<Rightarrow> CPUUsage \<Rightarrow> CPUUsage \<Rightarrow> bool" where
  "usage_advances n td prev cur \<longleftrightarrow>
     unat (cu_NS prev) \<le> unat (cu_NS cur) \<and> unat (cu_NS cur) - unat (cu_NS prev) \<le> n * td"

definition usage_in_bounds :: "nat \<Rightarrow> CPUUsage \<Rightarrow> bool" where
  "usage_in_bounds n u \<longleftrightarrow>
     (case (cu_Pct u, cu_Norm u) of (Some p, Some q) \<Rightarrow> f64_in (of_nat n) p \<and> f64_in 1 q | _ \<Rightarrow> False)"

lemma round53_le_nat: "0 \<le> q \<Longrightarrow> q \<le> of_nat n \<Longrightarrow> n \<le> 2 ^ 53 \<Longrightarrow> round53 q \<le> of_nat n"
  using round53_le[of q "of_nat n"] round53_int[of "int n"] by simp

lemma f64_of_nat: "n \<le> 2 ^ 53 \<Longrightarrow> f64_of_int (int n) = F64Fin False (of_nat n)"
  using f64_of_small_int[of "int n"] by simp

lemma f64_div_nat:
  assumes "0 \<le> a" "a \<le> of_nat (n * d)" "0 < d" "n \<le> 2 ^ 39"
  shows "f64_in (of_nat n) (f64_div (F64Fin False a) (F64Fin False (of_nat d)))"
proof -
  have q: "0 \<le> a / of_nat d" "a / of_nat d \<le> of_nat n" using assms by (simp_all add: field_simps)
  have "a / of_nat d \<le> p2 1023"
    using round_range_nat[OF q assms(4)] unfolding in_round_range_def by (intro p2_1000_1023) (rule conjunct2)
  moreover have "round53 (a / of_nat d) \<le> of_nat n" using q assms(4) by (intro round53_le_nat) auto
  ultimately show ?thesis using assms q by (subst f64_div_fin) auto
qed

lemma fill_usage_bounds:
  assumes "usage_advances n td prev cur" "0 < td" "n * td \<le> 2 ^ 53" "0 < n" "n \<le> 2 ^ 39"
  shows "usage_in_bounds n (fill_usage cur prev (int td) (int n)) \<and> cu_NS (fill_usage cur prev (int td) (int n)) = cu_NS cur"
proof -
  let ?d = "cu_NS cur - cu_NS prev"
  have d: "unat ?d = unat (cu_NS cur) - unat (cu_NS prev)" "unat ?d \<le> n * td"
    using assms(1) by (simp_all add: usage_advances_def unat_sub_u64)
  have "(2 :: nat) ^ 53 < 2 ^ 63" by simp
  then have i: "int64_of ?d = int (unat ?d)" using d(2) assms(3) by (intro int64_of_small) linarith
  have "unat ?d \<le> 2 ^ 53" using d(2) assms(3) by linarith
  then have a: "f64_of_int (int64_of ?d) = F64Fin False (of_nat (unat ?d))" by (simp only: i f64_of_nat)
  have "td \<le> n * td" using assms(4) by simp
  then have b: "f64_of_int (int td) = F64Fin False (of_nat td)"
    using assms(3) by (intro f64_of_nat) linarith
  have n: "f64_of_int (int n) = F64Fin False (of_nat n)" using assms(5) by (intro f64_of_nat) simp
  have "(of_nat (unat ?d) :: rat) \<le> of_nat (n * td)" using d(2) by (simp only: of_nat_le_iff)
  then have p: "f64_in (of_nat n) (usage_pct (cu_NS cur) (cu_NS prev) (int td))"
    unfolding usage_pct_def a b using assms by (intro f64_div_nat of_nat_0_le_iff) auto
  then obtain m where m: "usage_pct (cu_NS cur) (cu_NS prev) (int td) = F64Fin False m" "0 \<le> m" "m \<le> of_nat n"
    by (cases "usage_pct (cu_NS cur) (cu_NS prev) (int td)") auto
  have "f64_in (of_nat 1) (f64_div (F64Fin False m) (F64Fin False (of_nat n)))"
    using m assms(4) by (intro f64_div_nat) auto
  then show ?thesis
    using Round_in[OF p assms(5)] Round_in[of 1 "f64_div (F64Fin False m) (F64Fin False (of_nat n))"]
    by (simp add: usage_in_bounds_def fill_usage_def Let_def m(1) n)
qed

text \<open>The number of CPUs the percentages of version 1 are divided by.\<close>

definition acct_cpus :: "os_env \<Rightarrow> int \<Rightarrow> CPUAccountingSubsystem \<Rightarrow> int" where
  "acct_cpus w runtimeNumCPU acct =
     (let k = card (dom (acct_UsagePerCPU acct)) in if 0 < k then int k else NumCPU w runtimeNumCPU)"



text \<open>
  The same for version 2, with the number of CPUs of the machine.
\<close>

theorem FillPercentagesV2_bounds:
  assumes "s2_CPU s = Some c" "s2_CPU p = Some prev"
    and "NumCPU w runtime = int n" "0 < n" "n \<le> 2 ^ 39" "0 < td" "n * td \<le> 2 ^ 53"
    and "usage_advances n td (cs2_Usage (cpu2_Stats prev)) (cs2_Usage (cpu2_Stats c))"
    and "usage_advances n td (cs2_User (cpu2_Stats prev)) (cs2_User (cpu2_Stats c))"
    and "usage_advances n td (cs2_System (cpu2_Stats prev)) (cs2_System (cpu2_Stats c))"
  shows "\<exists>c'. FillPercentagesV2 w runtime (Some s) (OfV2 (Some p)) (int td) = Ok (Some (s\<lparr>s2_CPU := Some c'\<rparr>)) \<and>
    usage_in_bounds n (cs2_Usage (cpu2_Stats c')) \<and> usage_in_bounds n (cs2_User (cpu2_Stats c')) \<and>
    usage_in_bounds n (cs2_System (cpu2_Stats c')) \<and> cpu2_Pressure c' = cpu2_Pressure c \<and>
    cs2_Throttled (cpu2_Stats c') = cs2_Throttled (cpu2_Stats c)"
proof -
  let ?st = "(cpu2_Stats c)\<lparr>cs2_Usage := fill_usage (cs2_Usage (cpu2_Stats c)) (cs2_Usage (cpu2_Stats prev)) (int td) (int n),
    cs2_User := fill_usage (cs2_User (cpu2_Stats c)) (cs2_User (cpu2_Stats prev)) (int td) (int n),
    cs2_System := fill_usage (cs2_System (cpu2_Stats c)) (cs2_System (cpu2_Stats prev)) (int td) (int n)\<rparr>"
  have "FillPercentagesV2 w runtime (Some s) (OfV2 (Some p)) (int td) =
      Ok (Some (s\<lparr>s2_CPU := Some (c\<lparr>cpu2_Stats := ?st\<rparr>)\<rparr>))"
    using assms(1-3) by (simp add: FillPercentagesV2_def Let_def)
  then show ?thesis
    using fill_usage_bounds[OF assms(8) assms(6,7,4,5)] fill_usage_bounds[OF assms(9) assms(6,7,4,5)]
      fill_usage_bounds[OF assms(10) assms(6,7,4,5)]
    by (intro exI[of _ "c\<lparr>cpu2_Stats := ?st\<rparr>"]) simp
qed

theorem FillPercentagesV2_bounds_witness:
  "\<exists>c'. FillPercentagesV2 (files_env []) 4
      (Some \<lparr>s2_ID = [], s2_Path = [], s2_CPU = Some (zeroCPUSubsystemV2\<lparr>cpu2_Stats := zeroCPUStatsV2\<lparr>cs2_User := zeroCPUUsage\<lparr>cu_NS := 9\<rparr>\<rparr>\<rparr>),
         s2_Memory = None, s2_IO = None, s2_Version = CgroupsV2\<rparr>)
      (OfV2 (Some \<lparr>s2_ID = [], s2_Path = [], s2_CPU = Some zeroCPUSubsystemV2, s2_Memory = None, s2_IO = None, s2_Version = CgroupsV2\<rparr>)) 1000 =
    Ok (Some \<lparr>s2_ID = [], s2_Path = [], s2_CPU = Some c', s2_Memory = None, s2_IO = None, s2_Version = CgroupsV2\<rparr>) \<and>
    usage_in_bounds 4 (cs2_User (cpu2_Stats c'))"
proof -
  let ?c = "zeroCPUSubsystemV2\<lparr>cpu2_Stats := zeroCPUStatsV2\<lparr>cs2_User := zeroCPUUsage\<lparr>cu_NS := 9\<rparr>\<rparr>\<rparr>"
  let ?s = "\<lparr>s2_ID = [], s2_Path = [], s2_CPU = Some ?c, s2_Memory = None, s2_IO = None, s2_Version = CgroupsV2\<rparr>"
  let ?p = "\<lparr>s2_ID = [], s2_Path = [], s2_CPU = Some zeroCPUSubsystemV2, s2_Memory = None, s2_IO = None, s2_Version = CgroupsV2\<rparr>"
  have n: "NumCPU (files_env []) 4 = int 4" by (simp add: NumCPU_def getCPU_def files_env_def os_ReadFile_def Let_def)
  show ?thesis
    using FillPercentagesV2_bounds[of ?s ?c ?p zeroCPUSubsystemV2 "files_env []" 4 4 1000, OF _ _ n]
    by (auto simp: usage_advances_def zeroCPUSubsystemV2_def zeroCPUStatsV2_def zeroCPUUsage_def)
qed

text \<open>
  The guards of \<open>FillPercentages\<close>. With no previous statistics, statistics of the other
  version, no receiver, or a missing controller nothing changes. The test for a nil
  pointer comes too late: a nil pointer inside the interface panics in \<open>CGVersion\<close>.
\<close>

theorem FillPercentages_guards:
  "FillPercentagesV1 w runtime stat NilStats td = Ok stat \<and>
   FillPercentagesV1 w runtime stat (OfV2 (Some s2)) td = Ok stat \<and>
   FillPercentagesV1 w runtime None (OfV1 (Some p)) td = Ok None \<and>
   FillPercentagesV1 w runtime (Some (s\<lparr>s1_CPUAccounting := None\<rparr>)) (OfV1 (Some p)) td = Ok (Some (s\<lparr>s1_CPUAccounting := None\<rparr>)) \<and>
   FillPercentagesV1 w runtime (Some s) (OfV1 (Some (p\<lparr>s1_CPUAccounting := None\<rparr>))) td = Ok (Some s) \<and>
   FillPercentagesV1 w runtime stat (OfV1 None) td = Panic \<and>
   FillPercentagesV2 w runtime stat2 NilStats td = Ok stat2 \<and>
   FillPercentagesV2 w runtime stat2 (OfV1 (Some s)) td = Ok stat2 \<and>
   FillPercentagesV2 w runtime (Some (s2\<lparr>s2_CPU := None\<rparr>)) (OfV2 (Some q2)) td = Ok (Some (s2\<lparr>s2_CPU := None\<rparr>)) \<and>
   FillPercentagesV2 w runtime (Some s2) (OfV2 (Some (q2\<lparr>s2_CPU := None\<rparr>))) td = Ok (Some s2) \<and>
   FillPercentagesV2 w runtime stat2 (OfV2 None) td = Panic"
  by (auto simp: FillPercentagesV1_def FillPercentagesV2_def split: option.splits)

end
