(* ===== verification/Network.thy ===== *)
theory Network
  imports Prelude
begin

text \<open>
  \<open>metric/system/network/helpers.go\<close>: the counters of \<open>/proc/net/netstat\<close> and
  \<open>/proc/net/snmp\<close>, read by go-sysinfo, are combined per protocol. The loops range over
  maps, so the order of each is an argument. Proved: the result does not depend on the
  orders and is the union of the two maps, cut down by the filter.
\<close>

text \<open>The fields of \<open>NetworkCountersInfo\<close> that are read.\<close>

type_synonym counter_map = "string \<rightharpoonup> u64"

record NetworkCountersInfo =
  ns_IPExt :: counter_map
  ns_TCPExt :: counter_map
  sn_IP :: counter_map
  sn_TCP :: counter_map
  sn_UDP :: counter_map
  sn_UDPLite :: counter_map
  sn_ICMPMsg :: counter_map
  sn_ICMP :: counter_map

text \<open>A value of the combined map is an \<open>int64\<close> or a \<open>uint64\<close>; a protocol's entry is such a map or a raw one.\<close>

datatype net_counter = NetInt int | NetUint u64

datatype proto_entry = Combined "string \<rightharpoonup> net_counter" | RawCounters counter_map

definition checkMaxConn :: "string \<Rightarrow> u64 \<Rightarrow> net_counter" where
  "checkMaxConn inKey i = (if inKey = ''MaxConn'' then NetInt (int64_of i) else NetUint i)"

fun add_all :: "counter_map \<Rightarrow> (string \<rightharpoonup> net_counter) \<Rightarrow> string list \<Rightarrow> (string \<rightharpoonup> net_counter)" where
  "add_all m acc [] = acc"
| "add_all m acc (k # ks) = add_all m (acc(k \<mapsto> checkMaxConn k (the (m k)))) ks"

definition add_key :: "counter_map \<Rightarrow> string \<Rightarrow> (string \<rightharpoonup> net_counter) \<Rightarrow> (string \<rightharpoonup> net_counter)" where
  "add_key m key acc = (case m key of Some v \<Rightarrow> acc(key \<mapsto> checkMaxConn key v) | None \<Rightarrow> acc)"

fun add_filtered :: "counter_map \<Rightarrow> counter_map \<Rightarrow> (string \<rightharpoonup> net_counter) \<Rightarrow> string list \<Rightarrow> (string \<rightharpoonup> net_counter)" where
  "add_filtered m1 m2 acc [] = acc"
| "add_filtered m1 m2 acc (key # ks) =
     add_filtered m1 m2 (add_key m2 key (add_key m1 key acc)) ks"

definition combineMap ::
  "(counter_map \<Rightarrow> string list) \<Rightarrow> counter_map \<Rightarrow> counter_map \<Rightarrow> string list \<Rightarrow> (string \<rightharpoonup> net_counter)" where
  "combineMap order m1 m2 filt =
     (if length filt = 0 \<or> filt ! 0 = ''all''
      then add_all m2 (add_all m1 Map.empty (order m1)) (order m2)
      else add_filtered m1 m2 Map.empty filt)"

definition createMap :: "(counter_map \<Rightarrow> string list) \<Rightarrow> NetworkCountersInfo \<Rightarrow> string list \<Rightarrow> (string \<rightharpoonup> proto_entry)" where
  "createMap order raw filt =
     [''ip'' \<mapsto> Combined (combineMap order (ns_IPExt raw) (sn_IP raw) filt),
      ''tcp'' \<mapsto> Combined (combineMap order (ns_TCPExt raw) (sn_TCP raw) filt),
      ''udp'' \<mapsto> RawCounters (sn_UDP raw),
      ''udp_lite'' \<mapsto> RawCounters (sn_UDPLite raw),
      ''icmp'' \<mapsto> Combined (combineMap order (sn_ICMPMsg raw) (sn_ICMP raw) filt)]"

definition MapProcNetCountersWithFilter ::
  "(counter_map \<Rightarrow> string list) \<Rightarrow> NetworkCountersInfo \<Rightarrow> string list \<Rightarrow> (string \<rightharpoonup> proto_entry)" where
  "MapProcNetCountersWithFilter order raw filt = createMap order raw filt"

definition MapProcNetCounters :: "(counter_map \<Rightarrow> string list) \<Rightarrow> NetworkCountersInfo \<Rightarrow> (string \<rightharpoonup> proto_entry)" where
  "MapProcNetCounters order raw = createMap order raw [''all'']"

section \<open>The union of the maps\<close>

definition union_counters :: "(string \<Rightarrow> bool) \<Rightarrow> counter_map \<Rightarrow> counter_map \<Rightarrow> (string \<rightharpoonup> net_counter)" where
  "union_counters keep m1 m2 =
     (\<lambda>k. if keep k then map_option (checkMaxConn k) ((m1 ++ m2) k) else None)"

definition selected :: "string list \<Rightarrow> string \<Rightarrow> bool" where
  "selected filt k \<longleftrightarrow> filt = [] \<or> hd filt = ''all'' \<or> k \<in> set filt"

lemma add_all_apply:
  "add_all m acc ks k = (if k \<in> set ks then Some (checkMaxConn k (the (m k))) else acc k)"
  by (induction ks arbitrary: acc) auto

lemma add_all_iterates:
  "iterates ks m \<Longrightarrow> add_all m acc ks k = (case m k of Some v \<Rightarrow> Some (checkMaxConn k v) | None \<Rightarrow> acc k)"
  by (auto simp: add_all_apply iterates_def split: option.splits)

lemma add_key_apply:
  "add_key m key acc k = (if k = key then (case m key of Some v \<Rightarrow> Some (checkMaxConn key v) | None \<Rightarrow> acc key) else acc k)"
  by (simp add: add_key_def split: option.splits)

lemma add_filtered_apply:
  "add_filtered m1 m2 acc ks k =
     (if k \<in> set ks \<and> (m1 ++ m2) k \<noteq> None then map_option (checkMaxConn k) ((m1 ++ m2) k) else acc k)"
  by (induction ks arbitrary: acc)
    (auto simp: add_key_apply map_add_def split: option.splits)

text \<open>
  C37. Combining two maps of counters gives, whatever the order of iteration, the
  union of the maps in which the second wins, restricted to the filter unless that is
  empty or starts with "all".
\<close>

theorem combineMap_union:
  assumes "range_order order" "finite (dom m1)" "finite (dom m2)"
  shows "combineMap order m1 m2 filt = union_counters (selected filt) m1 m2"
proof (rule ext)
  fix k
  note it = range_orderD[OF assms(1)] 
  show "combineMap order m1 m2 filt k = union_counters (selected filt) m1 m2 k"
  proof (cases "filt = [] \<or> hd filt = ''all''")
    case True
    then show ?thesis
      by (auto simp: combineMap_def hd_conv_nth union_counters_def selected_def map_add_def
          add_all_iterates[OF it[OF assms(2)]] add_all_iterates[OF it[OF assms(3)]] split: option.splits)
  next
    case False
    then show ?thesis
      by (auto simp: combineMap_def hd_conv_nth union_counters_def selected_def add_filtered_apply)
  qed
qed

theorem combineMap_union_witness:
  "combineMap sorted_keys [''InSegs'' \<mapsto> 5] [''MaxConn'' \<mapsto> - 1] [''MaxConn''] =
     union_counters (selected [''MaxConn'']) [''InSegs'' \<mapsto> 5] [''MaxConn'' \<mapsto> - 1]"
  by (rule combineMap_union[OF range_order_sorted]) simp_all

end
