(* ===== verification/Process_Linux.thy ===== *)
theory Process_Linux
  imports Resolve Go_Floats CPU_Stat Cgroup_Reader Network
begin

text \<open>
  \<open>metric/system/process/process_types.go\<close> and \<open>process_linux_common.go\<close>: the data of a
  process and its readers of \<open>/proc/<pid>\<close>. The boot time is a global variable of the
  package: the functions that may set it take and return it. The formatting of times and
  the sum of optional counters belong to other modules and are arguments. Proved: which
  names and numbers are read from \<open>stat\<close>, whatever the name of the command is, and how
  far the CPU times go wrong when it has blanks; arguments; the boot time is read once.
\<close>

section \<open>Data\<close>

type_synonym PidState = string

record CPUTotal =
  ct_Value :: "f64 option"
  ct_Ticks :: "u64 option"
  ct_Pct :: "f64 option"
  ct_Norm :: "f64 option"

record ProcCPUInfo =
  pc_StartTime :: string
  pc_Total :: CPUTotal
  pc_User :: "u64 option"
  pc_System :: "u64 option"

record MemBytePct =
  mb_Bytes :: "u64 option"
  mb_Pct :: "f64 option"

record ProcMemInfo =
  pm_Size :: "u64 option"
  pm_Share :: "u64 option"
  pm_Rss :: MemBytePct

record ProcLimits =
  lim_Soft :: "u64 option"
  lim_Hard :: "u64 option"

record ProcFDInfo =
  fd_Open :: "u64 option"
  fd_Limit :: ProcLimits

text \<open>\<open>Env\<close> may be nil; \<open>SampleTime\<close> counts nanoseconds.\<close>

record ProcState =
  ps_Name :: string
  ps_State :: PidState
  ps_Username :: string
  ps_Pid :: "int option"
  ps_Ppid :: "int option"
  ps_Pgid :: "int option"
  ps_Args :: "string list"
  ps_Cmdline :: string
  ps_Cwd :: string
  ps_Exe :: string
  ps_Env :: "(string \<rightharpoonup> string) option"
  ps_Memory :: ProcMemInfo
  ps_CPU :: ProcCPUInfo
  ps_FD :: ProcFDInfo
  ps_Network :: "NetworkCountersInfo option"
  ps_Cgroup :: CGStats
  ps_SampleTime :: int

definition zeroProcMemInfo :: ProcMemInfo where
  "zeroProcMemInfo = \<lparr>pm_Size = None, pm_Share = None, pm_Rss = \<lparr>mb_Bytes = None, mb_Pct = None\<rparr>\<rparr>"

definition zeroProcCPUInfo :: ProcCPUInfo where
  "zeroProcCPUInfo = \<lparr>pc_StartTime = [], pc_Total = \<lparr>ct_Value = None, ct_Ticks = None, ct_Pct = None, ct_Norm = None\<rparr>,
     pc_User = None, pc_System = None\<rparr>"

definition zeroProcFDInfo :: ProcFDInfo where
  "zeroProcFDInfo = \<lparr>fd_Open = None, fd_Limit = \<lparr>lim_Soft = None, lim_Hard = None\<rparr>\<rparr>"

definition zeroProcState :: ProcState where
  "zeroProcState = \<lparr>ps_Name = [], ps_State = [], ps_Username = [], ps_Pid = None, ps_Ppid = None, ps_Pgid = None,
     ps_Args = [], ps_Cmdline = [], ps_Cwd = [], ps_Exe = [], ps_Env = None, ps_Memory = zeroProcMemInfo,
     ps_CPU = zeroProcCPUInfo, ps_FD = zeroProcFDInfo, ps_Network = None, ps_Cgroup = NilStats, ps_SampleTime = 0\<rparr>"

definition CPUTotal_IsZero :: "CPUTotal \<Rightarrow> bool" where
  "CPUTotal_IsZero t \<longleftrightarrow> ct_Value t = None \<and> ct_Ticks t = None \<and> ct_Pct t = None \<and> ct_Norm t = None"

text \<open>\<open>CPUTicks\<close> has the ticks as its only field and is modelled by them.\<close>

definition CPUTicks_IsZero :: "u64 option \<Rightarrow> bool" where
  "CPUTicks_IsZero t \<longleftrightarrow> t = None"

definition ProcFDInfo_IsZero :: "ProcFDInfo \<Rightarrow> bool" where
  "ProcFDInfo_IsZero t \<longleftrightarrow> fd_Open t = None \<and> lim_Hard (fd_Limit t) = None \<and> lim_Soft (fd_Limit t) = None"

text \<open>The event of the root fields.\<close>

record ProcessRoot =
  pr_Cmdline :: string
  pr_State :: PidState
  pr_StartTime :: string
  pr_CPUPct :: "f64 option"
  pr_MemoryPct :: "f64 option"
  pr_Cwd :: string
  pr_Exe :: string
  pr_Args :: "string list"
  pr_Name :: string
  pr_Pid :: "int option"
  pr_ParentPid :: "int option"
  pr_Pgid :: "int option"

record ProcStateRootEvent =
  re_Process :: ProcessRoot
  re_UserName :: string

text \<open>\<open>FormatForRoot\<close> moves fields out of its receiver: the event, and the process that is left.\<close>

definition FormatForRoot :: "ProcState \<Rightarrow> ProcStateRootEvent \<times> ProcState" where
  "FormatForRoot p =
     (\<lparr>re_Process = \<lparr>pr_Cmdline = ps_Cmdline p, pr_State = ps_State p, pr_StartTime = pc_StartTime (ps_CPU p),
         pr_CPUPct = ct_Norm (pc_Total (ps_CPU p)), pr_MemoryPct = mb_Pct (pm_Rss (ps_Memory p)), pr_Cwd = ps_Cwd p,
         pr_Exe = ps_Exe p, pr_Args = ps_Args p, pr_Name = ps_Name p, pr_Pid = ps_Pid p, pr_ParentPid = ps_Ppid p,
         pr_Pgid = ps_Pgid p\<rparr>,
       re_UserName = ps_Username p\<rparr>,
      p\<lparr>ps_Name := [], ps_Pid := None, ps_Ppid := None, ps_Pgid := None, ps_Username := [], ps_Cwd := [],
        ps_Exe := [], ps_Args := []\<rparr>)"

section \<open>Scanning an int with the verb v\<close>

text \<open>
  \<open>fmt.Fscan\<close> into an \<open>int\<close>: blanks are skipped, a base prefix and underscores are
  accepted, and the token goes through \<open>strconv.ParseInt\<close> with base 0.
\<close>

definition digit_in :: "nat \<Rightarrow> char \<Rightarrow> bool" where
  "digit_in base c \<longleftrightarrow> is_hex_digit c \<and> hex_val c < base"

definition base_prefix :: "string \<Rightarrow> nat \<times> string \<times> string" where
  "base_prefix u =
     (case u of
        [] \<Rightarrow> (10, [], u)
      | z # r \<Rightarrow>
          if z \<noteq> CHR ''0'' then (10, [], u)
          else if r \<noteq> [] \<and> lower_char (hd r) = CHR ''b'' then (2, take 2 u, tl r)
          else if r \<noteq> [] \<and> lower_char (hd r) = CHR ''o'' then (8, take 2 u, tl r)
          else if r \<noteq> [] \<and> lower_char (hd r) = CHR ''x'' then (16, take 2 u, tl r)
          else (8, ''0'', r))"

definition digits_value :: "nat \<Rightarrow> string \<Rightarrow> nat" where
  "digits_value base ds = foldl (\<lambda>n c. if c = CHR ''_'' then n else base * n + hex_val c) 0 ds"

definition scan_int_v :: "string \<Rightarrow> (int \<times> string) outcome" where
  "scan_int_v s =
     (let t = dropWhile ascii_ws s in
      if t = [] then Err (Sentinel ''unexpected EOF'')
      else
        let neg = (hd t = CHR ''-'');
            u = (if hd t = CHR ''-'' \<or> hd t = CHR ''+'' then tl t else t);
            (base, pre, rest) = base_prefix u;
            accepts = (\<lambda>c. digit_in base c \<or> c = CHR ''_'');
            ds = takeWhile accepts rest;
            v = digits_value base ds in
        if pre = [] \<and> ds = [] then Err (Message ''expected integer'')
        else if length pre = 2 \<and> ds = [] then Err (NumError ErrSyntax)
        else if CHR ''_'' \<in> set ds \<and> \<not> underscore_loop (base = 16) (if pre = [] then SeenOther else SeenDigit) ds
        then Err (NumError ErrSyntax)
        else if (if neg then 2 ^ 63 < v else 2 ^ 63 \<le> v) then Err (NumError ErrRange)
        else Ok (if neg then - int v else int v, dropWhile accepts rest))"

section \<open>stat\<close>

definition PidStates :: "char \<rightharpoonup> PidState" where
  "PidStates =
     [CHR ''S'' \<mapsto> ''sleeping'', CHR ''R'' \<mapsto> ''running'', CHR ''D'' \<mapsto> ''disk_sleep'', CHR ''I'' \<mapsto> ''idle'',
      CHR ''T'' \<mapsto> ''stopped'', CHR ''Z'' \<mapsto> ''zombie'', CHR ''X'' \<mapsto> ''dead'', CHR ''x'' \<mapsto> ''dead'',
      CHR ''K'' \<mapsto> ''wakekill'', CHR ''W'' \<mapsto> ''waking'', CHR ''P'' \<mapsto> ''parked'']"

definition getProcState :: "char \<Rightarrow> PidState" where
  "getProcState b = (case PidStates b of Some state \<Rightarrow> state | None \<Rightarrow> ''unknown'')"

definition proc_path :: "resolver \<Rightarrow> int \<Rightarrow> string \<Rightarrow> string" where
  "proc_path hostfs pid file = Join hostfs [''proc'', itoa pid, file]"

text \<open>The last three errors wrap \<open>err\<close>, which is nil there.\<close>

definition GetInfoForPid :: "os_env \<Rightarrow> resolver \<Rightarrow> int \<Rightarrow> ProcState outcome" where
  "GetInfoForPid w hostfs pid =
     (case os_ReadFile w (proc_path hostfs pid ''stat'') of
        Err err \<Rightarrow> if os_IsNotExist err then Err NoSuchProcess else Err (Wrapped ''error reading procdir'' err)
      | Panic \<Rightarrow> Panic
      | Ok stat \<Rightarrow>
          (case (index_of (CHR ''('') stat, last_index_of (CHR '')'') stat) of
             (Some lIdx, Some rIdx) \<Rightarrow>
               if rIdx \<le> lIdx \<or> length stat \<le> rIdx + 2 then Err (Message ''failed to extract comm: %!w(<nil>)'')
               else
                 let name = take (rIdx - (lIdx + 1)) (drop (lIdx + 1) stat);
                     fs = Fields (drop (rIdx + 2) stat) in
                 if length fs \<le> 36 then Err (Message ''expected more stat fields: %!w(<nil>)'')
                 else
                   let procState = fs ! 0 in
                   wrap_err ''failed to parse stat fields''
                     (and_then (scan_int_v (fs ! 1 @ CHR '' '' # fs ! 2)) (\<lambda>(ppid, r).
                      and_then (scan_int_v r) (\<lambda>(pgid, _).
                        Ok (zeroProcState\<lparr>ps_Name := name, ps_State := getProcState (hd procState),
                              ps_Ppid := Some ppid, ps_Pgid := Some pgid, ps_Pid := Some pid\<rparr>))))
           | _ \<Rightarrow> Err (Message ''failed to extract comm: %!w(<nil>)'')))"

section \<open>Boot time\<close>

fun find_btime :: "string list \<Rightarrow> u64 outcome option" where
  "find_btime [] = None"
| "find_btime (line # rest) =
     (if prefix ''btime'' line then
        Some (if length line < 6 then Panic else wrap_err ''error reading boot time'' (parse_uint (drop 6 line)))
      else find_btime rest)"

definition getLinuxBootTime :: "os_env \<Rightarrow> resolver \<Rightarrow> u64 \<Rightarrow> u64 outcome \<times> u64" where
  "getLinuxBootTime w hostfs bootTime =
     (if bootTime \<noteq> 0 then (Ok bootTime, bootTime)
      else
        case os_ReadFile w (Join hostfs [''proc'', ''stat'']) of
          Err err \<Rightarrow> (Err (Wrapped ''error opening file'' err), bootTime)
        | Panic \<Rightarrow> (Panic, bootTime)
        | Ok stat \<Rightarrow>
            (case find_btime (split_on newline stat) of
               None \<Rightarrow> (Err (Message ''no boot time find in file: %!w(<nil>)''), bootTime)
             | Some (Ok btime) \<Rightarrow> (Ok btime, btime)
             | Some res \<Rightarrow> (res, bootTime)))"

section \<open>CPU, memory, arguments, environment, files and user\<close>

text \<open>
  \<open>typeconv.Time(time.Unix(0, n)).String()\<close> is the argument \<open>format_time\<close>; the product
  wraps at 64 bits and is read as an \<open>int64\<close>.
\<close>

definition unixTimeMsToTime :: "(int \<Rightarrow> string) \<Rightarrow> u64 \<Rightarrow> string" where
  "unixTimeMsToTime format_time unixTimeMs = format_time (int64_of (unixTimeMs * 1000000))"

definition stripNullByte :: "string \<Rightarrow> string outcome" where
  "stripNullByte buf = (if buf = [] then Panic else Ok (butlast buf))"

definition ticks_per_second :: u64 where
  "ticks_per_second = 100"

text \<open>The whole line is split at blanks, the name of the command included.\<close>

definition getCPUTime ::
  "(u64 option list \<Rightarrow> u64) \<Rightarrow> (int \<Rightarrow> string) \<Rightarrow> os_env \<Rightarrow> resolver \<Rightarrow> int \<Rightarrow> u64 \<Rightarrow> ProcCPUInfo outcome \<times> u64" where
  "getCPUTime SumOptUint format_time w hostfs pid bootTime =
     (case wrap_err ''error opening file'' (os_ReadFile w (proc_path hostfs pid ''stat'')) of
        Err e \<Rightarrow> (Err e, bootTime)
      | Panic \<Rightarrow> (Panic, bootTime)
      | Ok stat \<Rightarrow>
          let fs = Fields stat in
          (case and_then (at_index fs 13) (\<lambda>f. and_then (wrap_err ''error parsing user CPU times'' (parse_uint f)) (\<lambda>user.
                and_then (at_index fs 14) (\<lambda>f. and_then (wrap_err ''error parsing system CPU times'' (parse_uint f)) (\<lambda>sys.
                  Ok (user, sys))))) of
             Err e \<Rightarrow> (Err e, bootTime)
           | Panic \<Rightarrow> (Panic, bootTime)
           | Ok (user, sys) \<Rightarrow>
               (case getLinuxBootTime w hostfs bootTime of
                  (Err e, bootTime) \<Rightarrow> (Err (Wrapped ''error feting boot time'' e), bootTime)
                | (Panic, bootTime) \<Rightarrow> (Panic, bootTime)
                | (Ok btime, bootTime) \<Rightarrow>
                    let u = Some (user * (1000 div ticks_per_second)); y = Some (sys * (1000 div ticks_per_second)) in
                    (and_then (at_index fs 21) (\<lambda>f. and_then (wrap_err ''error parsing start time value'' (parse_uint f)) (\<lambda>startTime.
                       let startTime = startTime div ticks_per_second;
                           startTime = startTime + btime;
                           startTime = startTime * 1000 in
                       Ok \<lparr>pc_StartTime = unixTimeMsToTime format_time startTime,
                           pc_Total = \<lparr>ct_Value = None, ct_Ticks = Some (SumOptUint [u, y]), ct_Pct = None, ct_Norm = None\<rparr>,
                           pc_User = u, pc_System = y\<rparr>)), bootTime))))"

definition page_bytes :: "u64 \<Rightarrow> u64" where
  "page_bytes x = push_bit 12 x"

text \<open>The error of the last number is dropped; \<open>ParseUint\<close> returns the largest value for one out of range, else 0.\<close>

definition getMemData :: "os_env \<Rightarrow> resolver \<Rightarrow> int \<Rightarrow> ProcMemInfo outcome" where
  "getMemData w hostfs pid =
     and_then (wrap_err ''error opening file'' (os_ReadFile w (proc_path hostfs pid ''statm''))) (\<lambda>statm.
     let fs = Fields statm in
     and_then (at_index fs 0) (\<lambda>f0. and_then (wrap_err ''error parsing memory size'' (parse_uint f0)) (\<lambda>size0.
     and_then (at_index fs 1) (\<lambda>f1. and_then (wrap_err ''error parsing memory rss'' (parse_uint f1)) (\<lambda>rss.
     and_then (at_index fs 2) (\<lambda>f2.
       let share = (case parse_uint f2 of Ok v \<Rightarrow> v | Err e \<Rightarrow> (if e = NumError ErrRange then - 1 else 0) | Panic \<Rightarrow> 0) in
       Ok \<lparr>pm_Size = Some (page_bytes size0), pm_Share = Some (page_bytes share),
           pm_Rss = \<lparr>mb_Bytes = Some (page_bytes rss), mb_Pct = None\<rparr>\<rparr>))))))"

text \<open>What follows the last null byte is read together with the end of the file and dropped.\<close>

definition getArgs :: "os_env \<Rightarrow> resolver \<Rightarrow> int \<Rightarrow> string list outcome" where
  "getArgs w hostfs pid =
     and_then (wrap_err ''error opening file'' (os_ReadFile w (proc_path hostfs pid ''cmdline''))) (\<lambda>cmdline.
       Ok (butlast (split_on (CHR 0x00) cmdline)))"

fun fd_limits :: "ProcLimits \<Rightarrow> string list \<Rightarrow> ProcLimits outcome" where
  "fd_limits lims [] = Ok lims"
| "fd_limits lims (line # rest) =
     (if prefix ''Max open files'' line then
        (let fs = Fields line in
         if length fs = 6 then
           and_then (wrap_err ''error parsing limits value'' (parse_uint (fs ! 3))) (\<lambda>soft.
           and_then (wrap_err ''error parsing limits value'' (parse_uint (fs ! 4))) (\<lambda>hard.
             fd_limits (lims\<lparr>lim_Soft := Some soft, lim_Hard := Some hard\<rparr>) rest))
         else fd_limits lims rest)
      else fd_limits lims rest)"

definition getFDStats :: "os_env \<Rightarrow> resolver \<Rightarrow> int \<Rightarrow> ProcFDInfo outcome" where
  "getFDStats w hostfs pid =
     and_then (wrap_err ''error opening file'' (os_ReadFile w (proc_path hostfs pid ''limits''))) (\<lambda>limits.
     and_then (fd_limits \<lparr>lim_Soft = None, lim_Hard = None\<rparr> (split_on newline limits)) (\<lambda>lims.
       (case os_ReadDir w (proc_path hostfs pid ''fd'') of
          Err err \<Rightarrow>
            if errors_Is err (PathError EACCES) then Ok \<lparr>fd_Open = None, fd_Limit = lims\<rparr>
            else Err (Wrapped ''error reading FD directory'' err)
        | Panic \<Rightarrow> Panic
        | Ok fds \<Rightarrow> Ok \<lparr>fd_Open = Some (of_nat (length fds)), fd_Limit = lims\<rparr>)))"

definition add_env :: "(string \<Rightarrow> bool) option \<Rightarrow> string \<Rightarrow> (string \<rightharpoonup> string) \<Rightarrow> (string \<rightharpoonup> string)" where
  "add_env filt kv env =
     (let parts = splitN2 (CHR ''='') kv in
      if length parts \<noteq> 2 then env
      else
        let key = trim_space (parts ! 0) in
        if key = [] then env
        else if (case filt of None \<Rightarrow> True | Some f \<Rightarrow> f key) then env(key \<mapsto> trim_space (parts ! 1))
        else env)"

definition getEnvData :: "os_env \<Rightarrow> resolver \<Rightarrow> int \<Rightarrow> (string \<Rightarrow> bool) option \<Rightarrow> (string \<rightharpoonup> string) outcome" where
  "getEnvData w hostfs pid filt =
     (case os_ReadFile w (proc_path hostfs pid ''environ'') of
        Err err \<Rightarrow> if errors_Is err (PathError EACCES) then Err err else Err (Wrapped ''error opening file'' err)
      | Panic \<Rightarrow> Panic
      | Ok environ \<Rightarrow> Ok (foldl (\<lambda>env kv. add_env filt kv env) Map.empty (split_on (CHR 0x00) environ)))"

definition read_link :: "os_env \<Rightarrow> string \<Rightarrow> string \<Rightarrow> string outcome" where
  "read_link w path msg =
     (case os_Readlink w path of
        Err err \<Rightarrow> if errors_Is err (PathError EACCES) then Err err else Err (Wrapped msg err)
      | Panic \<Rightarrow> Panic
      | Ok target \<Rightarrow> Ok target)"

definition getProcStringData :: "os_env \<Rightarrow> resolver \<Rightarrow> int \<Rightarrow> (string \<times> string) outcome" where
  "getProcStringData w hostfs pid =
     and_then (read_link w (proc_path hostfs pid ''exe'') ''error fetching exe'') (\<lambda>exe.
     and_then (read_link w (proc_path hostfs pid ''cwd'') ''error fetching cwd'') (\<lambda>cwd. Ok (exe, cwd)))"

definition add_status :: "string \<Rightarrow> (string \<rightharpoonup> string) \<Rightarrow> (string \<rightharpoonup> string)" where
  "add_status line status =
     (let fs = splitN2 (CHR '':'') line in
      if length fs = 2 then status(fs ! 0 \<mapsto> trim_space (fs ! 1)) else status)"

definition getProcStatus :: "os_env \<Rightarrow> resolver \<Rightarrow> int \<Rightarrow> (string \<rightharpoonup> string) outcome" where
  "getProcStatus w hostfs pid =
     and_then (wrap_err ''error opening file'' (os_ReadFile w (proc_path hostfs pid ''status''))) (\<lambda>status.
       Ok (foldl (\<lambda>m line. add_status line m) Map.empty (split_on newline status)))"

definition getUser :: "os_env \<Rightarrow> resolver \<Rightarrow> int \<Rightarrow> string outcome" where
  "getUser w hostfs pid =
     and_then (wrap_err ''error fetching user ID'' (getProcStatus w hostfs pid)) (\<lambda>status.
       case status ''Uid'' of
         None \<Rightarrow> Err (Message ''field Uid not found in proc status: %!w(<nil>)'')
       | Some uidValues \<Rightarrow>
           and_then (at_index (Fields uidValues) 0) (\<lambda>uid.
             case user_of w uid of Some username \<Rightarrow> Ok username | None \<Rightarrow> Ok uid))"

text \<open>\<open>FillPidMetrics\<close>; the second component is the boot time afterwards.\<close>

definition FillPidMetrics ::
  "(u64 option list \<Rightarrow> u64) \<Rightarrow> (int \<Rightarrow> string) \<Rightarrow> os_env \<Rightarrow> resolver \<Rightarrow> int \<Rightarrow> ProcState \<Rightarrow> (string \<Rightarrow> bool) option \<Rightarrow>
   u64 \<Rightarrow> ProcState outcome \<times> u64" where
  "FillPidMetrics SumOptUint format_time w hostfs pid state filt bootTime =
     (case wrap_err ''error getting memory data'' (getMemData w hostfs pid) of
        Err e \<Rightarrow> (Err e, bootTime)
      | Panic \<Rightarrow> (Panic, bootTime)
      | Ok mem \<Rightarrow>
          (case getCPUTime SumOptUint format_time w hostfs pid bootTime of (cpu, bootTime) \<Rightarrow>
             (and_then (wrap_err ''error getting CPU data'' cpu) (\<lambda>cpu.
              and_then (if ps_Args state = [] then wrap_err ''error getting CLI args'' (getArgs w hostfs pid)
                        else Ok (ps_Args state)) (\<lambda>args.
              and_then (wrap_err ''error getting FD metrics'' (getFDStats w hostfs pid)) (\<lambda>fd.
              let env = (case ps_Env state of
                           Some env \<Rightarrow> Some env
                         | None \<Rightarrow> (case getEnvData w hostfs pid filt of Ok env \<Rightarrow> Some env | _ \<Rightarrow> None)) in
              and_then (case getProcStringData w hostfs pid of
                          Err e \<Rightarrow> if errors_Is e (PathError EACCES) then Ok ([], [])
                                   else Err (Wrapped ''error getting metadata'' e)
                        | r \<Rightarrow> r) (\<lambda>(exe, cwd).
              and_then (wrap_err ''error creating username'' (getUser w hostfs pid)) (\<lambda>username.
                Ok (state\<lparr>ps_Memory := mem, ps_CPU := cpu, ps_Args := args, ps_FD := fd, ps_Env := env, ps_Exe := exe,
                      ps_Cwd := cwd, ps_Username := username\<rparr>)))))), bootTime)))"

definition dirIsPid :: "string \<Rightarrow> bool outcome" where
  "dirIsPid name = and_then (at_index name 0) (\<lambda>c. Ok (is_digit c))"

section \<open>Lines of stat\<close>

lemma hex_digit: "is_digit c \<Longrightarrow> is_hex_digit c \<and> hex_val c = digit_val c \<and> digit_val c < 10"
  by (auto simp: is_hex_digit_def hex_val_def is_digit_def digit_val_def)

lemma digits_value_digits:
  "list_all is_digit ds \<Longrightarrow> digits_value 10 ds = foldl (\<lambda>n c. 10 * n + digit_val c) 0 ds"
proof -
  assume "list_all is_digit ds"
  then have "foldl (\<lambda>n c. if c = CHR ''_'' then n else 10 * n + hex_val c) a ds = foldl (\<lambda>n c. 10 * n + digit_val c) a ds" for a
    by (induction ds arbitrary: a) (auto simp: hex_digit is_digit_def[of "CHR ''_''"] code_def)
  then show ?thesis by (simp add: digits_value_def)
qed

lemma fold_show_nat: "foldl (\<lambda>n c. 10 * n + digit_val c) 0 (show_nat n) = n"
proof (induction n rule: show_nat.induct)
  case (1 n)
  then show ?case by (cases "n < 10") (simp_all add: show_nat.simps[of n])
qed

lemma hd_show_nat_zero: "0 < n \<Longrightarrow> hd (show_nat n) \<noteq> CHR ''0''"
proof (induction n rule: show_nat.induct)
  case (1 n)
  show ?case
  proof (cases "n < 10")
    case True
    have "digit_val (hd (show_nat n)) = n" using True by (simp add: show_nat.simps[of n])
    then show ?thesis using 1(2) by (auto simp: digit_val_def code_def)
  next
    case False
    then have "hd (show_nat (n div 10)) \<noteq> CHR ''0''" using 1 by simp
    then show ?thesis using False by (simp add: show_nat.simps[of n])
  qed
qed

lemma hd_show_nat_sign: "hd (show_nat n) \<noteq> CHR ''-'' \<and> hd (show_nat n) \<noteq> CHR ''+''"
  using hd_show_nat[of n] digit_not_sign by blast

lemma takeWhile_digits:
  assumes "s = [] \<or> hd s = CHR '' ''" "\<And>c. is_digit c \<Longrightarrow> P c" "\<not> P (CHR '' '')"
  shows "takeWhile P (show_nat n @ s) = show_nat n" "dropWhile P (show_nat n @ s) = s"
proof -
  have "takeWhile P s = []" "dropWhile P s = s" using assms by (cases s; auto)+
  then show "takeWhile P (show_nat n @ s) = show_nat n" "dropWhile P (show_nat n @ s) = s"
    using assms show_nat_digits[of n] by (auto simp: list_all_iff takeWhile_append2 dropWhile_append2)
qed

lemma base_prefix_show:
  assumes "s = [] \<or> hd s = CHR '' ''"
  shows "base_prefix (show_nat n @ s) = (if n = 0 then (8, ''0'', s) else (10, [], show_nat n @ s))"
proof (cases "n = 0")
  case True
  have "show_nat 0 = ''0''" by (simp add: show_nat.simps digit_char_def char_of_def bit_0)
  moreover have "lower_char (CHR '' '') = CHR '' ''" by (simp add: lower_char_def code_def)
  ultimately show ?thesis using True assms by (auto simp: base_prefix_def)
next
  case False
  obtain c cs where c: "show_nat n = c # cs" by (meson neq_Nil_conv show_nat_nonempty)
  then have "c \<noteq> CHR ''0''" using hd_show_nat_zero[of n] False by simp
  then show ?thesis using False c by (simp add: base_prefix_def)
qed

lemma scan_int_v_itoa:
  assumes "- (2 ^ 63) \<le> i" "i < 2 ^ 63" "s = [] \<or> hd s = CHR '' ''" "list_all ascii_ws b"
  shows "scan_int_v (b @ itoa i @ s) = Ok (i, s)"
proof -
  define n where "n = nat \<bar>i\<bar>"
  define sg where "sg = (if i < 0 then ''-'' else [])"
  have it: "itoa i = sg @ show_nat n" by (simp add: itoa_def n_def sg_def)
  have ns: "\<not> ascii_ws (hd (itoa i))" "itoa i \<noteq> []"
    using hd_show_nat[of n] by (auto simp: it sg_def ascii_ws_def is_digit_def code_def)
  have d: "dropWhile ascii_ws (b @ itoa i @ s) = itoa i @ s"
    using assms(4) ns by (cases "itoa i") (auto simp: list_all_iff dropWhile_append2)
  have v: "digits_value 10 (show_nat n) = n" "digits_value 8 [] = 0"
    using show_nat_digits by (simp_all add: digits_value_digits fold_show_nat) (simp add: digits_value_def)
  have us: "CHR ''_'' \<notin> set (show_nat n)"
    using show_nat_digits[of n] by (auto simp: list_all_iff is_digit_def code_def)
  have tw: "takeWhile (\<lambda>c. digit_in 10 c \<or> c = CHR ''_'') (show_nat n @ s) = show_nat n"
    "dropWhile (\<lambda>c. digit_in 10 c \<or> c = CHR ''_'') (show_nat n @ s) = s"
    using assms(3) by (intro takeWhile_digits; simp add: digit_in_def hex_digit; simp add: is_hex_digit_def is_digit_def lower_char_def code_def)+
  have t0: "takeWhile (\<lambda>c. digit_in 8 c \<or> c = CHR ''_'') s = []" "dropWhile (\<lambda>c. digit_in 8 c \<or> c = CHR ''_'') s = s"
    using assms(3) by (cases s; auto simp: digit_in_def is_hex_digit_def is_digit_def lower_char_def code_def)+
  have r: "i < 0 \<Longrightarrow> n \<le> 2 ^ 63" "\<not> i < 0 \<Longrightarrow> n < 2 ^ 63" "i = (if i < 0 then - int n else int n)" "n = 0 \<longleftrightarrow> i = 0"
    using assms(1,2) by (auto simp: n_def)
  define t where "t = itoa i @ s"
  have hd: "t \<noteq> []" "hd t = CHR ''-'' \<longleftrightarrow> i < 0" "hd t \<noteq> CHR ''+''"
    using hd_show_nat_sign[of n] by (auto simp: it sg_def t_def)
  have u: "i < 0 \<Longrightarrow> tl t = show_nat n @ s" "\<not> i < 0 \<Longrightarrow> t = show_nat n @ s"
    by (simp_all add: it sg_def t_def)
  have d': "dropWhile ascii_ws (b @ t) = t" using d by (simp add: t_def)
  have bp: "base_prefix (if hd t = CHR ''-'' \<or> hd t = CHR ''+'' then tl t else t) =
      (if n = 0 then (8, ''0'', s) else (10, [], show_nat n @ s))"
    using u hd base_prefix_show[OF assms(3)] by simp
  show ?thesis
  proof (cases "n = 0")
    case True
    then show ?thesis
      unfolding scan_int_v_def t_def[symmetric] d' Let_def bp using hd(1) r t0 v by simp
  next
    case False
    then show ?thesis
      unfolding scan_int_v_def t_def[symmetric] d' Let_def bp using hd r us tw v by auto
  qed
qed

text \<open>The file \<open>stat\<close>: the number, the name in parentheses, then the fields that follow it.\<close>

definition show_stat :: "int \<Rightarrow> string \<Rightarrow> string list \<Rightarrow> string" where
  "show_stat pid comm rest = itoa pid @ '' ('' @ comm @ '') '' @ join (CHR '' '') rest"

definition stat_tail :: "char \<Rightarrow> int \<Rightarrow> int \<Rightarrow> string list \<Rightarrow> string list" where
  "stat_tail state ppid pgid others = [state] # itoa ppid # itoa pgid # others"

definition no_paren :: "string \<Rightarrow> bool" where
  "no_paren s \<longleftrightarrow> CHR '')'' \<notin> set s"

lemma itoa_plain: "plain (itoa i)"
proof -
  have "plain_char (CHR ''-'')" by (simp add: plain_char_def code_def)
  then show ?thesis using show_nat_plain by (auto simp: itoa_def plain_def)
qed

lemma itoa_chars: "c \<in> set (itoa i) \<Longrightarrow> is_digit c \<or> c = CHR ''-''"
  using show_nat_digits by (auto simp: itoa_def list_all_iff split: if_splits)

lemma itoa_no_paren: "CHR ''('' \<notin> set (itoa i)" "no_paren (itoa i)"
  using itoa_chars[of "CHR ''(''" i] itoa_chars[of "CHR '')''" i] by (auto simp: no_paren_def is_digit_def code_def)

lemma no_paren_join: "list_all no_paren xs \<Longrightarrow> no_paren (join (CHR '' '') xs)"
  using set_join[of "CHR '' ''" xs] by (auto simp: list_all_iff no_paren_def)

lemma show_stat_parens:
  assumes "list_all no_paren rest"
  shows "index_of (CHR ''('') (show_stat pid comm rest) = Some (length (itoa pid) + 1)"
    and "last_index_of (CHR '')'') (show_stat pid comm rest) = Some (length (itoa pid) + 2 + length comm)"
proof -
  have l: "show_stat pid comm rest = (itoa pid @ '' '') @ CHR ''('' # (comm @ '') '' @ join (CHR '' '') rest)"
    and r: "show_stat pid comm rest = (itoa pid @ '' ('' @ comm) @ CHR '')'' # ('' '' @ join (CHR '' '') rest)"
    by (simp_all add: show_stat_def)
  show "index_of (CHR ''('') (show_stat pid comm rest) = Some (length (itoa pid) + 1)"
    unfolding l using itoa_no_paren by (subst index_of_append) auto
  show "last_index_of (CHR '')'') (show_stat pid comm rest) = Some (length (itoa pid) + 2 + length comm)"
    unfolding r using no_paren_join[OF assms] by (subst last_index_of_append) (auto simp: no_paren_def)
qed

lemma show_stat_parts:
  assumes "l = length (itoa pid) + 1" "r = length (itoa pid) + 2 + length comm"
  shows "take (r - (l + 1)) (drop (l + 1) (show_stat pid comm rest)) = comm"
    and "drop (r + 2) (show_stat pid comm rest) = join (CHR '' '') rest"
proof -
  have "show_stat pid comm rest = (itoa pid @ '' ('') @ comm @ ('') '' @ join (CHR '' '') rest)"
    and "l + 1 = length (itoa pid @ '' ('')" "r - (l + 1) = length comm"
    using assms by (simp_all add: show_stat_def)
  then show "take (r - (l + 1)) (drop (l + 1) (show_stat pid comm rest)) = comm"
    by (simp only: append_eq_conv_conj[THEN iffD1, THEN conjunct2] drop_append) simp
  have "show_stat pid comm rest = (itoa pid @ '' ('' @ comm @ '') '') @ join (CHR '' '') rest"
    and "r + 2 = length (itoa pid @ '' ('' @ comm @ '') '')"
    using assms by (simp_all add: show_stat_def)
  then show "drop (r + 2) (show_stat pid comm rest) = join (CHR '' '') rest" by (simp only: drop_append) simp
qed

lemma GetInfoForPid_show:
  assumes "file_of w (proc_path hostfs pid ''stat'') = Inr (show_stat k comm (stat_tail c ppid pgid others))"
    and "plain_char c" "c \<noteq> CHR '')''" "list_all plain others" "list_all no_paren others" "34 \<le> length others"
    and "- (2 ^ 63) \<le> ppid" "ppid < 2 ^ 63" "- (2 ^ 63) \<le> pgid" "pgid < 2 ^ 63"
  shows "GetInfoForPid w hostfs pid =
    Ok (zeroProcState\<lparr>ps_Name := comm, ps_State := getProcState c, ps_Ppid := Some ppid,
      ps_Pgid := Some pgid, ps_Pid := Some pid\<rparr>)"
proof -
  let ?rest = "stat_tail c ppid pgid others"
  have p: "list_all no_paren ?rest" "list_all plain ?rest"
    using assms itoa_no_paren itoa_plain by (simp_all add: stat_tail_def no_paren_def plain_def)
  have f: "Fields (join (CHR '' '') ?rest) = ?rest" by (rule fields_join[OF p(2)]) simp
  have s: "os_ReadFile w (proc_path hostfs pid ''stat'') = Ok (show_stat k comm ?rest)"
    using assms(1) by (simp add: os_ReadFile_def)
  define l r where "l = length (itoa k) + 1" and "r = length (itoa k) + 2 + length comm"
  note at = show_stat_parens[OF p(1), of k comm, folded l_def r_def]
  note parts = show_stat_parts[OF l_def r_def, of ?rest]
  have b: "\<not> (r \<le> l \<or> length (show_stat k comm ?rest) \<le> r + 2)"
    by (simp add: l_def r_def show_stat_def stat_tail_def)
  have i1: "scan_int_v (itoa ppid @ CHR '' '' # itoa pgid) = Ok (ppid, CHR '' '' # itoa pgid)"
    using scan_int_v_itoa[of ppid "CHR '' '' # itoa pgid" "[]"] assms by simp
  have i2: "scan_int_v (CHR '' '' # itoa pgid) = Ok (pgid, [])"
    using scan_int_v_itoa[of pgid "[]" "'' ''"] assms by simp
  have n: "?rest ! 0 = [c]" "?rest ! 1 = itoa ppid" "?rest ! 2 = itoa pgid" "\<not> length ?rest \<le> 36"
    using assms by (simp_all add: stat_tail_def)
  show ?thesis
    unfolding GetInfoForPid_def s outcome.case at prod.case option.case if_not_P[OF b] Let_def parts f n if_not_P[OF n(4)]
    by (simp add: i1 i2)
qed

text \<open>
  C14. \<open>GetInfoForPid\<close> reads from \<open>stat\<close> the name of the command exactly, whatever
  it is (blanks and parentheses included), and the state, parent and group that follow it.
\<close>

theorem GetInfoForPid_stat:
  assumes "file_of w (proc_path hostfs pid ''stat'') = Inr (show_stat k comm (stat_tail c ppid pgid others))"
    and "plain_char c" "c \<noteq> CHR '')''" "list_all plain others" "list_all no_paren others" "34 \<le> length others"
    and "- (2 ^ 63) \<le> ppid" "ppid < 2 ^ 63" "- (2 ^ 63) \<le> pgid" "pgid < 2 ^ 63"
  shows "GetInfoForPid w hostfs pid =
    Ok (zeroProcState\<lparr>ps_Name := comm, ps_State := getProcState c, ps_Ppid := Some ppid,
      ps_Pgid := Some pgid, ps_Pid := Some pid\<rparr>)"
  using assms by (rule GetInfoForPid_show)

text \<open>The words of the line: the blanks of the name split it.\<close>

definition comm_words :: "string \<Rightarrow> string list" where
  "comm_words comm = split_on (CHR '' '') (''('' @ comm @ '')'')"

lemma join_append: "xs \<noteq> [] \<Longrightarrow> ys \<noteq> [] \<Longrightarrow> join sep (xs @ ys) = join sep xs @ sep # join sep ys"
  by (induction sep xs rule: join.induct) (auto simp: join_Cons)

lemma show_stat_words:
  "rest \<noteq> [] \<Longrightarrow> show_stat pid comm rest = join (CHR '' '') (itoa pid # comm_words comm @ rest)"
  by (simp add: show_stat_def comm_words_def join_Cons join_append join_split_on del: split_on.simps)

lemma length_comm_words: "length (comm_words comm) = Suc (count_list comm (CHR '' ''))"
  by (simp add: comm_words_def length_split_on del: split_on.simps)

lemma stat_field:
  assumes "list_all plain (comm_words comm)" "list_all plain rest" "rest \<noteq> []"
    and "count_list comm (CHR '' '') + 2 \<le> i" "i - (count_list comm (CHR '' '') + 2) < length rest"
  shows "at_index (Fields (show_stat pid comm rest)) i = Ok (rest ! (i - (count_list comm (CHR '' '') + 2)))"
proof -
  have "Fields (show_stat pid comm rest) = itoa pid # comm_words comm @ rest"
    unfolding show_stat_words[OF assms(3)] using assms itoa_plain by (intro fields_join) auto
  then show ?thesis
    using assms(4,5) length_comm_words[of comm] by (auto simp: at_index_def nth_append nth_Cons')
qed

text \<open>
  \<open>getCPUTime\<close> counts fields from the start of the line, so every blank in the name
  of the command shifts the numbers it takes for the user, system and start times by one:
  without blanks they are the fields 14, 15 and 22 of the line.
\<close>

theorem getCPUTime_words:
  fixes comm :: string
  defines "b \<equiv> count_list comm (CHR '' '')"
  assumes "file_of w (proc_path hostfs pid ''stat'') = Inr (show_stat pid comm rest)"
    and "list_all plain (comm_words comm)" "list_all plain rest" "b \<le> 11" "20 \<le> length rest"
    and "parse_uint (rest ! (11 - b)) = Ok user" "parse_uint (rest ! (12 - b)) = Ok sys"
    and "parse_uint (rest ! (19 - b)) = Ok start"
    and "getLinuxBootTime w hostfs bootTime = (Ok btime, bootTime')"
  shows "getCPUTime SumOptUint format_time w hostfs pid bootTime =
    (Ok \<lparr>pc_StartTime = unixTimeMsToTime format_time ((start div 100 + btime) * 1000),
         pc_Total = \<lparr>ct_Value = None, ct_Ticks = Some (SumOptUint [Some (user * 10), Some (sys * 10)]), ct_Pct = None,
           ct_Norm = None\<rparr>,
         pc_User = Some (user * 10), pc_System = Some (sys * 10)\<rparr>, bootTime')"
proof -
  let ?s = "show_stat pid comm rest"
  have s: "os_ReadFile w (proc_path hostfs pid ''stat'') = Ok ?s" using assms(2) by (simp add: os_ReadFile_def)
  have f: "at_index (Fields ?s) i = Ok (rest ! (i - (b + 2)))" if "13 \<le> i" "i \<le> 21" for i
    unfolding b_def using assms that by (intro stat_field) auto
  have "at_index (Fields ?s) 13 = Ok (rest ! (11 - b))" "at_index (Fields ?s) 14 = Ok (rest ! (12 - b))"
    "at_index (Fields ?s) 21 = Ok (rest ! (19 - b))"
    using f[of 13] f[of 14] f[of 21] assms(5) by simp_all
  then show ?thesis
    using assms(7-) by (simp add: getCPUTime_def s Let_def ticks_per_second_def)
qed

theorem GetInfoForPid_stat_witness:
  "GetInfoForPid (files_env [(proc_path host_root 42 ''stat'', show_stat 42 ''a) (b'' (stat_tail (CHR ''S'') 1 (- 7) (replicate 34 ''0'')))])
     host_root 42 =
   Ok (zeroProcState\<lparr>ps_Name := ''a) (b'', ps_State := ''sleeping'', ps_Ppid := Some 1, ps_Pgid := Some (- 7), ps_Pid := Some 42\<rparr>)"
proof -
  have "getProcState (CHR ''S'') = ''sleeping''" by (simp add: getProcState_def PidStates_def)
  moreover have "plain ''0''" "no_paren ''0''" "plain_char (CHR ''S'')"
    by (simp_all add: plain_def plain_char_def no_paren_def code_def)
  ultimately show ?thesis
    by (subst GetInfoForPid_stat[where comm = "''a) (b''" and c = "CHR ''S''" and ppid = 1 and pgid = "- 7" and others = "replicate 34 ''0''"])
      (simp_all add: files_env_def list_all_iff)
qed

theorem getCPUTime_words_witness:
  "getCPUTime (\<lambda>_. 0) (\<lambda>_. ''t'')
     (files_env [(proc_path host_root 42 ''stat'', show_stat 42 ''a b'' (map show_nat [0..<20]))]) host_root 42 5 =
   (Ok \<lparr>pc_StartTime = ''t'', pc_Total = \<lparr>ct_Value = None, ct_Ticks = Some 0, ct_Pct = None, ct_Norm = None\<rparr>,
        pc_User = Some 100, pc_System = Some 110\<rparr>, 5)"
proof -
  have "comm_words ''a b'' = [''(a'', ''b)'']" by (simp add: comm_words_def)
  then have c: "list_all plain (comm_words ''a b'')" by (simp add: plain_def plain_char_def code_def)
  have r: "list_all plain (map show_nat [0..<20])" by (simp add: list_all_iff show_nat_plain)
  have n: "map show_nat [0..<20] ! i = show_nat i" if "i < 20" for i using that by simp
  have "getLinuxBootTime w host_root 5 = (Ok 5, 5)" for w by (simp add: getLinuxBootTime_def)
  then show ?thesis
    by (subst getCPUTime_words[where comm = "''a b''" and rest = "map show_nat [0..<20]" and btime = 5 and bootTime' = 5
          and user = 10 and sys = 11 and start = 18])
      (simp_all add: files_env_def c r n unixTimeMsToTime_def)
qed

text \<open>
  The boot time is the number on the first line of \<open>/proc/stat\<close> that starts with
  \<open>btime\<close>; once read it is returned for ever, whatever the host file system is.
\<close>

theorem getLinuxBootTime_once:
  assumes "file_of w (Join hostfs [''proc'', ''stat'']) = Inr (join newline (before @ (''btime '' @ show_nat n) # after))"
    and "list_all (\<lambda>l. newline \<notin> set l \<and> \<not> prefix ''btime'' l) before" "list_all (\<lambda>l. newline \<notin> set l) after"
    and "0 < n" "n < 2 ^ 64"
  shows "getLinuxBootTime w hostfs 0 = (Ok (of_nat n), of_nat n) \<and>
    getLinuxBootTime w' hostfs' (snd (getLinuxBootTime w hostfs 0)) = (Ok (of_nat n), of_nat n)"
proof -
  let ?lines = "before @ (''btime '' @ show_nat n) # after"
  have "newline \<notin> set (''btime '' @ show_nat n)"
    using show_nat_digits[of n] by (auto simp: list_all_iff is_digit_def newline_def code_def)
  then have "split_on newline (join newline ?lines) = ?lines"
    using assms(2,3) by (intro split_on_join) (auto simp: list_all_iff)
  moreover have "find_btime ?lines = Some (Ok (of_nat n))"
    using assms(2,5) by (induction before) auto
  moreover have "(of_nat n :: u64) \<noteq> 0" using assms(4,5) unat_of_nat_u64[of n] by auto
  ultimately show ?thesis using assms(1) by (simp add: getLinuxBootTime_def os_ReadFile_def)
qed

theorem getLinuxBootTime_once_witness:
  "getLinuxBootTime (files_env [(Join host_root [''proc'', ''stat''], join newline [''cpu  1 2'', ''btime '' @ show_nat 1600, ''x''])])
     host_root 0 = (Ok 1600, 1600)"
  by (subst getLinuxBootTime_once[where before = "[''cpu  1 2'']" and after = "[''x'']" and n = 1600, THEN conjunct1])
    (simp_all add: files_env_def newline_def)

section \<open>Arguments, and what the metrics leave alone\<close>

lemma getArgs_terminated:
  assumes "file_of w (proc_path hostfs pid ''cmdline'') = Inr (concat (map (\<lambda>a. a @ [CHR 0x00]) args) @ dropped)"
    and "list_all (\<lambda>a. CHR 0x00 \<notin> set a) (dropped # args)"
  shows "getArgs w hostfs pid = Ok args"
proof -
  have "split_on (CHR 0x00) (concat (map (\<lambda>a. a @ [CHR 0x00]) args) @ dropped) = args @ [dropped]"
    using assms(2) by (induction args) (simp_all add: split_on_token split_on_append)
  then show ?thesis using assms(1) by (simp add: getArgs_def os_ReadFile_def)
qed

lemma FillPidMetrics_keeps:
  assumes "FillPidMetrics SumOptUint format_time w hostfs pid state filt bt = (Ok s, bt')"
  shows "ps_Name s = ps_Name state" "ps_State s = ps_State state" "ps_Pid s = ps_Pid state" "ps_Ppid s = ps_Ppid state"
    "ps_Pgid s = ps_Pgid state" "ps_Cmdline s = ps_Cmdline state" "ps_Cgroup s = ps_Cgroup state"
    "ps_Args state \<noteq> [] \<Longrightarrow> ps_Args s = ps_Args state"
    "ps_Env state \<noteq> None \<Longrightarrow> ps_Env s = ps_Env state"
  using assms
  by (auto simp: FillPidMetrics_def Let_def go_outcome split: outcome.splits prod.splits if_splits option.splits)

lemma getCPUTime_Pct:
  "getCPUTime SumOptUint format_time w hostfs pid bt = (Ok cpu, bt') \<Longrightarrow>
     ct_Pct (pc_Total cpu) = None \<and> ct_Norm (pc_Total cpu) = None"
  by (auto simp: getCPUTime_def Let_def go_outcome split: outcome.splits prod.splits)

lemma FillPidMetrics_Pct:
  assumes "FillPidMetrics SumOptUint format_time w hostfs pid state filt bt = (Ok s, bt')"
  shows "ct_Pct (pc_Total (ps_CPU s)) = None \<and> ct_Norm (pc_Total (ps_CPU s)) = None"
proof -
  obtain cpu where c: "getCPUTime SumOptUint format_time w hostfs pid bt = (Ok cpu, bt')" "ps_CPU s = cpu"
    using assms
    by (auto simp: FillPidMetrics_def Let_def go_outcome split: outcome.splits prod.splits if_splits option.splits)
  show ?thesis unfolding c(2) by (rule getCPUTime_Pct[OF c(1)])
qed

end
