(* ===== verification/Process.thy ===== *)
theory Process
  imports Process_Linux "HOL-Library.Signed_Division" "HOL-Library.Sublist" "HOL-Library.Multiset"
begin

text \<open>
  \<open>metric/system/process\<close>: the collector \<open>Stats\<close> of \<open>process_common.go\<close>, its operations
  in \<open>process.go\<close>, the helpers and the configuration. It keeps the processes of its last
  listing, from which the next one takes command lines, environments and the counters
  that percentages are differences of. Proved: what a listing contains, that its map and
  list agree, which processes the top-N filter keeps, the bounds of the CPU percentages
  and what is carried from one listing to the next.
\<close>

section \<open>Data\<close>

definition ProcNotExist :: go_error where
  "ProcNotExist = Sentinel ''process does not exist''"

type_synonym ProcsMap = "int \<rightharpoonup> ProcState"

record ProcsTrack =
  pids :: ProcsMap

record IncludeTopConfig =
  it_Enabled :: bool
  it_ByCPU :: int
  it_ByMemory :: int

text \<open>A compiled pattern is the test \<open>MatchString\<close>; pointers and interfaces that may be nil are options.\<close>

record Stats =
  st_Hostfs :: "resolver option"
  st_Procs :: "string list"
  st_ProcsMap :: "ProcsTrack option"
  st_CPUTicks :: bool
  st_EnvWhitelist :: "string list"
  st_CacheCmdLine :: bool
  st_IncludeTop :: IncludeTopConfig
  st_CgroupOpts :: ReaderOptions
  st_EnableCgroups :: bool
  st_EnableNetwork :: bool
  st_NetworkMetrics :: "string list"
  st_skipExtended :: bool
  st_procRegexps :: "(string \<Rightarrow> bool) list"
  st_envRegexps :: "(string \<Rightarrow> bool) list"
  st_cgroups :: "Reader option"
  st_host :: bool

text \<open>
  What the package takes from elsewhere: the files and the cgroup readers; the clock when
  a process is sampled; \<open>runtime.NumCPU\<close>; go-sysinfo's host, its memory and the network
  counters of a process; \<open>match.Compile\<close>; \<open>opt.SumOptUint\<close> and the formatting of times;
  psutil's test for a process; \<open>os.Getpid\<close>; \<open>sort.Slice\<close>; the order of a range loop.
\<close>

record proc_env =
  pe_cg :: cg_env
  pe_now :: "int \<Rightarrow> int"
  pe_NumCPU :: int
  pe_Host :: bool
  pe_Memory :: "u64 option"
  pe_NetworkCounters :: "int \<Rightarrow> NetworkCountersInfo option"
  pe_Compile :: "string \<Rightarrow> (string \<Rightarrow> bool) outcome"
  pe_SumOptUint :: "u64 option list \<Rightarrow> u64"
  pe_format_time :: "int \<Rightarrow> string"
  pe_PidExists :: "int \<Rightarrow> bool outcome"
  pe_Getpid :: int
  pe_Slice :: "(ProcState \<Rightarrow> ProcState \<Rightarrow> bool) \<Rightarrow> ProcState list \<Rightarrow> ProcState list"
  pe_order :: "counter_map \<Rightarrow> string list"

abbreviation pe_os :: "proc_env \<Rightarrow> os_env" where
  "pe_os e \<equiv> ce_os (pe_cg e)"

section \<open>The table of processes\<close>

definition NewProcsTrack :: ProcsTrack where
  "NewProcsTrack = \<lparr>pids = Map.empty\<rparr>"

definition GetPid :: "ProcsTrack option \<Rightarrow> int \<Rightarrow> ProcState option outcome" where
  "GetPid pm pid = (case pm of None \<Rightarrow> Panic | Some t \<Rightarrow> Ok (pids t pid))"

definition SetPid :: "ProcsTrack option \<Rightarrow> int \<Rightarrow> ProcState \<Rightarrow> ProcsTrack option outcome" where
  "SetPid pm pid ps = (case pm of None \<Rightarrow> Panic | Some t \<Rightarrow> Ok (Some (t\<lparr>pids := (pids t)(pid \<mapsto> ps)\<rparr>)))"

definition SetMap :: "ProcsTrack option \<Rightarrow> ProcsMap \<Rightarrow> ProcsTrack option outcome" where
  "SetMap pm m = (case pm of None \<Rightarrow> Panic | Some t \<Rightarrow> Ok (Some (t\<lparr>pids := m\<rparr>)))"

section \<open>Init\<close>

text \<open>The patterns compiled so far are kept when one does not compile.\<close>

fun compile_patterns ::
  "(string \<Rightarrow> (string \<Rightarrow> bool) outcome) \<Rightarrow> string \<Rightarrow> (string \<Rightarrow> bool) list \<Rightarrow> string list \<Rightarrow>
     (string \<Rightarrow> bool) list \<times> unit outcome" where
  "compile_patterns Compile msg regs [] = (regs, Ok ())"
| "compile_patterns Compile msg regs (pattern # rest) =
     (case Compile pattern of
        Ok reg \<Rightarrow> compile_patterns Compile msg (regs @ [reg]) rest
      | Err err \<Rightarrow> (regs, Err (Wrapped msg err))
      | Panic \<Rightarrow> (regs, Panic))"

definition init_cgroups :: "os_env \<Rightarrow> Stats \<Rightarrow> Stats \<times> unit outcome" where
  "init_cgroups w st =
     (if \<not> st_EnableCgroups st then (st, Ok ())
      else
        case NewReaderOptions w (st_CgroupOpts st) of
          Ok cgReader \<Rightarrow> (st\<lparr>st_cgroups := Some cgReader\<rparr>, Ok ())
        | Err err \<Rightarrow>
            if errors_Is err ErrCgroupsMissing then (st\<lparr>st_EnableCgroups := False, st_cgroups := None\<rparr>, Ok ())
            else (st, Err (Wrapped ''error initializing cgroup reader'' err))
        | Panic \<Rightarrow> (st, Panic))"

definition Init :: "proc_env \<Rightarrow> Stats \<Rightarrow> Stats \<times> unit outcome" where
  "Init e st =
     (let st = st\<lparr>st_host := pe_Host e,
            st_Hostfs := (case st_Hostfs st of None \<Rightarrow> Some (testing_resolver (NewTestResolver ''/'')) | h \<Rightarrow> h),
            st_ProcsMap := Some NewProcsTrack\<rparr> in
      if st_Procs st = [] then (st, Ok ())
      else
        case compile_patterns (pe_Compile e) ''failed to compile regexp'' [] (st_Procs st) of
          (regs, Ok ()) \<Rightarrow>
            let st = st\<lparr>st_procRegexps := regs\<rparr> in
            (case compile_patterns (pe_Compile e) ''failed to compile env whitelist regexp'' [] (st_EnvWhitelist st) of
               (envs, Ok ()) \<Rightarrow> init_cgroups (pe_os e) (st\<lparr>st_envRegexps := envs\<rparr>)
             | (envs, r) \<Rightarrow> (st\<lparr>st_envRegexps := envs\<rparr>, r))
        | (regs, r) \<Rightarrow> (st\<lparr>st_procRegexps := regs\<rparr>, r))"

section \<open>Percentages\<close>

definition GetProcMemPercentage :: "ProcState \<Rightarrow> u64 \<Rightarrow> f64 option" where
  "GetProcMemPercentage proc totalPhyMem =
     (if totalPhyMem = 0 then None
      else
        let perc = f64_div (f64_of_u64 (valueOr 0 (mb_Bytes (pm_Rss (ps_Memory proc))))) (f64_of_u64 totalPhyMem) in
        Some (Round perc))"

text \<open>\<open>Time.Sub\<close>, in nanoseconds, saturates.\<close>

definition time_Sub :: "int \<Rightarrow> int \<Rightarrow> int" where
  "time_Sub t u = max (- (2 ^ 63)) (min (2 ^ 63 - 1) (t - u))"

definition GetProcCPUPercentage :: "os_env \<Rightarrow> int \<Rightarrow> ProcState \<Rightarrow> ProcState \<Rightarrow> ProcState" where
  "GetProcCPUPercentage w runtimeNumCPU s0 s1 =
     (let c0 = pc_Total (ps_CPU s0); c1 = pc_Total (ps_CPU s1) in
      if ct_Ticks c0 = None \<or> ct_Ticks c1 = None then s1
      else
        let timeDelta = time_Sub (ps_SampleTime s1) (ps_SampleTime s0);
            timeDeltaDur = timeDelta sdiv 1000000;
            totalCPUDeltaMillis = int64_of (valueOr 0 (ct_Ticks c1) - valueOr 0 (ct_Ticks c0));
            pct = f64_div (f64_of_int totalCPUDeltaMillis) (f64_of_int timeDeltaDur) in
        if pct = F64NaN then s1
        else
          let normalizedPct = f64_div pct (f64_of_int (NumCPU w runtimeNumCPU)) in
          s1\<lparr>ps_CPU := (ps_CPU s1)\<lparr>pc_Total := c1\<lparr>ct_Norm := Some (Round normalizedPct), ct_Pct := Some (Round pct)\<rparr>\<rparr>\<rparr>)"

text \<open>\<open>FillPercentages\<close> called through the interface \<open>CGStats\<close>.\<close>

definition FillPercentages :: "os_env \<Rightarrow> int \<Rightarrow> CGStats \<Rightarrow> CGStats \<Rightarrow> int \<Rightarrow> int \<Rightarrow> CGStats outcome" where
  "FillPercentages w runtimeNumCPU stat prev curTime prevTime =
     (case stat of
        NilStats \<Rightarrow> Panic
      | OfV1 s \<Rightarrow> and_then (FillPercentagesV1 w runtimeNumCPU s prev (time_Sub curTime prevTime)) (\<lambda>s. Ok (OfV1 s))
      | OfV2 s \<Rightarrow> and_then (FillPercentagesV2 w runtimeNumCPU s prev (time_Sub curTime prevTime)) (\<lambda>s. Ok (OfV2 s)))"

section \<open>One process\<close>

definition matchProcess :: "Stats \<Rightarrow> string \<Rightarrow> bool" where
  "matchProcess st name = list_ex (\<lambda>reg. reg name) (st_procRegexps st)"

definition isWhitelistedEnvVar :: "Stats \<Rightarrow> string \<Rightarrow> bool" where
  "isWhitelistedEnvVar st varName =
     (if length (st_envRegexps st) = 0 then False else list_ex (\<lambda>p. p varName) (st_envRegexps st))"

definition cacheCmdLine :: "Stats \<Rightarrow> ProcState \<Rightarrow> ProcState outcome" where
  "cacheCmdLine st p =
     and_then (GetPid (st_ProcsMap st) (valueOr 0 (ps_Pid p))) (\<lambda>previousProc.
       case previousProc of
         None \<Rightarrow> Ok p
       | Some previousProc \<Rightarrow>
           let p = (if st_CacheCmdLine st then p\<lparr>ps_Args := ps_Args previousProc, ps_Cmdline := ps_Cmdline previousProc\<rparr>
                    else p) in
           Ok (p\<lparr>ps_Env := ps_Env previousProc\<rparr>))"

text \<open>The second half of \<open>pidFill\<close>: the command line, then cgroups, network and percentages.\<close>

definition cgroup_data :: "proc_env \<Rightarrow> Stats \<Rightarrow> ProcState option \<Rightarrow> ProcState \<Rightarrow> ProcState outcome" where
  "cgroup_data e st previous status =
     (if \<not> st_EnableCgroups st then Ok status
      else
        case st_cgroups st of
          None \<Rightarrow> Panic
        | Some cgroups \<Rightarrow>
            and_then (wrap_err ''cgroups.GetStatsForPid'' (GetStatsForPid (pe_cg e) cgroups (valueOr 0 (ps_Pid status))))
              (\<lambda>cgStats.
                case previous of
                  None \<Rightarrow> Ok (status\<lparr>ps_Cgroup := cgStats\<rparr>)
                | Some prev \<Rightarrow>
                    and_then (FillPercentages (pe_os e) (pe_NumCPU e) cgStats (ps_Cgroup prev) (ps_SampleTime status)
                        (ps_SampleTime prev))
                      (\<lambda>cgStats. Ok (status\<lparr>ps_Cgroup := cgStats\<rparr>))))"

definition shown_cmdline :: "ProcState \<Rightarrow> string" where
  "shown_cmdline p = (if ps_Args p \<noteq> [] \<and> ps_Cmdline p = [] then join (CHR '' '') (ps_Args p) else ps_Cmdline p)"

definition network_data :: "proc_env \<Rightarrow> Stats \<Rightarrow> int \<Rightarrow> ProcState \<Rightarrow> ProcState" where
  "network_data e st pid status =
     (if st_EnableNetwork st then status\<lparr>ps_Network := pe_NetworkCounters e pid\<rparr> else status)"

definition cpu_value :: "ProcState \<Rightarrow> ProcState" where
  "cpu_value status =
     (case ct_Ticks (pc_Total (ps_CPU status)) of
        None \<Rightarrow> status
      | Some t \<Rightarrow> status\<lparr>ps_CPU := (ps_CPU status)\<lparr>pc_Total := (pc_Total (ps_CPU status))\<lparr>ct_Value := Some (Round (f64_of_u64 t))\<rparr>\<rparr>\<rparr>)"

definition post_fill :: "proc_env \<Rightarrow> Stats \<Rightarrow> int \<Rightarrow> ProcState \<Rightarrow> ProcState outcome" where
  "post_fill e st pid status =
     (let status = status\<lparr>ps_Cmdline := shown_cmdline status\<rparr> in
      and_then (GetPid (st_ProcsMap st) (valueOr 0 (ps_Pid status))) (\<lambda>previous.
      let status = status\<lparr>ps_SampleTime := pe_now e pid\<rparr> in
      and_then (cgroup_data e st previous status) (\<lambda>status.
      let status = cpu_value (network_data e st pid status) in
      Ok (case previous of
            None \<Rightarrow> status
          | Some prev \<Rightarrow> GetProcCPUPercentage (pe_os e) (pe_NumCPU e) prev status))))"

text \<open>
  \<open>pidFill\<close> over the two entry points an operating system provides: the boolean of the
  result is false when the filter rejects the process.
\<close>

definition fill_pid ::
  "(int \<Rightarrow> ProcState outcome) \<Rightarrow>
   (int \<Rightarrow> ProcState \<Rightarrow> (string \<Rightarrow> bool) option \<Rightarrow> u64 \<Rightarrow> ProcState outcome \<times> u64) \<Rightarrow>
   proc_env \<Rightarrow> Stats \<Rightarrow> int \<Rightarrow> bool \<Rightarrow> u64 \<Rightarrow> (ProcState \<times> bool) outcome \<times> u64" where
  "fill_pid info metrics e st pid filt bootTime =
     (case wrap_err ''GetInfoForPid'' (info pid) of
        Err err \<Rightarrow> (Err err, bootTime)
      | Panic \<Rightarrow> (Panic, bootTime)
      | Ok status \<Rightarrow>
          if st_skipExtended st then (Ok (status, True), bootTime)
          else
            (case cacheCmdLine st status of
               Err err \<Rightarrow> (Err err, bootTime)
             | Panic \<Rightarrow> (Panic, bootTime)
             | Ok status \<Rightarrow>
                 if filt \<and> \<not> matchProcess st (ps_Name status) then (Ok (status, False), bootTime)
                 else
                   (case metrics pid status (Some (isWhitelistedEnvVar st)) bootTime of
                      (filled, bootTime) \<Rightarrow>
                        (and_then (wrap_err ''FillPidMetrics'' filled) (\<lambda>status.
                           and_then (post_fill e st pid status) (\<lambda>status. Ok (status, True))), bootTime))))"

definition pidFill :: "proc_env \<Rightarrow> Stats \<Rightarrow> int \<Rightarrow> bool \<Rightarrow> u64 \<Rightarrow> (ProcState \<times> bool) outcome \<times> u64" where
  "pidFill e st pid filt bootTime =
     (case st_Hostfs st of
        None \<Rightarrow> (Panic, bootTime)
      | Some hostfs \<Rightarrow>
          fill_pid (GetInfoForPid (pe_os e) hostfs)
            (FillPidMetrics (pe_SumOptUint e) (pe_format_time e) (pe_os e) hostfs) e st pid filt bootTime)"

section \<open>Listing the processes\<close>

text \<open>What \<open>pidIter\<close> does with the result of \<open>pidFill\<close>, on every operating system.\<close>

definition keep_filled ::
  "(ProcState \<times> bool) outcome \<times> u64 \<Rightarrow> int \<Rightarrow> ProcsMap \<Rightarrow> ProcState list \<Rightarrow> (ProcsMap \<times> ProcState list) outcome \<times> u64" where
  "keep_filled filled pid procMap proclist =
     (case filled of
        (Err err, bootTime) \<Rightarrow> (Ok (procMap, proclist), bootTime)
      | (Panic, bootTime) \<Rightarrow> (Panic, bootTime)
      | (Ok (status, saved), bootTime) \<Rightarrow>
          if \<not> saved then (Ok (procMap, proclist), bootTime)
          else (Ok (procMap(pid \<mapsto> status), proclist @ [status]), bootTime))"

definition pidIter ::
  "proc_env \<Rightarrow> Stats \<Rightarrow> int \<Rightarrow> ProcsMap \<Rightarrow> ProcState list \<Rightarrow> u64 \<Rightarrow> (ProcsMap \<times> ProcState list) outcome \<times> u64" where
  "pidIter e st pid procMap proclist bootTime = keep_filled (pidFill e st pid True bootTime) pid procMap proclist"

fun fetch_names ::
  "proc_env \<Rightarrow> Stats \<Rightarrow> ProcsMap \<Rightarrow> ProcState list \<Rightarrow> u64 \<Rightarrow> string list \<Rightarrow> (ProcsMap \<times> ProcState list) outcome \<times> u64" where
  "fetch_names e st procMap plist bootTime [] = (Ok (procMap, plist), bootTime)"
| "fetch_names e st procMap plist bootTime (name # names) =
     (case dirIsPid name of
        Ok True \<Rightarrow>
          (case atoi name of
             Ok pid \<Rightarrow>
               (case pidIter e st pid procMap plist bootTime of
                  (Ok (procMap, plist), bootTime) \<Rightarrow> fetch_names e st procMap plist bootTime names
                | r \<Rightarrow> r)
           | _ \<Rightarrow> fetch_names e st procMap plist bootTime names)
      | Ok False \<Rightarrow> fetch_names e st procMap plist bootTime names
      | _ \<Rightarrow> (Panic, bootTime))"

text \<open>A missing or forbidden directory fails when it is opened, any other fault when its names are read.\<close>

definition FetchPids :: "proc_env \<Rightarrow> Stats \<Rightarrow> u64 \<Rightarrow> (ProcsMap \<times> ProcState list) outcome \<times> u64" where
  "FetchPids e st bootTime =
     (case st_Hostfs st of
        None \<Rightarrow> (Panic, bootTime)
      | Some hostfs \<Rightarrow>
          (case os_ReadDir (pe_os e) (ResolveHostFS hostfs ''proc'') of
             Err err \<Rightarrow>
               (Err (Wrapped (if err = PathError EIO then ''error reading directory names'' else ''error reading from procfs'') err),
                bootTime)
           | Panic \<Rightarrow> (Panic, bootTime)
           | Ok entries \<Rightarrow> fetch_names e st Map.empty [] bootTime (map ent_name entries)))"

section \<open>The top processes\<close>

definition isProcessInSlice :: "ProcState list \<Rightarrow> ProcState \<Rightarrow> bool" where
  "isProcessInSlice processes proc = list_ex (\<lambda>p. ps_Pid p = ps_Pid proc) processes"

definition cpu_pct :: "ProcState \<Rightarrow> f64" where
  "cpu_pct p = valueOr (F64Fin False 0) (ct_Pct (pc_Total (ps_CPU p)))"

definition rss_bytes :: "ProcState \<Rightarrow> u64" where
  "rss_bytes p = valueOr 0 (mb_Bytes (pm_Rss (ps_Memory p)))"

fun add_missing :: "ProcState list \<Rightarrow> ProcState list \<Rightarrow> ProcState list" where
  "add_missing result [] = result"
| "add_missing result (proc # rest) =
     add_missing (if isProcessInSlice result proc then result else result @ [proc]) rest"

definition includeTopProcesses ::
  "((ProcState \<Rightarrow> ProcState \<Rightarrow> bool) \<Rightarrow> ProcState list \<Rightarrow> ProcState list) \<Rightarrow> IncludeTopConfig \<Rightarrow> ProcState list \<Rightarrow> ProcState list" where
  "includeTopProcesses Slice cfg processes =
     (if \<not> it_Enabled cfg \<or> (it_ByCPU cfg = 0 \<and> it_ByMemory cfg = 0) then processes
      else
        let (processes, result) =
              (if 0 < it_ByCPU cfg then
                 (let numProcs = (if int (length processes) < it_ByCPU cfg then length processes else nat (it_ByCPU cfg));
                      processes = Slice (\<lambda>p q. f64_less (cpu_pct q) (cpu_pct p)) processes in
                  (processes, take numProcs processes))
               else (processes, [])) in
        if 0 < it_ByMemory cfg then
          (let numProcs = (if int (length processes) < it_ByMemory cfg then length processes else nat (it_ByMemory cfg));
               processes = Slice (\<lambda>p q. rss_bytes q < rss_bytes p) processes in
           add_missing result (take numProcs processes))
        else result)"

section \<open>Events\<close>

text \<open>\<open>typeconv.Convert\<close> is the argument \<open>Convert\<close>; the event is its result with the network entry.\<close>

definition getProcessEvent ::
  "(ProcState \<Rightarrow> 'm outcome) \<Rightarrow> (counter_map \<Rightarrow> string list) \<Rightarrow> Stats \<Rightarrow> ProcState \<Rightarrow>
     ('m \<times> (string \<rightharpoonup> proto_entry) option) outcome" where
  "getProcessEvent Convert order st process =
     (let process = (if st_CPUTicks st then process
                     else process\<lparr>ps_CPU := (ps_CPU process)\<lparr>pc_User := None, pc_System := None,
                            pc_Total := (pc_Total (ps_CPU process))\<lparr>ct_Ticks := None\<rparr>\<rparr>\<rparr>) in
      and_then (Convert process) (\<lambda>proc.
        Ok (proc,
            if st_EnableNetwork st
            then map_option (\<lambda>n. MapProcNetCountersWithFilter order n (st_NetworkMetrics st)) (ps_Network process)
            else None)))"

fun format_all ::
  "(ProcState \<Rightarrow> 'm outcome) \<Rightarrow> proc_env \<Rightarrow> Stats \<Rightarrow> u64 \<Rightarrow> ProcState list \<Rightarrow>
     (('m \<times> (string \<rightharpoonup> proto_entry) option) list \<times> ProcStateRootEvent list) outcome" where
  "format_all Convert e st totalPhyMem [] = Ok ([], [])"
| "format_all Convert e st totalPhyMem (process # rest) =
     (let mem = ps_Memory process;
          process = process\<lparr>ps_Memory := mem\<lparr>pm_Rss := (pm_Rss mem)\<lparr>mb_Pct := GetProcMemPercentage process totalPhyMem\<rparr>\<rparr>\<rparr>;
          (root, process) = FormatForRoot process in
      and_then (wrap_err ''error converting process'' (getProcessEvent Convert (pe_order e) st process)) (\<lambda>proc.
      and_then (format_all Convert e st totalPhyMem rest) (\<lambda>(procs, rootEvents).
        Ok (proc # procs, root # rootEvents))))"

text \<open>\<open>Get\<close>: the events, the collector afterwards and the boot time.\<close>

definition Get ::
  "(ProcState \<Rightarrow> 'm outcome) \<Rightarrow> proc_env \<Rightarrow> Stats \<Rightarrow> u64 \<Rightarrow>
     (('m \<times> (string \<rightharpoonup> proto_entry) option) list \<times> ProcStateRootEvent list) outcome \<times> Stats \<times> u64" where
  "Get Convert e st bootTime =
     (if length (st_Procs st) = 0 then (Ok ([], []), st, bootTime)
      else
        case FetchPids e st bootTime of
          (Err err, bootTime) \<Rightarrow> (Err (Wrapped ''error gathering PIDs'' err), st, bootTime)
        | (Panic, bootTime) \<Rightarrow> (Panic, st, bootTime)
        | (Ok (pidMap, plist), bootTime) \<Rightarrow>
            (case SetMap (st_ProcsMap st) pidMap of
               Ok procsMap \<Rightarrow>
                 let st = st\<lparr>st_ProcsMap := procsMap\<rparr>;
                     plist = includeTopProcesses (pe_Slice e) (st_IncludeTop st) plist;
                     totalPhyMem = (if st_host st then valueOr 0 (pe_Memory e) else 0) in
                 (format_all Convert e st totalPhyMem plist, st, bootTime)
             | _ \<Rightarrow> (Panic, st, bootTime)))"

definition set_filled :: "Stats \<Rightarrow> int \<Rightarrow> (ProcState \<times> bool) outcome \<Rightarrow> ProcState outcome \<times> Stats" where
  "set_filled st pid r =
     (case wrap_err ''error fetching PID'' r of
        Err err \<Rightarrow> (Err err, st)
      | Panic \<Rightarrow> (Panic, st)
      | Ok (pidStat, _) \<Rightarrow>
          (case SetPid (st_ProcsMap st) pid pidStat of
             Ok procsMap \<Rightarrow> (Ok pidStat, st\<lparr>st_ProcsMap := procsMap\<rparr>)
           | _ \<Rightarrow> (Panic, st)))"

definition GetOne ::
  "(ProcState \<Rightarrow> 'm outcome) \<Rightarrow> proc_env \<Rightarrow> Stats \<Rightarrow> int \<Rightarrow> u64 \<Rightarrow>
     ('m \<times> (string \<rightharpoonup> proto_entry) option) outcome \<times> Stats \<times> u64" where
  "GetOne Convert e st pid bootTime =
     (case pidFill e st pid False bootTime of (r, bootTime) \<Rightarrow>
      case set_filled st pid r of (r, st) \<Rightarrow>
        (and_then r (\<lambda>pidStat. getProcessEvent Convert (pe_order e) st pidStat), st, bootTime))"

definition GetSelf :: "proc_env \<Rightarrow> Stats \<Rightarrow> u64 \<Rightarrow> ProcState outcome \<times> Stats \<times> u64" where
  "GetSelf e st bootTime =
     (case pidFill e st (pe_Getpid e) False bootTime of (r, bootTime) \<Rightarrow>
      case set_filled st (pe_Getpid e) r of (r, st) \<Rightarrow> (r, st, bootTime))"

definition list_stats :: "resolver \<Rightarrow> Stats" where
  "list_stats hostfs =
     \<lparr>st_Hostfs = Some hostfs, st_Procs = [''.*''], st_ProcsMap = None, st_CPUTicks = False, st_EnvWhitelist = [],
      st_CacheCmdLine = False, st_IncludeTop = \<lparr>it_Enabled = False, it_ByCPU = 0, it_ByMemory = 0\<rparr>,
      st_CgroupOpts = \<lparr>ro_RootfsMountpoint = hostfs, ro_IgnoreRootCgroups = False, ro_CgroupsHierarchyOverride = []\<rparr>,
      st_EnableCgroups = False, st_EnableNetwork = False, st_NetworkMetrics = [], st_skipExtended = True,
      st_procRegexps = [], st_envRegexps = [], st_cgroups = None, st_host = False\<rparr>"

definition ListStates :: "proc_env \<Rightarrow> resolver \<Rightarrow> u64 \<Rightarrow> ProcState list outcome \<times> u64" where
  "ListStates e hostfs bootTime =
     (case Init e (list_stats hostfs) of
        (st, Ok ()) \<Rightarrow>
          (case FetchPids e st bootTime of (r, bootTime) \<Rightarrow>
             (and_then (wrap_err ''error gathering PIDs'' r) (\<lambda>(_, plist). Ok plist), bootTime))
      | (st, Err err) \<Rightarrow> (Err (Wrapped ''error initializing process collectors'' err), bootTime)
      | (st, Panic) \<Rightarrow> (Panic, bootTime))"

text \<open>\<open>GetPIDState\<close> on Linux; the number is cut to 32 bits for psutil.\<close>

definition GetPIDState :: "proc_env \<Rightarrow> resolver \<Rightarrow> int \<Rightarrow> PidState outcome" where
  "GetPIDState e hostfs pid =
     and_then (wrap_err ''Error trying to find process'' (pe_PidExists e (signed_take_bit 31 pid))) (\<lambda>exists.
       if \<not> exists then Err ProcNotExist
       else and_then (wrap_err ''error getting state info'' (GetInfoForPid (pe_os e) hostfs pid)) (\<lambda>procState.
         Ok (ps_State procState)))"

section \<open>The entry points of an operating system\<close>

text \<open>
  \<open>pidFill\<close> relies on two functions of the operating system: the basic facts of a process,
  and its metrics, which leave those facts alone and keep what was cached before.
\<close>

locale os_process =
  fixes info :: "int \<Rightarrow> ProcState outcome"
    and metrics :: "int \<Rightarrow> ProcState \<Rightarrow> (string \<Rightarrow> bool) option \<Rightarrow> u64 \<Rightarrow> ProcState outcome \<times> u64"
  assumes info_pid: "info pid = Ok p \<Longrightarrow> ps_Pid p = Some pid"
    and metrics_same: "metrics pid p filt bt = (Ok q, bt') \<Longrightarrow> (ps_Name q, ps_State q, ps_Pid q, ps_Cgroup q) =
      (ps_Name p, ps_State p, ps_Pid p, ps_Cgroup p)"

text \<open>Some keep more: the parents, the command line, and the arguments and environment of an earlier sample.\<close>

locale os_entry_points = os_process +
  assumes metrics_keeps: "metrics pid p filt bt = (Ok q, bt') \<Longrightarrow>
      (ps_Ppid q, ps_Pgid q, ps_Cmdline q) = (ps_Ppid p, ps_Pgid p, ps_Cmdline p)"
    and metrics_cached: "metrics pid p filt bt = (Ok q, bt') \<Longrightarrow>
      (ps_Args p \<noteq> [] \<longrightarrow> ps_Args q = ps_Args p) \<and> (ps_Env p \<noteq> None \<longrightarrow> ps_Env q = ps_Env p)"

text \<open>What the second half of \<open>pidFill\<close> keeps.\<close>

lemma GetProcCPUPercentage_keeps:
  "GetProcCPUPercentage w n s0 s1 = s1\<lparr>ps_CPU := ps_CPU (GetProcCPUPercentage w n s0 s1)\<rparr>"
  by (simp add: GetProcCPUPercentage_def Let_def)

lemma cgroup_data_keeps:
  "cgroup_data e st prev p = Ok q \<Longrightarrow> q = p\<lparr>ps_Cgroup := ps_Cgroup q\<rparr>"
  by (auto simp: cgroup_data_def go_outcome split: if_splits option.splits)

lemma cpu_value_keeps: "cpu_value p = p\<lparr>ps_CPU := ps_CPU (cpu_value p)\<rparr>"
  by (simp add: cpu_value_def split: option.splits)

lemma network_data_keeps: "network_data e st pid p = p\<lparr>ps_Network := ps_Network (network_data e st pid p)\<rparr>"
  by (simp add: network_data_def)

lemma post_fill_keeps:
  assumes "post_fill e st pid p = Ok q"
  shows "\<exists>cg net cpu. q = p\<lparr>ps_Cmdline := shown_cmdline p, ps_SampleTime := pe_now e pid, ps_Cgroup := cg, ps_Network := net, ps_CPU := cpu\<rparr>"
proof -
  let ?p = "p\<lparr>ps_Cmdline := shown_cmdline p, ps_SampleTime := pe_now e pid\<rparr>"
  obtain prev s where s: "cgroup_data e st prev ?p = Ok s"
    and q: "q = (case prev of None \<Rightarrow> cpu_value (network_data e st pid s)
      | Some l \<Rightarrow> GetProcCPUPercentage (pe_os e) (pe_NumCPU e) l (cpu_value (network_data e st pid s)))"
    using assms unfolding post_fill_def Let_def and_then_Ok_iff by auto
  obtain cg where cg: "s = ?p\<lparr>ps_Cgroup := cg\<rparr>" using cgroup_data_keeps[OF s] by blast
  obtain net where net: "network_data e st pid s = s\<lparr>ps_Network := net\<rparr>" using network_data_keeps by blast
  obtain cpu where "cpu_value (network_data e st pid s) = s\<lparr>ps_Network := net, ps_CPU := cpu\<rparr>"
    using cpu_value_keeps[of "network_data e st pid s"] net by metis
  then have "\<exists>cpu. q = s\<lparr>ps_Network := net, ps_CPU := cpu\<rparr>"
    using q GetProcCPUPercentage_keeps[of "pe_os e" "pe_NumCPU e" _ "s\<lparr>ps_Network := net, ps_CPU := cpu\<rparr>"]
    by (cases prev) auto
  then show ?thesis unfolding cg by auto
qed

lemma cacheCmdLine_keeps: "cacheCmdLine st p = Ok q \<Longrightarrow> \<exists>args cl env. q = p\<lparr>ps_Args := args, ps_Cmdline := cl, ps_Env := env\<rparr>"
  by (auto simp: cacheCmdLine_def Let_def go_outcome split: option.splits if_splits intro: exI[of _ "ps_Args p"])
    (metis ProcState.surjective ProcState.update_convs(7,8,11))+

lemma cacheCmdLine_cached:
  assumes "cacheCmdLine st p = Ok q" "st_ProcsMap st = Some t" "pids t (valueOr 0 (ps_Pid p)) = Some l" "st_CacheCmdLine st"
  shows "ps_Args q = ps_Args l \<and> ps_Cmdline q = ps_Cmdline l \<and> ps_Env q = ps_Env l"
  using assms by (auto simp: cacheCmdLine_def GetPid_def Let_def)

definition accepted :: "Stats \<Rightarrow> bool \<Rightarrow> ProcState \<Rightarrow> bool" where
  "accepted st filt p \<longleftrightarrow> st_skipExtended st \<or> \<not> filt \<or> matchProcess st (ps_Name p)"

definition same_process :: "ProcState \<Rightarrow> ProcState \<Rightarrow> bool" where
  "same_process p q \<longleftrightarrow> (ps_Name p, ps_State p, ps_Pid p) = (ps_Name q, ps_State q, ps_Pid q)"

context os_process begin

text \<open>A process that comes out is the one asked for, with its basic facts; the filter looks at its name.\<close>

lemma fill_pid_basic:
  assumes "fill_pid info metrics e st pid filt bt = (Ok (p, saved), bt')"
  shows "ps_Pid p = Some pid \<and> (\<exists>q. info pid = Ok q \<and> same_process p q) \<and> (saved \<longleftrightarrow> accepted st filt p)"
proof -
  obtain q where q: "info pid = Ok q"
    using assms by (cases "info pid") (auto simp: fill_pid_def)
  note pid = info_pid[OF q]
  show ?thesis
  proof (cases "st_skipExtended st")
    case True
    then show ?thesis using assms q pid by (auto simp: fill_pid_def same_process_def accepted_def)
  next
    case False
    obtain c where c: "cacheCmdLine st q = Ok c"
      using assms q False by (cases "cacheCmdLine st q") (auto simp: fill_pid_def)
    have sc: "same_process c q" using cacheCmdLine_keeps[OF c] by (auto simp: same_process_def)
    show ?thesis
    proof (cases "filt \<and> \<not> matchProcess st (ps_Name c)")
      case True
      then have "p = c" "\<not> saved" using assms q False c by (auto simp: fill_pid_def)
      then show ?thesis using True q sc pid False by (auto simp: accepted_def same_process_def)
    next
      case no: False
      obtain m where m: "metrics pid c (Some (isWhitelistedEnvVar st)) bt = (Ok m, bt')" "post_fill e st pid m = Ok p" saved
        using assms q False c no by (auto simp: fill_pid_def go_outcome split: prod.splits)
      have "same_process m c" using metrics_same[OF m(1)] by (simp add: same_process_def)
      moreover have "same_process p m" using post_fill_keeps[OF m(2)] by (auto simp: same_process_def)
      ultimately show ?thesis using sc no m(3) pid q by (auto simp: accepted_def same_process_def)
    qed
  qed
qed

end

context os_entry_points begin

text \<open>With the cache enabled the command line, once seen, does not change.\<close>

lemma fill_pid_cached:
  assumes "fill_pid info metrics e st pid filt bt = (Ok (p, True), bt')" "\<not> st_skipExtended st" "st_CacheCmdLine st"
    and "st_ProcsMap st = Some t" "pids t pid = Some l"
  shows "(ps_Args l \<noteq> [] \<longrightarrow> ps_Args p = ps_Args l) \<and> (ps_Cmdline l \<noteq> [] \<longrightarrow> ps_Cmdline p = ps_Cmdline l) \<and>
    (ps_Env l \<noteq> None \<longrightarrow> ps_Env p = ps_Env l)"
proof -
  obtain q where q: "info pid = Ok q" using assms by (cases "info pid") (auto simp: fill_pid_def)
  obtain c where c: "cacheCmdLine st q = Ok c"
    using assms q by (cases "cacheCmdLine st q") (auto simp: fill_pid_def)
  have pid: "valueOr 0 (ps_Pid q) = pid" using info_pid[OF q] by simp
  have cc: "ps_Args c = ps_Args l" "ps_Cmdline c = ps_Cmdline l" "ps_Env c = ps_Env l"
    using cacheCmdLine_cached[OF c assms(4) _ assms(3)] assms(5) pid by auto
  obtain m where m: "metrics pid c (Some (isWhitelistedEnvVar st)) bt = (Ok m, bt')" "post_fill e st pid m = Ok p"
    using assms q c by (auto simp: fill_pid_def go_outcome split: prod.splits if_splits)
  have "ps_Args p = ps_Args m" "ps_Env p = ps_Env m" "ps_Cmdline p = shown_cmdline m"
    using post_fill_keeps[OF m(2)] by auto
  then show ?thesis
    using metrics_keeps[OF m(1)] metrics_cached[OF m(1)] cc by (auto simp: shown_cmdline_def)
qed

end

lemma GetInfoForPid_Pid: "GetInfoForPid w hostfs pid = Ok p \<Longrightarrow> ps_Pid p = Some pid"
  by (auto simp: GetInfoForPid_def Let_def go_outcome split: outcome.splits option.splits if_splits prod.splits)

interpretation linux: os_entry_points "GetInfoForPid w hostfs" "FillPidMetrics S F w hostfs" for w hostfs S F
proof unfold_locales
  show "GetInfoForPid w hostfs pid = Ok p \<Longrightarrow> ps_Pid p = Some pid" for pid p by (rule GetInfoForPid_Pid)
next
  fix pid p filt bt q bt'
  assume m: "FillPidMetrics S F w hostfs pid p filt bt = (Ok q, bt')"
  note keeps = FillPidMetrics_keeps[OF m]
  show "(ps_Name q, ps_State q, ps_Pid q, ps_Cgroup q) = (ps_Name p, ps_State p, ps_Pid p, ps_Cgroup p)"
    and "(ps_Ppid q, ps_Pgid q, ps_Cmdline q) = (ps_Ppid p, ps_Pgid p, ps_Cmdline p)"
    and "(ps_Args p \<noteq> [] \<longrightarrow> ps_Args q = ps_Args p) \<and> (ps_Env p \<noteq> None \<longrightarrow> ps_Env q = ps_Env p)"
    using keeps by simp_all
qed

section \<open>A listing\<close>

lemma pidFill_basic:
  assumes "pidFill e st pid filt bt = (Ok (p, saved), bt')"
  shows "ps_Pid p = Some pid" "saved \<longleftrightarrow> accepted st filt p"
  using assms linux.fill_pid_basic by (auto simp: pidFill_def split: option.splits)

text \<open>The numbers among the names of the directory, in its order.\<close>

definition pid_name :: "string \<Rightarrow> int option" where
  "pid_name name = (if dirIsPid name = Ok True then (case atoi name of Ok pid \<Rightarrow> Some pid | _ \<Rightarrow> None) else None)"

definition listed_pids :: "string list \<Rightarrow> int list" where
  "listed_pids names = List.map_filter pid_name names"

lemma listed_pids_simps [simp]:
  "listed_pids [] = []"
  "listed_pids (n # ns) = (case pid_name n of Some pid \<Rightarrow> pid # listed_pids ns | None \<Rightarrow> listed_pids ns)"
  by (simp_all add: listed_pids_def map_filter_simps split: option.splits)

definition agree :: "ProcsMap \<Rightarrow> ProcState list \<Rightarrow> bool" where
  "agree m l \<longleftrightarrow> distinct (map ps_Pid l) \<and> (\<forall>pid p. m pid = Some p \<longleftrightarrow> p \<in> set l \<and> ps_Pid p = Some pid)"

lemma agree_add:
  assumes "agree m l" "m pid = None" "ps_Pid p = Some pid"
  shows "agree (m(pid \<mapsto> p)) (l @ [p])"
proof -
  have "ps_Pid q \<noteq> Some pid" if "q \<in> set l" for q
    using assms(1,2) that unfolding agree_def by (metis option.distinct(1))
  then have "Some pid \<notin> ps_Pid ` set l" "q \<in> set l \<Longrightarrow> ps_Pid q = Some pid \<Longrightarrow> False" for q by force+
  then show ?thesis using assms unfolding agree_def by auto
qed

lemma keep_filled_cases:
  assumes "keep_filled f pid m l = (Ok (m', l'), bt')"
  shows "m' = m \<and> l' = l \<or> (\<exists>p. f = (Ok (p, True), bt') \<and> m' = m(pid \<mapsto> p) \<and> l' = l @ [p])"
  using assms by (cases f) (auto simp: keep_filled_def split: outcome.splits if_splits prod.splits)

text \<open>
  A listing fills one process after the other: \<open>fill\<close> is \<open>pidFill\<close> of the operating system.
  It goes on after an error and stops at a panic.
\<close>

fun iter_pids ::
  "(int \<Rightarrow> u64 \<Rightarrow> (ProcState \<times> bool) outcome \<times> u64) \<Rightarrow> ProcsMap \<Rightarrow> ProcState list \<Rightarrow> u64 \<Rightarrow> int list \<Rightarrow>
     (ProcsMap \<times> ProcState list) outcome \<times> u64" where
  "iter_pids fill procMap plist bootTime [] = (Ok (procMap, plist), bootTime)"
| "iter_pids fill procMap plist bootTime (pid # rest) =
     (case keep_filled (fill pid bootTime) pid procMap plist of
        (Ok (procMap, plist), bootTime) \<Rightarrow> iter_pids fill procMap plist bootTime rest
      | r \<Rightarrow> r)"

lemma iter_pids_agree:
  assumes "\<And>pid bt p bt'. fill pid bt = (Ok (p, True), bt') \<Longrightarrow> ps_Pid p = Some pid \<and> keeps p"
    and "iter_pids fill m l bt ids = (Ok (m', l'), bt')" "agree m l"
    and "distinct ids" "\<And>pid. pid \<in> set ids \<Longrightarrow> m pid = None"
  shows "agree m' l' \<and> (\<exists>new. l' = l @ new \<and> list_all keeps new \<and>
    (\<exists>ks. map ps_Pid new = map Some ks \<and> subseq ks ids))"
  using assms(2-)
proof (induction ids arbitrary: m l bt)
  case Nil
  then show ?case by auto
next
  case (Cons pid ids)
  obtain m1 l1 bt1 where it: "keep_filled (fill pid bt) pid m l = (Ok (m1, l1), bt1)"
    and rest: "iter_pids fill m1 l1 bt1 ids = (Ok (m', l'), bt')"
    using Cons.prems(1) by (auto split: prod.splits outcome.splits)
  have fresh: "m pid = None" "pid \<notin> set ids" using Cons.prems by auto
  show ?case
  proof (cases "m1 = m \<and> l1 = l")
    case True
    then show ?thesis using Cons.IH[OF rest] Cons.prems by (simp, blast)
  next
    case False
    then obtain p where p: "m1 = m(pid \<mapsto> p)" "l1 = l @ [p]" "ps_Pid p = Some pid" "keeps p"
      using keep_filled_cases[OF it] assms(1) by blast
    have "agree m1 l1" unfolding p using agree_add[OF Cons.prems(2) fresh(1) p(3)] .
    moreover have "distinct ids" "\<And>k. k \<in> set ids \<Longrightarrow> m1 k = None"
      using Cons.prems fresh p by auto
    ultimately obtain new ks where "agree m' l'" "l' = l1 @ new" "list_all keeps new"
      "map ps_Pid new = map Some ks" "subseq ks ids"
      using Cons.IH[OF rest] by blast
    then show ?thesis using p by (intro conjI exI[of _ "p # new"] exI[of _ "pid # ks"]) auto
  qed
qed

lemma fetch_names_iter:
  "fetch_names e st m l bt names = (Ok r, bt') \<Longrightarrow>
     iter_pids (\<lambda>pid bt. pidFill e st pid True bt) m l bt (listed_pids names) = (Ok r, bt')"
proof (induction names arbitrary: m l bt)
  case (Cons n ns)
  show ?case
  proof (cases "pid_name n")
    case None
    then have "fetch_names e st m l bt ns = (Ok r, bt')"
      using Cons.prems by (auto simp: pid_name_def split: outcome.splits if_splits bool.splits)
    then show ?thesis using Cons None by auto
  next
    case (Some pid)
    then have "dirIsPid n = Ok True" "atoi n = Ok pid"
      by (auto simp: pid_name_def split: if_splits outcome.splits)
    then obtain m1 l1 bt1 where "pidIter e st pid m l bt = (Ok (m1, l1), bt1)"
      and "fetch_names e st m1 l1 bt1 ns = (Ok r, bt')"
      using Cons.prems by (auto split: prod.splits outcome.splits)
    then show ?thesis using Cons.IH Some by (simp add: pidIter_def)
  qed
qed simp

lemma fetch_names_agree:
  assumes "fetch_names e st m l bt names = (Ok (m', l'), bt')" "agree m l"
    and "distinct (listed_pids names)" "\<And>pid. pid \<in> set (listed_pids names) \<Longrightarrow> m pid = None"
  shows "agree m' l' \<and> (\<exists>new. l' = l @ new \<and> list_all (accepted st True) new \<and>
    (\<exists>ks. map ps_Pid new = map Some ks \<and> subseq ks (listed_pids names)))"
  by (rule iter_pids_agree[OF _ fetch_names_iter[OF assms(1)] assms(2-4)]) (use pidFill_basic in blast)+

text \<open>A process environment for the witnesses: one snapshot, and nothing from outside.\<close>

definition insert_by :: "('a \<Rightarrow> 'a \<Rightarrow> bool) \<Rightarrow> 'a \<Rightarrow> 'a list \<Rightarrow> 'a list" where
  "insert_by lt x ys = takeWhile (\<lambda>y. \<not> lt x y) ys @ x # dropWhile (\<lambda>y. \<not> lt x y) ys"

definition insertion_sort :: "('a \<Rightarrow> 'a \<Rightarrow> bool) \<Rightarrow> 'a list \<Rightarrow> 'a list" where
  "insertion_sort lt xs = foldr (insert_by lt) xs []"

definition snapshot_env :: "os_env \<Rightarrow> proc_env" where
  "snapshot_env w =
     \<lparr>pe_cg = (sparse_cg_env [])\<lparr>ce_os := w\<rparr>, pe_now = (\<lambda>_. 0), pe_NumCPU = 1, pe_Host = False, pe_Memory = None,
      pe_NetworkCounters = (\<lambda>_. None), pe_Compile = (\<lambda>_. Ok (\<lambda>_. True)), pe_SumOptUint = (\<lambda>_. 0),
      pe_format_time = (\<lambda>_. []), pe_PidExists = (\<lambda>_. Ok True), pe_Getpid = 1, pe_Slice = insertion_sort,
      pe_order = (\<lambda>_. [])\<rparr>"

text \<open>Every file has the line of \<open>stat\<close> of a sleeping process.\<close>

definition sleeping_env :: "string list \<Rightarrow> os_env" where
  "sleeping_env names = (files_env [])
     \<lparr>file_of := (\<lambda>_. Inr (show_stat 42 ''cat'' (stat_tail (CHR ''S'') 1 42 (replicate 34 ''0'')))),
      dir_of := (\<lambda>_. Inr (map (\<lambda>n. \<lparr>ent_name = n, ent_is_dir = True\<rparr>) names))\<rparr>"

definition sleeping_process :: "int \<Rightarrow> ProcState" where
  "sleeping_process pid = zeroProcState\<lparr>ps_Name := ''cat'', ps_State := ''sleeping'', ps_Ppid := Some 1,
     ps_Pgid := Some 42, ps_Pid := Some pid\<rparr>"

lemma sleeping_info: "GetInfoForPid (sleeping_env names) hostfs pid = Ok (sleeping_process pid)"
proof -
  have "getProcState (CHR ''S'') = ''sleeping''" by (simp add: getProcState_def PidStates_def)
  moreover have "plain ''0''" "no_paren ''0''" "plain_char (CHR ''S'')"
    by (simp_all add: plain_def plain_char_def no_paren_def code_def)
  ultimately show ?thesis
    by (subst GetInfoForPid_show[where comm = "''cat''" and c = "CHR ''S''" and ppid = 1 and pgid = 42 and
        others = "replicate 34 ''0''" and k = 42])
      (simp_all add: sleeping_env_def sleeping_process_def list_all_iff)
qed

text \<open>
  C5. When no two names of \<open>/proc\<close> are the same number, the map and the list that
  \<open>FetchPids\<close> returns agree: the list has each process of the map once, under its own
  number and in the order of the directory, and every one of them passes the filter on
  the names; a process that cannot be read is left out without failing the listing.
\<close>

theorem FetchPids_agree:
  assumes "FetchPids e st bt = (Ok (m, l), bt')" "st_Hostfs st = Some hostfs"
    and "dir_of (pe_os e) (ResolveHostFS hostfs ''proc'') = Inr entries"
    and "distinct (listed_pids (map ent_name entries))"
  shows "distinct (map ps_Pid l) \<and> (\<forall>pid p. m pid = Some p \<longleftrightarrow> p \<in> set l \<and> ps_Pid p = Some pid) \<and>
    list_all (accepted st True) l \<and>
    (\<exists>ks. map ps_Pid l = map Some ks \<and> subseq ks (listed_pids (map ent_name entries)))"
proof -
  have "fetch_names e st Map.empty [] bt (map ent_name entries) = (Ok (m, l), bt')"
    using assms by (simp add: FetchPids_def os_ReadDir_def)
  moreover have "agree Map.empty []" by (simp add: agree_def)
  ultimately have "agree m l \<and> (\<exists>new. l = [] @ new \<and> list_all (accepted st True) new \<and>
      (\<exists>ks. map ps_Pid new = map Some ks \<and> subseq ks (listed_pids (map ent_name entries))))"
    using assms(4) by (intro fetch_names_agree) auto
  then show ?thesis unfolding agree_def by auto
qed

theorem FetchPids_agree_witness:
  "\<exists>m l. FetchPids (snapshot_env (sleeping_env [''self'', ''42'', ''7''])) (list_stats host_root) 5 = (Ok (m, l), 5) \<and>
     l = [sleeping_process 42, sleeping_process 7] \<and> distinct (map ps_Pid l)"
proof -
  let ?w = "sleeping_env [''self'', ''42'', ''7'']" and ?st = "list_stats host_root"
  have w: "pe_os (snapshot_env w) = w" for w by (simp add: snapshot_env_def)
  have a: "atoi ''42'' = Ok 42" "atoi ''7'' = Ok 7"
    by (simp_all add: atoi_def parse_int_def parse_uint_nat_def is_digit_def digit_val_def code_def)
  have d: "dirIsPid ''self'' = Ok False" "dirIsPid ''42'' = Ok True" "dirIsPid ''7'' = Ok True"
    by (simp_all add: dirIsPid_def is_digit_def code_def)
  have f: "pidFill (snapshot_env ?w) ?st pid True 5 = (Ok (sleeping_process pid, True), 5)" for pid
    by (simp add: pidFill_def fill_pid_def list_stats_def sleeping_info w)
  have entries: "dir_of ?w (ResolveHostFS host_root ''proc'') = Inr (map (\<lambda>n. \<lparr>ent_name = n, ent_is_dir = True\<rparr>) [''self'', ''42'', ''7''])"
    by (simp add: sleeping_env_def)
  have F: "FetchPids (snapshot_env ?w) ?st 5 =
      (Ok ([42 \<mapsto> sleeping_process 42, 7 \<mapsto> sleeping_process 7], [sleeping_process 42, sleeping_process 7]), 5)"
    using entries by (simp add: FetchPids_def list_stats_def os_ReadDir_def w)
      (simp add: list_stats_def[symmetric] d a pidIter_def keep_filled_def f)
  have "pid_name ''self'' = None" "pid_name ''42'' = Some 42" "pid_name ''7'' = Some 7"
    by (simp_all add: pid_name_def d a)
  then have "distinct (map ps_Pid [sleeping_process 42, sleeping_process 7])"
    using entries by (intro FetchPids_agree[OF F, where hostfs = host_root and
        entries = "map (\<lambda>n. \<lparr>ent_name = n, ent_is_dir = True\<rparr>) [''self'', ''42'', ''7'']", THEN conjunct1])
      (simp_all add: w list_stats_def)
  then show ?thesis using F by blast
qed

section \<open>The top processes\<close>

text \<open>What \<open>sort.Slice\<close> promises for a strict weak order on the elements: a permutation without inversions.\<close>

definition weak_order :: "('a \<Rightarrow> 'a \<Rightarrow> bool) \<Rightarrow> 'a set \<Rightarrow> bool" where
  "weak_order lt A \<longleftrightarrow> (\<forall>x \<in> A. \<not> lt x x) \<and> (\<forall>x \<in> A. \<forall>y \<in> A. \<forall>z \<in> A. lt x y \<longrightarrow> lt y z \<longrightarrow> lt x z) \<and>
     (\<forall>x \<in> A. \<forall>y \<in> A. \<forall>z \<in> A. \<not> lt x y \<longrightarrow> \<not> lt y z \<longrightarrow> \<not> lt x z)"

definition sorts_slices :: "(('a \<Rightarrow> 'a \<Rightarrow> bool) \<Rightarrow> 'a list \<Rightarrow> 'a list) \<Rightarrow> bool" where
  "sorts_slices S \<longleftrightarrow> (\<forall>lt xs. weak_order lt (set xs) \<longrightarrow> mset (S lt xs) = mset xs \<and> sorted_wrt (\<lambda>x y. \<not> lt y x) (S lt xs))"

lemma weak_orderI:
  assumes "\<And>x. x \<in> A \<Longrightarrow> \<not> lt x x"
    and "\<And>x y z. x \<in> A \<Longrightarrow> y \<in> A \<Longrightarrow> z \<in> A \<Longrightarrow> lt x y \<Longrightarrow> lt y z \<Longrightarrow> lt x z"
    and "\<And>x y z. x \<in> A \<Longrightarrow> y \<in> A \<Longrightarrow> z \<in> A \<Longrightarrow> \<not> lt x y \<Longrightarrow> \<not> lt y z \<Longrightarrow> \<not> lt x z"
  shows "weak_order lt A"
  unfolding weak_order_def by (intro conjI ballI impI) (fact assms)+

lemma weak_orderD:
  assumes "weak_order lt A" "x \<in> A" "y \<in> A" "lt x y"
  shows "\<not> lt y x" "z \<in> A \<Longrightarrow> \<not> lt z y \<Longrightarrow> \<not> lt z x"
proof -
  show "\<not> lt y x" using assms unfolding weak_order_def by blast
  show "\<not> lt z x" if "z \<in> A" "\<not> lt z y" using assms that unfolding weak_order_def by blast
qed

lemma weak_order_subset: "weak_order lt A \<Longrightarrow> B \<subseteq> A \<Longrightarrow> weak_order lt B"
  unfolding weak_order_def by blast

lemma mset_insert_by [simp]: "mset (insert_by lt x ys) = add_mset x (mset ys)"
proof -
  have "mset (takeWhile (\<lambda>y. \<not> lt x y) ys) + mset (dropWhile (\<lambda>y. \<not> lt x y) ys) = mset ys"
    by (simp flip: mset_append)
  then show ?thesis by (simp add: insert_by_def)
qed

lemma set_insert_by [simp]: "set (insert_by lt x ys) = insert x (set ys)"
  using mset_insert_by[of lt x ys] by (metis set_mset_add_mset_insert set_mset_mset)

lemma sorted_insert_by:
  assumes "weak_order lt (insert x (set ys))" "sorted_wrt (\<lambda>x y. \<not> lt y x) ys"
  shows "sorted_wrt (\<lambda>x y. \<not> lt y x) (insert_by lt x ys)"
  using assms
proof (induction ys)
  case Nil
  then show ?case by (simp add: insert_by_def)
next
  case (Cons y ys)
  show ?case
  proof (cases "lt x y")
    case True
    have "\<not> lt y x" using weak_orderD(1)[OF Cons.prems(1) _ _ True] by simp
    moreover have "\<not> lt z x" if "z \<in> set ys" for z
      using weak_orderD(2)[OF Cons.prems(1) _ _ True, of z] Cons.prems(2) that by simp
    ultimately show ?thesis using Cons.prems(2) True by (simp add: insert_by_def)
  next
    case False
    have "weak_order lt (insert x (set ys))" using Cons.prems(1) by (rule weak_order_subset) auto
    then have "sorted_wrt (\<lambda>x y. \<not> lt y x) (insert_by lt x ys)" using Cons by simp
    moreover have "insert_by lt x (y # ys) = y # insert_by lt x ys" using False by (simp add: insert_by_def)
    ultimately show ?thesis using Cons.prems(2) False by simp
  qed
qed

lemma insertion_sort_sorts: "sorts_slices insertion_sort"
proof -
  have m: "mset (insertion_sort lt xs) = mset xs" for lt :: "'a \<Rightarrow> 'a \<Rightarrow> bool" and xs
    by (induction xs) (simp_all add: insertion_sort_def)
  have e: "set (insertion_sort lt xs) = set xs" for lt :: "'a \<Rightarrow> 'a \<Rightarrow> bool" and xs
    using m[of lt xs] by (rule mset_eq_setD)
  have "weak_order lt (set xs) \<Longrightarrow> sorted_wrt (\<lambda>x y. \<not> lt y x) (insertion_sort lt xs)" for lt :: "'a \<Rightarrow> 'a \<Rightarrow> bool" and xs
  proof (induction xs)
    case (Cons x xs)
    have "weak_order lt (set xs)" using Cons.prems by (rule weak_order_subset) auto
    then have "sorted_wrt (\<lambda>x y. \<not> lt y x) (insertion_sort lt xs)" by (rule Cons.IH)
    then have "sorted_wrt (\<lambda>x y. \<not> lt y x) (insert_by lt x (insertion_sort lt xs))"
      using Cons.prems e[of lt xs] by (intro sorted_insert_by) simp_all
    then show ?case by (simp add: insertion_sort_def)
  qed (simp add: insertion_sort_def)
  then show ?thesis using m by (simp add: sorts_slices_def)
qed

text \<open>The comparisons of the two filters.\<close>

lemma f64_weak:
  "x \<noteq> F64NaN \<Longrightarrow> \<not> f64_less x x"
  "f64_less x y \<Longrightarrow> f64_less y z \<Longrightarrow> f64_less x z"
  "y \<noteq> F64NaN \<Longrightarrow> \<not> f64_less x y \<Longrightarrow> \<not> f64_less y z \<Longrightarrow> \<not> f64_less x z"
    apply (cases x; simp)
   apply (cases x; cases y; cases z; simp del: f64_val.simps)
  apply (cases x; cases y; cases z; simp del: f64_val.simps)
  done

lemma weak_order_cpu:
  assumes n: "list_all (\<lambda>p. cpu_pct p \<noteq> F64NaN) ps"
  shows "weak_order (\<lambda>p q. f64_less (cpu_pct q) (cpu_pct p)) (set ps)"
proof (rule weak_orderI)
  show "\<not> f64_less (cpu_pct x) (cpu_pct x)" if "x \<in> set ps" for x
    using n that by (intro f64_weak(1)) (simp add: list_all_iff)
  show "f64_less (cpu_pct z) (cpu_pct x)" if "f64_less (cpu_pct y) (cpu_pct x)" "f64_less (cpu_pct z) (cpu_pct y)" for x y z
    by (rule f64_weak(2)[OF that(2,1)])
  show "\<not> f64_less (cpu_pct z) (cpu_pct x)"
    if "y \<in> set ps" "\<not> f64_less (cpu_pct y) (cpu_pct x)" "\<not> f64_less (cpu_pct z) (cpu_pct y)" for x y z
  proof (rule f64_weak(3)[OF _ that(3,2)])
    show "cpu_pct y \<noteq> F64NaN" using n that(1) unfolding list_all_iff by blast
  qed
qed

lemma weak_order_rss: "weak_order (\<lambda>p q. rss_bytes q < rss_bytes p) A"
proof (rule weak_orderI)
  show "rss_bytes z < rss_bytes x" if "rss_bytes y < rss_bytes x" "rss_bytes z < rss_bytes y" for x y z
    by (rule less_trans[OF that(2,1)])
  show "\<not> rss_bytes z < rss_bytes x" if "\<not> rss_bytes y < rss_bytes x" "\<not> rss_bytes z < rss_bytes y" for x y z
    using order_trans that by (simp add: not_less)
qed simp

text \<open>The first elements of a sorted list: nothing left out comes before one of them.\<close>

lemma take_sorted:
  assumes "sorted_wrt (\<lambda>x y. \<not> lt y x) zs" "q \<in> set zs" "q \<notin> set (take n zs)"
  shows "length (take n zs) = n" "p \<in> set (take n zs) \<Longrightarrow> \<not> lt q p"
proof -
  have d: "q \<in> set (drop n zs)" using assms(2,3) by (metis UnE append_take_drop_id set_append)
  then have "\<not> length zs \<le> n" by auto
  then show "length (take n zs) = n" by simp
  have "sorted_wrt (\<lambda>x y. \<not> lt y x) (take n zs @ drop n zs)" using assms(1) by simp
  then show "p \<in> set (take n zs) \<Longrightarrow> \<not> lt q p" using d unfolding sorted_wrt_append by blast
qed

lemma count_kept:
  assumes "distinct xs" "set xs \<subseteq> set r" "list_all P xs"
  shows "length xs \<le> length (filter P r)"
proof -
  have "length xs = card (set xs)" using assms(1) by (simp add: distinct_card)
  also have "\<dots> \<le> card (set (filter P r))" using assms by (intro card_mono) (auto simp: list_all_iff)
  also have "\<dots> \<le> length (filter P r)" by (rule card_length)
  finally show ?thesis .
qed

lemma isProcessInSlice_iff: "isProcessInSlice ps p \<longleftrightarrow> ps_Pid p \<in> ps_Pid ` set ps"
  by (auto simp: isProcessInSlice_def list_ex_iff image_iff) metis+

lemma add_missing_set:
  assumes "inj_on ps_Pid A" "set r \<subseteq> A" "set xs \<subseteq> A" "distinct (map ps_Pid r)"
  shows "set (add_missing r xs) = set r \<union> set xs \<and> distinct (map ps_Pid (add_missing r xs)) \<and>
    length (add_missing r xs) \<le> length r + length xs"
  using assms
proof (induction xs arbitrary: r)
  case (Cons x xs)
  show ?case
  proof (cases "isProcessInSlice r x")
    case True
    then obtain y where "y \<in> set r" "ps_Pid y = ps_Pid x" by (auto simp: isProcessInSlice_iff)
    then have "x \<in> set r" using Cons.prems(1-3) by (metis inj_on_def list.set_intros(1) subsetD)
    then show ?thesis using Cons.IH[of r] Cons.prems True by auto
  next
    case False
    then have "distinct (map ps_Pid (r @ [x]))" using Cons.prems by (auto simp: isProcessInSlice_iff)
    then show ?thesis using Cons.IH[of "r @ [x]"] Cons.prems False by auto
  qed
qed simp

abbreviation "higher_pct \<equiv> \<lambda>p q. f64_less (cpu_pct q) (cpu_pct p)"
abbreviation "higher_rss \<equiv> \<lambda>p q. rss_bytes q < rss_bytes p"

text \<open>How many of the processes kept have at least the value of one that is not.\<close>

definition top_kept :: "(ProcState \<Rightarrow> ProcState \<Rightarrow> bool) \<Rightarrow> nat \<Rightarrow> ProcState list \<Rightarrow> ProcState list \<Rightarrow> bool" where
  "top_kept lt n ps r \<longleftrightarrow> (\<forall>q \<in> set ps. q \<in> set r \<or> n \<le> length (filter (\<lambda>p. \<not> lt q p) r))"

lemma take_num: "0 \<le> k \<Longrightarrow> length ys = l \<Longrightarrow> take (if int l < k then l else nat k) ys = take (nat k) ys"
  by auto

lemma sorts_slicesD:
  assumes "sorts_slices S" "weak_order lt (set ps)"
  shows "set (S lt ps) = set ps" "length (S lt ps) = length ps" "sorted_wrt (\<lambda>x y. \<not> lt y x) (S lt ps)"
    and "distinct (map ps_Pid ps) \<Longrightarrow> distinct (map ps_Pid (S lt ps))"
proof -
  have m: "mset (S lt ps) = mset ps" using assms by (simp add: sorts_slices_def)
  show "set (S lt ps) = set ps" "length (S lt ps) = length ps" using m mset_eq_setD mset_eq_length by blast+
  show "sorted_wrt (\<lambda>x y. \<not> lt y x) (S lt ps)" using assms by (simp add: sorts_slices_def)
  have "mset (map ps_Pid (S lt ps)) = mset (map ps_Pid ps)" using m by simp
  then show "distinct (map ps_Pid ps) \<Longrightarrow> distinct (map ps_Pid (S lt ps))" using mset_eq_imp_distinct_iff by blast
qed

lemma includeTopProcesses_unfold:
  assumes "sorts_slices S" "list_all (\<lambda>p. cpu_pct p \<noteq> F64NaN) ps"
    and "it_Enabled cfg" "0 \<le> it_ByCPU cfg" "0 \<le> it_ByMemory cfg" "it_ByCPU cfg \<noteq> 0 \<or> it_ByMemory cfg \<noteq> 0"
  shows "\<exists>ps'. set ps' = set ps \<and> (distinct (map ps_Pid ps) \<longrightarrow> distinct (map ps_Pid ps')) \<and>
    includeTopProcesses S cfg ps =
      add_missing (take (nat (it_ByCPU cfg)) (S higher_pct ps)) (take (nat (it_ByMemory cfg)) (S higher_rss ps'))"
proof -
  note c = sorts_slicesD[OF assms(1) weak_order_cpu[OF assms(2)]]
  note r = sorts_slicesD(2)[OF assms(1) weak_order_rss]
  define ps' where "ps' = (if 0 < it_ByCPU cfg then S higher_pct ps else ps)"
  define res where "res = take (nat (it_ByCPU cfg)) (S higher_pct ps)"
  have g: "\<not> (\<not> it_Enabled cfg \<or> it_ByCPU cfg = 0 \<and> it_ByMemory cfg = 0)" using assms by simp
  have fst: "(if 0 < it_ByCPU cfg then
        let numProcs = if int (length ps) < it_ByCPU cfg then length ps else nat (it_ByCPU cfg); processes = S higher_pct ps
        in (processes, take numProcs processes) else (ps, [])) = (ps', res)"
    using take_num[OF assms(4) c(2)] assms(4) by (simp add: ps'_def res_def Let_def)
  have snd: "(if 0 < it_ByMemory cfg then
        let numProcs = if int (length ps') < it_ByMemory cfg then length ps' else nat (it_ByMemory cfg);
          processes = S higher_rss ps'
        in add_missing res (take numProcs processes) else res) =
      add_missing res (take (nat (it_ByMemory cfg)) (S higher_rss ps'))"
    using take_num[OF assms(5) r] assms(5) by (simp add: Let_def)
  have "includeTopProcesses S cfg ps = add_missing res (take (nat (it_ByMemory cfg)) (S higher_rss ps'))"
    unfolding includeTopProcesses_def if_not_P[OF g] fst by (simp only: Let_def prod.case snd[unfolded Let_def])
  then show ?thesis using c by (intro exI[of _ ps']) (simp add: ps'_def res_def)
qed

lemma take_top_kept:
  assumes "sorts_slices S" "weak_order lt (set zs)" "set zs = set ps" "distinct (map ps_Pid zs)"
    and "set (take n (S lt zs)) \<subseteq> set r"
  shows "top_kept lt n ps r"
  unfolding top_kept_def
proof (intro ballI)
  fix q assume q: "q \<in> set ps"
  note s = sorts_slicesD[OF assms(1,2)]
  show "q \<in> set r \<or> n \<le> length (filter (\<lambda>p. \<not> lt q p) r)"
  proof (cases "q \<in> set (take n (S lt zs))")
    case False
    have q': "q \<in> set (S lt zs)" using q s(1) assms(3) by simp
    note t = take_sorted[OF s(3) q' False]
    have "distinct (take n (S lt zs))" using s(4)[OF assms(4)] by (simp add: distinct_map)
    moreover have "list_all (\<lambda>p. \<not> lt q p) (take n (S lt zs))" using t(2) by (simp add: list_all_iff)
    ultimately show ?thesis using count_kept[of "take n (S lt zs)" r "\<lambda>p. \<not> lt q p"] assms(5) t(1) by simp
  qed (use assms(5) in blast)
qed

text \<open>
  C13. With the filter on, what is kept are processes of the list, each once, at most as
  many as the two limits together; a process is only left out when as many others as the
  limit, kept, have a CPU percentage at least its own, and the same for resident memory.
\<close>

theorem includeTopProcesses_top:
  assumes "sorts_slices S" "distinct (map ps_Pid ps)" "list_all (\<lambda>p. cpu_pct p \<noteq> F64NaN) ps"
    and "it_Enabled cfg" "0 \<le> it_ByCPU cfg" "0 \<le> it_ByMemory cfg" "it_ByCPU cfg \<noteq> 0 \<or> it_ByMemory cfg \<noteq> 0"
  defines "r \<equiv> includeTopProcesses S cfg ps"
  shows "set r \<subseteq> set ps \<and> distinct (map ps_Pid r) \<and> length r \<le> nat (it_ByCPU cfg) + nat (it_ByMemory cfg) \<and>
    top_kept (\<lambda>p q. f64_less (cpu_pct q) (cpu_pct p)) (nat (it_ByCPU cfg)) ps r \<and>
    top_kept (\<lambda>p q. rss_bytes q < rss_bytes p) (nat (it_ByMemory cfg)) ps r"
proof -
  let ?n = "nat (it_ByCPU cfg)" and ?m = "nat (it_ByMemory cfg)"
  obtain ps' where p: "set ps' = set ps" "distinct (map ps_Pid ps')"
    and r: "r = add_missing (take ?n (S higher_pct ps)) (take ?m (S higher_rss ps'))"
    using includeTopProcesses_unfold[OF assms(1,3-7)] assms(2) unfolding r_def by blast
  have w: "weak_order higher_pct (set ps)" by (rule weak_order_cpu[OF assms(3)])
  note c = sorts_slicesD[OF assms(1) w]
  note m = sorts_slicesD[OF assms(1) weak_order_rss, of ps']
  have "inj_on ps_Pid (set ps)" using assms(2) by (simp add: distinct_map)
  moreover have "set (take ?n (S higher_pct ps)) \<subseteq> set ps" using c(1) set_take_subset by fast
  moreover have "set (take ?m (S higher_rss ps')) \<subseteq> set ps" using m(1) p(1) set_take_subset by fast
  moreover have "distinct (map ps_Pid (take ?n (S higher_pct ps)))" using c(4)[OF assms(2)] by (simp add: take_map[symmetric])
  ultimately have a: "set r = set (take ?n (S higher_pct ps)) \<union> set (take ?m (S higher_rss ps'))"
    "distinct (map ps_Pid r)" "length r \<le> length (take ?n (S higher_pct ps)) + length (take ?m (S higher_rss ps'))"
    using add_missing_set[of "set ps"] unfolding r by blast+
  have "top_kept higher_pct ?n ps r" using a(1) by (intro take_top_kept[OF assms(1) w refl assms(2)]) simp
  moreover have "top_kept higher_rss ?m ps r"
    using a(1) by (intro take_top_kept[OF assms(1) weak_order_rss p]) simp
  moreover have "set r \<subseteq> set ps"
    using a(1) \<open>set (take ?n (S higher_pct ps)) \<subseteq> set ps\<close> \<open>set (take ?m (S higher_rss ps')) \<subseteq> set ps\<close> by simp
  moreover have "length r \<le> ?n + ?m" using a(3) by simp
  ultimately show ?thesis using a(2) by simp
qed

definition busy_process :: "int \<Rightarrow> rat \<Rightarrow> nat \<Rightarrow> ProcState" where
  "busy_process pid pct bytes = zeroProcState\<lparr>ps_Pid := Some pid,
     ps_CPU := zeroProcCPUInfo\<lparr>pc_Total := \<lparr>ct_Value = None, ct_Ticks = None, ct_Pct = Some (F64Fin False pct), ct_Norm = None\<rparr>\<rparr>,
     ps_Memory := zeroProcMemInfo\<lparr>pm_Rss := \<lparr>mb_Bytes = Some (of_nat bytes), mb_Pct = None\<rparr>\<rparr>\<rparr>"

theorem includeTopProcesses_top_witness:
  "let ps = [busy_process 1 (1/2) 10, busy_process 2 0 30, busy_process 3 (1/4) 20];
       r = includeTopProcesses insertion_sort \<lparr>it_Enabled = True, it_ByCPU = 1, it_ByMemory = 1\<rparr> ps
   in r = [busy_process 1 (1/2) 10, busy_process 2 0 30] \<and> length r \<le> 2"
proof -
  let ?ps = "[busy_process 1 (1/2) 10, busy_process 2 0 30, busy_process 3 (1/4) 20]"
  let ?cfg = "\<lparr>it_Enabled = True, it_ByCPU = 1, it_ByMemory = 1\<rparr>"
  have p: "ps_Pid (busy_process i c b) = Some i" "cpu_pct (busy_process i c b) = F64Fin False c"
    "rss_bytes (busy_process i c b) = of_nat b" for i c b
    by (simp_all add: busy_process_def cpu_pct_def rss_bytes_def)
  have "includeTopProcesses insertion_sort ?cfg ?ps = [busy_process 1 (1/2) 10, busy_process 2 0 30]"
    by (simp add: includeTopProcesses_def Let_def insertion_sort_def insert_by_def p isProcessInSlice_def)
  moreover have "length (includeTopProcesses insertion_sort ?cfg ?ps) \<le> nat (it_ByCPU ?cfg) + nat (it_ByMemory ?cfg)"
    by (rule includeTopProcesses_top[OF insertion_sort_sorts, THEN conjunct2, THEN conjunct2, THEN conjunct1])
      (simp_all add: p)
  ultimately show ?thesis by simp
qed

section \<open>Percentages of a process\<close>


definition sampled :: "u64 \<Rightarrow> int \<Rightarrow> ProcState" where
  "sampled t time = zeroProcState\<lparr>ps_SampleTime := time,
     ps_CPU := zeroProcCPUInfo\<lparr>pc_Total := \<lparr>ct_Value = None, ct_Ticks = Some t, ct_Pct = None, ct_Norm = None\<rparr>\<rparr>\<rparr>"

lemma sampled_fields [simp]:
  "ct_Ticks (pc_Total (ps_CPU (sampled t time))) = Some t" "ps_SampleTime (sampled t time) = time"
  by (simp_all add: sampled_def)

lemma NumCPU_unreadable: "NumCPU (files_env []) n = n"
  by (simp add: NumCPU_def getCPU_def files_env_def os_ReadFile_def)


text \<open>
  \<open>GetProcCPUPercentage\<close> outside that range: without ticks in either sample the
  process is returned as it is; within the same millisecond a process with no new ticks
  gets no percentage, and one that has used some gets an infinite one.
\<close>

theorem GetProcCPUPercentage_instant:
  "GetProcCPUPercentage w rt zeroProcState s1 = s1 \<and>
   GetProcCPUPercentage w rt s0 zeroProcState = zeroProcState \<and>
   GetProcCPUPercentage w rt (sampled t time) (sampled t time) = sampled t time \<and>
   ct_Pct (pc_Total (ps_CPU (GetProcCPUPercentage w rt (sampled t time) (sampled (t + 1) (time + 999999))))) = Some (F64Inf False)"
proof -
  have "time_Sub time time = 0" "time_Sub (time + 999999) time = 999999" by (simp_all add: time_Sub_def)
  moreover have "(999999 :: int) sdiv 1000000 = 0" "(0 :: int) sdiv 1000000 = 0" by (simp_all add: signed_divide_int_def)
  moreover have "int64_of 0 = 0" "int64_of 1 = 1" by (simp_all add: int64_of_small)
  moreover have "f64_of_int 0 = F64Fin False 0" "f64_of_int 1 = F64Fin False 1" by (simp_all add: f64_of_small_int)
  ultimately show ?thesis
    by (simp add: GetProcCPUPercentage_def Let_def zeroProcState_def zeroProcCPUInfo_def sampled_def)
qed

section \<open>From one listing to the next\<close>

lemma pidFill_cached:
  assumes "pidFill e st pid filt bt = (Ok (p, True), bt')" "\<not> st_skipExtended st" "st_CacheCmdLine st"
    and "st_ProcsMap st = Some t" "pids t pid = Some l"
  shows "(ps_Args l \<noteq> [] \<longrightarrow> ps_Args p = ps_Args l) \<and> (ps_Cmdline l \<noteq> [] \<longrightarrow> ps_Cmdline p = ps_Cmdline l) \<and>
    (ps_Env l \<noteq> None \<longrightarrow> ps_Env p = ps_Env l)"
  using assms linux.fill_pid_cached[OF _ assms(2-5)] by (auto simp: pidFill_def split: option.splits)

lemma format_all_roots:
  "format_all Convert e st mem ps = Ok (procs, roots) \<Longrightarrow>
     length procs = length ps \<and> map (\<lambda>r. pr_Pid (re_Process r)) roots = map ps_Pid ps"
proof (induction ps arbitrary: procs roots)
  case (Cons p ps)
  then show ?case by (auto simp: Let_def go_outcome FormatForRoot_def)
qed simp



text \<open>
  \<open>Init\<close> without process patterns returns early and succeeds, but leaves the cgroup
  reader unset although cgroups are still enabled; when a process is filled afterwards,
  the reader is dereferenced.
\<close>

theorem Init_no_patterns:
  fixes e :: proc_env and st :: Stats
  defines "st' \<equiv> fst (Init e (st\<lparr>st_Procs := [], st_EnableCgroups := True, st_cgroups := None\<rparr>))"
  shows "snd (Init e (st\<lparr>st_Procs := [], st_EnableCgroups := True, st_cgroups := None\<rparr>)) = Ok () \<and>
    st_EnableCgroups st' \<and> st_cgroups st' = None \<and> post_fill e st' pid p = Panic"
  by (simp add: st'_def Init_def Let_def post_fill_def GetPid_def cgroup_data_def)

end
