(* ===== verification/Process_Bytes.thy ===== *)
theory Process_Bytes
  imports Process
begin

text \<open>
  What the readers of \<open>process_darwin.go\<close> and \<open>process_aix.go\<close> share: a \<open>bytes.Buffer\<close>
  from which nul-terminated strings are read, arguments up to a number or up to an empty
  one, and environment variables up to an empty line. A buffer is the list of its unread
  bytes. Proved: what is written as a sequence of such strings is read back.
\<close>

abbreviation nul :: char where
  "nul \<equiv> CHR 0x00"

section \<open>Buffers\<close>

text \<open>\<open>ReadBytes\<close>: the bytes up to and with the delimiter, whether the end came first, and what is left.\<close>

definition ReadBytes :: "char \<Rightarrow> string \<Rightarrow> string \<times> bool \<times> string" where
  "ReadBytes delim buf =
     (if delim \<in> set buf
      then (takeWhile (\<lambda>c. c \<noteq> delim) buf @ [delim], False, tl (dropWhile (\<lambda>c. c \<noteq> delim) buf))
      else (buf, True, []))"

text \<open>\<open>C.GoString\<close> of a character array.\<close>

definition GoString :: "string \<Rightarrow> string" where
  "GoString cs = takeWhile (\<lambda>c. c \<noteq> nul) cs"

definition stripNullByteRaw :: "string \<Rightarrow> string outcome" where
  "stripNullByteRaw buf = (if buf = [] then Panic else Ok (butlast buf))"

lemma ReadBytes_line [simp]: "delim \<notin> set s \<Longrightarrow> ReadBytes delim (s @ delim # rest) = (s @ [delim], False, rest)"
  by (auto simp: ReadBytes_def takeWhile_append dropWhile_append)

lemma ReadBytes_end [simp]: "delim \<notin> set s \<Longrightarrow> ReadBytes delim s = (s, True, [])"
  by (simp add: ReadBytes_def)

lemma ReadBytes_shorter:
  assumes "ReadBytes delim buf = (line, False, rest)"
  shows "length rest < length buf"
proof -
  have "delim \<in> set buf" using assms by (auto simp: ReadBytes_def split: if_splits)
  then obtain ys zs where "buf = ys @ delim # zs" "delim \<notin> set ys" by (meson split_list_first)
  then show ?thesis using assms by simp
qed

lemma ReadBytes_delim: "ReadBytes delim buf = (line, False, rest) \<Longrightarrow> line \<noteq> [] \<and> last line = delim"
  by (auto simp: ReadBytes_def split: if_splits)

lemma stripNullByte_line [simp]: "stripNullByte (s @ [c]) = Ok s" "stripNullByteRaw (s @ [c]) = Ok s"
  by (simp_all add: stripNullByte_def stripNullByteRaw_def)

section \<open>Environment variables\<close>

text \<open>
  The loop of both systems over the environment, which ends with the buffer or an empty
  line; \<open>msg\<close> is the text of the error for an entry without an equals sign, whose
  \<open>%w\<close> gets a nil error.
\<close>

function read_env ::
  "string \<Rightarrow> (string \<Rightarrow> bool) option \<Rightarrow> (string \<rightharpoonup> string) \<Rightarrow> string \<Rightarrow> (string \<rightharpoonup> string) outcome" where
  "read_env msg filt env buf =
     (case ReadBytes nul buf of (line, eof, rest) \<Rightarrow>
        if eof then Ok env
        else
          case line of
            [] \<Rightarrow> Panic
          | c # cs \<Rightarrow>
          if c = nul then Ok env
          else
            (case stripNullByteRaw (c # cs) of
               Ok raw \<Rightarrow>
                 let pair = splitN2 (CHR ''='') raw in
                 if length pair \<noteq> 2 then Err (Message msg)
                 else
                   let eKey = pair ! 0 in
                   read_env msg filt (if (case filt of None \<Rightarrow> True | Some f \<Rightarrow> f eKey) then env(eKey \<mapsto> pair ! 1) else env) rest
             | Err e \<Rightarrow> Err e
             | Panic \<Rightarrow> Panic))"
  by pat_completeness auto

termination read_env
  by (relation "measure (\<lambda>(msg, filt, env, buf). length buf)") (auto dest!: ReadBytes_shorter sym[of _ "ReadBytes _ _"])

declare read_env.simps [simp del]

definition env_line :: "string \<times> string \<Rightarrow> string" where
  "env_line kv = fst kv @ ''='' @ snd kv @ [nul]"

definition env_ok :: "string \<times> string \<Rightarrow> bool" where
  "env_ok kv \<longleftrightarrow> CHR ''='' \<notin> set (fst kv) \<and> nul \<notin> set (fst kv) \<and> nul \<notin> set (snd kv)"

definition env_of :: "(string \<Rightarrow> bool) option \<Rightarrow> (string \<times> string) list \<Rightarrow> (string \<rightharpoonup> string) \<Rightarrow> (string \<rightharpoonup> string)" where
  "env_of filt kvs env =
     foldl (\<lambda>env kv. if (case filt of None \<Rightarrow> True | Some f \<Rightarrow> f (fst kv)) then env(fst kv \<mapsto> snd kv) else env) env kvs"

lemma read_env_stop:
  "nul \<notin> set dropped \<Longrightarrow> read_env msg filt env dropped = Ok env"
  "read_env msg filt env (nul # rest) = Ok env"
  using ReadBytes_line[of nul "[]" rest] by (simp_all add: read_env.simps)

lemma read_env_line:
  assumes "env_ok kv"
  shows "read_env msg filt env (env_line kv @ rest) =
    read_env msg filt (env_of filt [kv] env) rest"
proof -
  let ?raw = "fst kv @ CHR ''='' # snd kv"
  have n: "nul \<notin> set ?raw" using assms by (auto simp: env_ok_def)
  have r: "ReadBytes nul (env_line kv @ rest) = (?raw @ [nul], False, rest)"
    using ReadBytes_line[OF n, of rest] by (simp add: env_line_def)
  obtain c cs where c: "?raw @ [nul] = c # cs" "c \<noteq> nul" using n by (cases "?raw") auto
  have s: "stripNullByteRaw (c # cs) = Ok ?raw" unfolding c(1)[symmetric] by (simp add: stripNullByteRaw_def butlast_append)
  have "splitN2 (CHR ''='') ?raw = [fst kv, snd kv]" using assms by (simp add: splitN2_at env_ok_def)
  then show ?thesis
    by (subst read_env.simps) (simp add: r[unfolded c(1)] c(2) s env_of_def)
qed

lemma read_env_lines:
  assumes "list_all env_ok kvs" "nul \<notin> set dropped \<or> (\<exists>rest'. dropped = nul # rest')"
  shows "read_env msg filt env (concat (map env_line kvs) @ dropped) = Ok (env_of filt kvs env)"
  using assms
proof (induction kvs arbitrary: env)
  case Nil
  then show ?case using read_env_stop by (auto simp: env_of_def)
next
  case (Cons kv kvs)
  then show ?case by (simp add: read_env_line) (simp add: env_of_def)
qed

text \<open>The loop itself never panics, whatever the bytes.\<close>

lemma read_env_safe: "read_env msg filt env buf \<noteq> Panic"
proof (induction msg filt env buf rule: read_env.induct)
  case (1 msg filt env buf)
  obtain line eof rest where r: "ReadBytes nul buf = (line, eof, rest)" by (metis surj_pair)
  show ?case
  proof (cases eof)
    case True
    then show ?thesis using r by (simp add: read_env.simps)
  next
    case False
    then obtain c cs where c: "line = c # cs" using ReadBytes_delim r by (cases line) auto
    have "stripNullByteRaw (c # cs) = Ok (butlast (c # cs))" by (simp add: stripNullByteRaw_def)
    then show ?thesis using 1[OF r[symmetric]] False r c by (subst read_env.simps) (auto simp: Let_def)
  qed
qed

section \<open>Arguments\<close>

text \<open>A given number of them, or as many as there are.\<close>

fun read_args :: "nat \<Rightarrow> string list \<Rightarrow> string \<Rightarrow> (string list \<times> string) outcome" where
  "read_args 0 argv buf = Ok (argv, buf)"
| "read_args (Suc n) argv buf =
     (case ReadBytes nul buf of (arg, eof, rest) \<Rightarrow>
        if eof then Ok (argv, rest)
        else and_then (stripNullByte arg) (\<lambda>a. read_args n (argv @ [a]) rest))"

lemma read_args_lines:
  "list_all (\<lambda>a. nul \<notin> set a) args \<Longrightarrow>
     read_args (length args) argv (concat (map (\<lambda>a. a @ [nul]) args) @ rest) = Ok (argv @ args, rest)"
  by (induction args arbitrary: argv) simp_all

lemma read_args_safe: "read_args n argv buf \<noteq> Panic"
proof (induction n argv buf rule: read_args.induct)
  case (2 n argv buf)
  obtain arg eof rest where r: "ReadBytes nul buf = (arg, eof, rest)" by (metis surj_pair)
  show ?case using 2[OF r[symmetric]] r ReadBytes_delim[of nul buf arg rest]
    by (cases eof) (auto simp: stripNullByte_def and_then_Panic_iff)
qed simp

text \<open>Up to the first empty one.\<close>

function read_args_nul :: "string list \<Rightarrow> string \<Rightarrow> string list outcome" where
  "read_args_nul args buf =
     (case ReadBytes nul buf of (arg, eof, rest) \<Rightarrow>
        if eof then Ok args
        else
          case arg of
            [] \<Rightarrow> Panic
          | c # cs \<Rightarrow>
          if c = nul then Ok args
          else (case stripNullByte (c # cs) of Ok a \<Rightarrow> read_args_nul (args @ [a]) rest | Err e \<Rightarrow> Err e | Panic \<Rightarrow> Panic))"
  by pat_completeness auto

termination read_args_nul
  by (relation "measure (\<lambda>(args, buf). length buf)") (auto dest!: ReadBytes_shorter sym[of _ "ReadBytes _ _"])

declare read_args_nul.simps [simp del]

lemma read_args_nul_lines:
  "list_all (\<lambda>a. nul \<notin> set a \<and> a \<noteq> []) args \<Longrightarrow> nul \<notin> set dropped \<or> (\<exists>rest. dropped = nul # rest) \<Longrightarrow>
     read_args_nul argv (concat (map (\<lambda>a. a @ [nul]) args) @ dropped) = Ok (argv @ args)"
proof (induction args arbitrary: argv)
  case Nil
  then show ?case using ReadBytes_line[of nul "[]"] by (auto simp: read_args_nul.simps)
next
  case (Cons a args)
  let ?rest = "concat (map (\<lambda>a. a @ [nul]) args) @ dropped"
  obtain c cs where c: "a @ [nul] = c # cs" "c \<noteq> nul" using Cons.prems by (cases a) auto
  have r: "ReadBytes nul ((c # cs) @ ?rest) = (c # cs, False, ?rest)"
    using ReadBytes_line[of nul a ?rest] Cons.prems unfolding c(1)[symmetric] by simp
  have b: "concat (map (\<lambda>a. a @ [nul]) (a # args)) @ dropped = (c # cs) @ ?rest" unfolding c(1)[symmetric] by simp
  have t: "stripNullByte (c # cs) = Ok a" unfolding c(1)[symmetric] by simp
  have ih: "read_args_nul (argv @ [a]) ?rest = Ok ((argv @ [a]) @ args)" using Cons by simp
  show ?case unfolding b
    by (subst read_args_nul.simps) (simp only: r t ih prod.case list.case outcome.case if_False c(2), simp)
qed

end
