(* ===== verification/Disk_Windows.thy ===== *)
theory Disk_Windows
  imports Diskio Process_Bytes "HOL-Library.Signed_Division"
begin

text \<open>
  \<open>metric/system/diskio\<close> outside Linux: the counters of the logical drives on Windows
  (\<open>diskstat_windows_helper.go\<close>) and the stubs of \<open>diskstat_windows.go\<close> and
  \<open>diskstat_other.go\<close>. The calls of the Win32 API and of the registry are arguments that
  take a path in place of its UTF-16 form. Proved: which drives are reported, and with
  which counters.
\<close>

section \<open>The operating system\<close>

text \<open>The record the driver fills in; bytes, times and counts of reads and writes are used.\<close>

record diskPerformance =
  dp_BytesRead :: int
  dp_BytesWritten :: int
  dp_ReadTime :: int
  dp_WriteTime :: int
  dp_IdleTime :: int
  dp_ReadCount :: u32
  dp_WriteCount :: u32
  dp_QueueDepth :: u32
  dp_SplitCount :: u32
  dp_QueryTime :: int
  dp_StorageDeviceNumber :: u32
  dp_StorageManagerName :: "16 word list"

text \<open>
  \<open>wd_GetLogicalDriveStrings\<close> gets the length it is told and answers with its result, the
  bytes of the buffer and the error number; \<open>wd_GetDriveType\<close> with its result and the
  error number.
\<close>

record ('k, 'h) win_disk =
  wd_OpenKey :: "string \<Rightarrow> 'k outcome"
  wd_GetIntegerValue :: "'k \<Rightarrow> string \<Rightarrow> u64 \<times> go_error option"
  wd_SetDWordValue :: "'k \<Rightarrow> string \<Rightarrow> u32 \<Rightarrow> unit outcome"
  wd_GetLogicalDriveStrings :: "nat \<Rightarrow> nat \<times> string \<times> nat"
  wd_GetDriveType :: "string \<Rightarrow> nat \<times> nat"
  wd_GetVolumeInformation :: "string \<Rightarrow> string outcome"
  wd_CreateFile :: "string \<Rightarrow> 'h outcome"
  wd_DeviceIoControl :: "'h \<Rightarrow> u32 \<Rightarrow> diskPerformance outcome"

record logicalDrive =
  ld_Name :: string
  ld_UNCPath :: string

definition errorSuccess :: nat where
  "errorSuccess = 0"

definition ioctlDiskPerformance :: u32 where
  "ioctlDiskPerformance = 0x70020"

text \<open>\<open>syscall.UTF16PtrFromString\<close> refuses a string with a nul.\<close>

definition UTF16PtrFromString :: "string \<Rightarrow> string outcome" where
  "UTF16PtrFromString s = (if nul \<in> set s then Err (EINVAL) else Ok s)"

section \<open>Drives\<close>

definition GetVolumeLabel :: "('k, 'h) win_disk \<Rightarrow> string \<Rightarrow> string outcome" where
  "GetVolumeLabel x path = and_then (wd_GetVolumeInformation x path) (\<lambda>label. Ok (GoString label))"

definition isValidLogicalDrive :: "('k, 'h) win_disk \<Rightarrow> string \<Rightarrow> bool" where
  "isValidLogicalDrive x path =
     (case UTF16PtrFromString (path @ [CHR 0x5C]) of
        Ok utfPath \<Rightarrow>
          (case wd_GetDriveType x utfPath of (ret, err) \<Rightarrow>
             if ret = 1 \<or> ret = 5 \<or> ret = 0 \<or> ret = 6 \<or> err \<noteq> errorSuccess then False
             else (case GetVolumeLabel x utfPath of
                Ok volumeLabel \<Rightarrow> to_lower volumeLabel \<noteq> ''ramdisk''
              | _ \<Rightarrow> False))
      | _ \<Rightarrow> False)"

definition drive_of :: "char \<Rightarrow> logicalDrive" where
  "drive_of v = (let path = [v] @ '':'' in
     \<lparr>ld_Name = path, ld_UNCPath = [CHR 0x5C, CHR 0x5C, CHR ''.'', CHR 0x5C] @ path\<rparr>)"

fun drive_loop :: "('k, 'h) win_disk \<Rightarrow> string \<Rightarrow> logicalDrive list \<Rightarrow> logicalDrive list" where
  "drive_loop x [] logicalDrives = logicalDrives"
| "drive_loop x (v # rest) logicalDrives =
     drive_loop x rest
       (if 65 \<le> code v \<and> code v \<le> 90 then
          (if [v] = ''A'' \<or> [v] = ''B'' then logicalDrives
           else if isValidLogicalDrive x (ld_Name (drive_of v)) then logicalDrives @ [drive_of v]
           else logicalDrives)
        else logicalDrives)"

definition getLogicalDriveStrings :: "('k, 'h) win_disk \<Rightarrow> logicalDrive list outcome" where
  "getLogicalDriveStrings x =
     (case wd_GetLogicalDriveStrings x 254 of (r1, lpBuffer, e1) \<Rightarrow>
        if r1 = 0 then Err (if e1 \<noteq> errorSuccess then EINVAL else syscall_Errno e1)
        else Ok (drive_loop x lpBuffer []))"

fun containsDrive :: "string list \<Rightarrow> string \<Rightarrow> bool" where
  "containsDrive [] disk = False"
| "containsDrive (vv # devices) disk = (if vv = disk then True else containsDrive devices disk)"

section \<open>Counters\<close>

definition partmgr_key :: string where
  "partmgr_key = ''SYSTEM'' @ [CHR 0x5C] @ ''CurrentControlSet'' @ [CHR 0x5C] @ ''Services'' @ [CHR 0x5C] @ ''partmgr''"

definition partmgr_message :: string where
  "partmgr_message = ''SYSTEM'' @ [CHR 0x5C] @ ''CurrentControlSet'' @ [CHR 0x5C] @ ''Services'' @ [CHR 0x5C] @ ''Partmgr'' @
     [CHR 0x5C] @ ''EnableCounterForIoctl''"

text \<open>The key is closed by a deferred call that only logs.\<close>

definition enablePerformanceCounters :: "('k, 'h) win_disk \<Rightarrow> unit outcome" where
  "enablePerformanceCounters x =
     and_then (wrap_err ''cannot open new key in the registry in order to enable the performance counters''
         (wd_OpenKey x partmgr_key))
       (\<lambda>key. case wd_GetIntegerValue x key ''EnableCounterForIoctl'' of (val, err) \<Rightarrow>
          if val \<noteq> 1 \<or> err \<noteq> None
          then wrap_err (''cannot create HKLM:'' @ partmgr_message @ '' key in the registry in order to enable the performance counters'')
                 (wd_SetDWordValue x key ''EnableCounterForIoctl'' 1)
          else Ok ())"

definition ioCounter :: "('k, 'h) win_disk \<Rightarrow> string \<Rightarrow> diskPerformance outcome" where
  "ioCounter x path =
     and_then (UTF16PtrFromString path) (\<lambda>utfPath.
     and_then (wd_CreateFile x utfPath) (\<lambda>hFile.
       wd_DeviceIoControl x hFile ioctlDiskPerformance))"

definition drive_counters :: "string \<Rightarrow> diskPerformance \<Rightarrow> IOCountersStat" where
  "drive_counters name counter =
     \<lparr>io_ReadCount = ucast (dp_ReadCount counter), io_MergedReadCount = 0,
      io_WriteCount = ucast (dp_WriteCount counter), io_MergedWriteCount = 0,
      io_ReadBytes = word_of_int (dp_BytesRead counter), io_WriteBytes = word_of_int (dp_BytesWritten counter),
      io_ReadTime = word_of_int (dp_ReadTime counter sdiv 10000),
      io_WriteTime = word_of_int (dp_WriteTime counter sdiv 10000),
      io_IoTime = 0, io_WeightedIO = 0, io_Name = name\<rparr>"

text \<open>A drive whose counters cannot be read is logged and left out.\<close>

fun counters_loop ::
  "('k, 'h) win_disk \<Rightarrow> string list \<Rightarrow> logicalDrive list \<Rightarrow> (string \<rightharpoonup> IOCountersStat) \<Rightarrow> (string \<rightharpoonup> IOCountersStat) outcome" where
  "counters_loop x names [] ret = Ok ret"
| "counters_loop x names (drive # rest) ret =
     (if 3 < length (ld_Name drive) then counters_loop x names rest ret
      else if 0 < length names \<and> \<not> containsDrive names (ld_Name drive) then counters_loop x names rest ret
      else (case ioCounter x (ld_UNCPath drive) of
         Ok counter \<Rightarrow> counters_loop x names rest (ret(ld_Name drive \<mapsto> drive_counters (ld_Name drive) counter))
       | Err err \<Rightarrow> counters_loop x names rest ret
       | Panic \<Rightarrow> Panic))"

text \<open>Without drives the result is the nil map, which reads as the empty one.\<close>

definition ioCounters :: "('k, 'h) win_disk \<Rightarrow> string list \<Rightarrow> (string \<rightharpoonup> IOCountersStat) outcome" where
  "ioCounters x names =
     and_then (enablePerformanceCounters x) (\<lambda>_.
     and_then (getLogicalDriveStrings x) (\<lambda>logicalDisks.
       if length logicalDisks = 0 then Ok Map.empty
       else counters_loop x names logicalDisks Map.empty))"

definition IOCounters_windows :: "('k, 'h) win_disk \<Rightarrow> string list \<Rightarrow> (string \<rightharpoonup> IOCountersStat) outcome" where
  "IOCounters_windows x names = ioCounters x names"

definition IOCounters_other ::
  "(string list \<Rightarrow> (string \<rightharpoonup> IOCountersStat) outcome) \<Rightarrow> string list \<Rightarrow> (string \<rightharpoonup> IOCountersStat) outcome" where
  "IOCounters_other disk_IOCounters names = disk_IOCounters names"

section \<open>The statistics of the other systems\<close>

text \<open>The receiver is a pointer; the stubs leave what it points to alone.\<close>

definition NewDiskIOStat_windows :: "'c \<Rightarrow> 'c IOStat" where
  "NewDiskIOStat_windows zeroCpu = \<lparr>lastDiskIOCounters = Map.empty, lastCPU = zeroCpu, curCPU = zeroCpu\<rparr>"

definition OpenSampling_windows :: "'c IOStat \<Rightarrow> go_error option \<times> 'c IOStat" where
  "OpenSampling_windows stat = (None, stat)"

definition CalcIOStatistics_windows :: "IOCountersStat \<Rightarrow> 'c IOStat \<Rightarrow> IOMetric outcome \<times> 'c IOStat" where
  "CalcIOStatistics_windows counter stat = (Err (Message ''iostat is not implement for Windows''), stat)"

definition CloseSampling_windows :: "'c IOStat \<Rightarrow> 'c IOStat" where
  "CloseSampling_windows stat = stat"

definition NewDiskIOStat_other :: "'c \<Rightarrow> 'c IOStat" where
  "NewDiskIOStat_other zeroCpu = \<lparr>lastDiskIOCounters = Map.empty, lastCPU = zeroCpu, curCPU = zeroCpu\<rparr>"

definition OpenSampling_other :: "'c IOStat \<Rightarrow> go_error option \<times> 'c IOStat" where
  "OpenSampling_other stat = (None, stat)"

definition CalcIOStatistics_other :: "IOCountersStat \<Rightarrow> 'c IOStat \<Rightarrow> IOMetric outcome \<times> 'c IOStat" where
  "CalcIOStatistics_other rcounter stat = (Err (Message ''not implemented out of linux''), stat)"

definition CloseSampling_other :: "'c IOStat \<Rightarrow> 'c IOStat" where
  "CloseSampling_other stat = stat"

section \<open>Which drives are reported\<close>

text \<open>The drives that count: letters from C to Z that name a valid drive; and what is read for one.\<close>

definition usable_drive :: "('k, 'h) win_disk \<Rightarrow> char \<Rightarrow> bool" where
  "usable_drive x v \<longleftrightarrow> 67 \<le> code v \<and> code v \<le> 90 \<and> isValidLogicalDrive x [v, CHR '':'']"

definition drive_reading :: "('k, 'h) win_disk \<Rightarrow> string list \<Rightarrow> char \<Rightarrow> IOCountersStat option" where
  "drive_reading x names v =
     (if names = [] \<or> [v, CHR '':''] \<in> set names
      then (case ioCounter x (ld_UNCPath (drive_of v)) of
              Ok counter \<Rightarrow> Some (drive_counters [v, CHR '':''] counter) | _ \<Rightarrow> None)
      else None)"

lemma containsDrive_iff [simp]: "containsDrive devices disk \<longleftrightarrow> disk \<in> set devices"
  by (induction devices) auto

lemma ld_Name_drive_of [simp]: "ld_Name (drive_of v) = [v, CHR '':'']"
  by (simp add: drive_of_def Let_def)

lemma code_A_B: "code v = 65 \<longleftrightarrow> v = CHR ''A''" "code v = 66 \<longleftrightarrow> v = CHR ''B''"
proof -
  have "code (CHR ''A'') = 65" "code (CHR ''B'') = 66" by (simp_all add: code_def)
  then show "code v = 65 \<longleftrightarrow> v = CHR ''A''" "code v = 66 \<longleftrightarrow> v = CHR ''B''"
    by (metis code_def char_of_char)+
qed

lemma drive_loop_eq: "drive_loop x buf ds = ds @ map drive_of (filter (usable_drive x) buf)"
proof (induction x buf ds rule: drive_loop.induct)
  case (2 x v rest ds)
  have "67 \<le> code v \<longleftrightarrow> 65 \<le> code v \<and> v \<noteq> CHR ''A'' \<and> v \<noteq> CHR ''B''"
    unfolding code_A_B[symmetric] by linarith
  then have "usable_drive x v \<longleftrightarrow>
      65 \<le> code v \<and> code v \<le> 90 \<and> v \<noteq> CHR ''A'' \<and> v \<noteq> CHR ''B'' \<and> isValidLogicalDrive x [v, CHR '':'']"
    by (auto simp: usable_drive_def)
  then show ?case unfolding drive_loop.simps 2 by simp
qed simp

lemma counters_loop_last:
  "counters_loop x names (map drive_of vs) ret = Ok m \<Longrightarrow>
     m k = (case k of
        [v, c] \<Rightarrow> if c = CHR '':'' \<and> v \<in> set vs \<and> drive_reading x names v \<noteq> None then drive_reading x names v else ret k
      | _ \<Rightarrow> ret k)"
proof (induction vs arbitrary: ret)
  case (Cons u vs)
  have "\<exists>ret'. counters_loop x names (map drive_of vs) ret' = Ok m \<and>
      ret' = (case drive_reading x names u of Some c \<Rightarrow> ret([u, CHR '':''] \<mapsto> c) | None \<Rightarrow> ret)"
    using Cons.prems by (auto simp: drive_reading_def split: if_splits outcome.splits)
  then obtain ret' where r: "counters_loop x names (map drive_of vs) ret' = Ok m"
    "ret' = (case drive_reading x names u of Some c \<Rightarrow> ret([u, CHR '':''] \<mapsto> c) | None \<Rightarrow> ret)" by blast
  show ?case unfolding Cons.IH[OF r(1)] unfolding r(2)
    by (cases "drive_reading x names u") (auto split: list.splits)
qed (auto split: list.splits)

text \<open>
  C29. On Windows, when \<open>IOCounters\<close> returns, it has the counters of exactly the drives that
  the system lists under the letters C to Z, that are neither optical nor memory drives,
  that were asked for (all, when no names are given) and whose performance record could be
  read; and the registry has the key that enables these records.
\<close>

theorem ioCounters_drives:
  assumes "IOCounters_windows x names = Ok m"
  shows "enablePerformanceCounters x = Ok () \<and>
    (\<exists>r1 buf e1. wd_GetLogicalDriveStrings x 254 = (r1, buf, e1) \<and> r1 \<noteq> 0 \<and>
      (\<forall>d c. m d = Some c \<longleftrightarrow>
        (\<exists>v p. d = [v, CHR '':''] \<and> v \<in> set buf \<and> usable_drive x v \<and> (names = [] \<or> d \<in> set names) \<and>
           ioCounter x (ld_UNCPath (drive_of v)) = Ok p \<and> c = drive_counters d p)))"
proof -
  obtain u ds where e: "enablePerformanceCounters x = Ok u" and ds: "getLogicalDriveStrings x = Ok ds"
    and m: "if length ds = 0 then m = Map.empty else counters_loop x names ds Map.empty = Ok m"
    using assms by (auto simp: IOCounters_windows_def ioCounters_def go_outcome split: if_splits)
  obtain r1 buf e1 where w: "wd_GetLogicalDriveStrings x 254 = (r1, buf, e1)" by (rule prod_cases3)
  have r: "r1 \<noteq> 0" and d: "ds = map drive_of (filter (usable_drive x) buf)"
    using ds w by (simp_all add: getLogicalDriveStrings_def drive_loop_eq split: if_splits)
  have "counters_loop x names ds Map.empty = Ok m" using m by (auto split: if_splits)
  note k = counters_loop_last[OF this[unfolded d]]
  have "m d = Some c \<longleftrightarrow>
        (\<exists>v p. d = [v, CHR '':''] \<and> v \<in> set buf \<and> usable_drive x v \<and> (names = [] \<or> d \<in> set names) \<and>
           ioCounter x (ld_UNCPath (drive_of v)) = Ok p \<and> c = drive_counters d p)" for d c
    unfolding k[of d] by (auto simp: drive_reading_def split: list.splits outcome.splits if_splits)
  then show ?thesis using e w r by simp
qed

definition demo_win_disk :: "(unit, string) win_disk" where
  "demo_win_disk =
     \<lparr>wd_OpenKey = (\<lambda>_. Ok ()), wd_GetIntegerValue = (\<lambda>_ _. (0, Some (PathError ENOENT))), wd_SetDWordValue = (\<lambda>_ _ _. Ok ()),
      wd_GetLogicalDriveStrings = (\<lambda>_. (8, ''A:C:D:'', 0)), wd_GetDriveType = (\<lambda>p. (if p = ''D:'' @ [CHR 0x5C] then 5 else 3, 0)),
      wd_GetVolumeInformation = (\<lambda>_. Ok ''System''), wd_CreateFile = Ok,
      wd_DeviceIoControl = (\<lambda>_ _. Ok \<lparr>dp_BytesRead = 512, dp_BytesWritten = 0, dp_ReadTime = 25000, dp_WriteTime = 0,
        dp_IdleTime = 0, dp_ReadCount = 1, dp_WriteCount = 0, dp_QueueDepth = 0, dp_SplitCount = 0, dp_QueryTime = 0,
        dp_StorageDeviceNumber = 0, dp_StorageManagerName = []\<rparr>)\<rparr>"

lemma demo_win_disk:
  "\<exists>m. IOCounters_windows demo_win_disk [] = Ok m" "usable_drive demo_win_disk (CHR ''C'')"
  "\<not> usable_drive demo_win_disk (CHR ''D'')" "snd (wd_GetLogicalDriveStrings demo_win_disk 254) = (''A:C:D:'', 0)"
  by (simp_all add: IOCounters_windows_def ioCounters_def enablePerformanceCounters_def getLogicalDriveStrings_def
      drive_loop_eq drive_of_def ioCounter_def UTF16PtrFromString_def demo_win_disk_def usable_drive_def
      isValidLogicalDrive_def GetVolumeLabel_def GoString_def to_lower_def code_def errorSuccess_def Let_def)

lemma demo_ioCounter:
  "\<exists>p. ioCounter demo_win_disk (ld_UNCPath (drive_of (CHR ''C''))) = Ok p \<and> dp_ReadTime p = 25000"
  by (simp add: ioCounter_def UTF16PtrFromString_def drive_of_def demo_win_disk_def Let_def)

theorem ioCounters_drives_witness:
  "\<exists>m c. IOCounters_windows demo_win_disk [] = Ok m \<and> m ''C:'' = Some c \<and> io_ReadTime c = 2 \<and> m ''D:'' = None"
proof -
  obtain m where m: "IOCounters_windows demo_win_disk [] = Ok m" using demo_win_disk(1) by blast
  have iff: "m d = Some c \<longleftrightarrow>
      (\<exists>v p. d = [v, CHR '':''] \<and> v \<in> set ''A:C:D:'' \<and> usable_drive demo_win_disk v \<and>
         ioCounter demo_win_disk (ld_UNCPath (drive_of v)) = Ok p \<and> c = drive_counters d p)" for d c
    using ioCounters_drives[OF m] demo_win_disk(4) by auto
  obtain p where p: "ioCounter demo_win_disk (ld_UNCPath (drive_of (CHR ''C''))) = Ok p" "dp_ReadTime p = 25000"
    using demo_ioCounter by blast
  have "m ''C:'' = Some (drive_counters ''C:'' p)" unfolding iff using p demo_win_disk(2) by auto
  moreover have "m ''D:'' \<noteq> Some c" for c unfolding iff using demo_win_disk(3) by auto
  ultimately show ?thesis using m p(2) by (auto simp: drive_counters_def)
qed

end
