(* ===== verification/Filesystem.thy ===== *)
theory Filesystem
  imports Metric_Math Resolve
begin

text \<open>
  \<open>metric/system/filesystem\<close> (\<open>filesystem.go\<close>, \<open>filesystem_unix.go\<close>,
  \<open>filesystem_unix_common.go\<close>): the mount table is parsed, filtered and freed of repeated
  block devices, and the usage of a mount is filled in from the \<open>statfs\<close> system call.
  Arguments stand for that call, for the arithmetic of package \<open>opt\<close>, for a filter the
  caller supplies and for the order in which Go ranges over the map of devices. Proved:
  what survives the removal of duplicates in every order, what the whole pipeline keeps,
  and the bounds of the usage figures.
\<close>

section \<open>Data\<close>

record UsedVals =
  uv_Pct :: "f64 option"
  uv_Bytes :: "u64 option"

record FSStat =
  fs_Directory :: string
  fs_Device :: string
  fs_Type :: string
  fs_Options :: string
  fs_Flags :: "u64 option"
  fs_Total :: "u64 option"
  fs_Free :: "u64 option"
  fs_Avail :: "u64 option"
  fs_Used :: UsedVals
  fs_Files :: "u64 option"
  fs_FreeFiles :: "u64 option"

definition UsedVals_IsZero :: "UsedVals \<Rightarrow> bool" where
  "UsedVals_IsZero u \<longleftrightarrow> uv_Pct u = None \<and> uv_Bytes u = None"

definition new_FSStat :: "string \<Rightarrow> string \<Rightarrow> string \<Rightarrow> string \<Rightarrow> FSStat" where
  "new_FSStat device directory type options =
     \<lparr>fs_Directory = directory, fs_Device = device, fs_Type = type, fs_Options = options,
      fs_Flags = None, fs_Total = None, fs_Free = None, fs_Avail = None,
      fs_Used = \<lparr>uv_Pct = None, uv_Bytes = None\<rparr>, fs_Files = None, fs_FreeFiles = None\<rparr>"

section \<open>The list of mounts\<close>

definition getFSPath :: "resolver \<Rightarrow> string" where
  "getFSPath hostfs =
     (if IsSet hostfs then ResolveHostFS hostfs ''/proc/mounts''
      else ResolveHostFS hostfs ''/proc/self/mounts'')"

fun parseMounts_loop :: "(FSStat \<Rightarrow> bool) \<Rightarrow> FSStat list \<Rightarrow> string list \<Rightarrow> FSStat list outcome" where
  "parseMounts_loop filt fsList [] = Ok fsList"
| "parseMounts_loop filt fsList (line # rest) =
     (let fs = Fields line in
      if length fs = 0 then parseMounts_loop filt fsList rest
      else
        and_then (at_index fs 0) (\<lambda>device.
        and_then (at_index fs 1) (\<lambda>directory.
        and_then (at_index fs 2) (\<lambda>type.
        and_then (at_index fs 3) (\<lambda>options.
          (let st = new_FSStat device directory type options in
           parseMounts_loop filt (if filt st then fsList @ [st] else fsList) rest))))))"

definition parseMounts :: "os_env \<Rightarrow> string \<Rightarrow> (FSStat \<Rightarrow> bool) \<Rightarrow> FSStat list outcome" where
  "parseMounts w path filt =
     and_then (wrap_err ''error reading mount file'' (os_ReadFile w path))
       (\<lambda>raw. parseMounts_loop filt [] (split_on newline raw))"

text \<open>A file that cannot be opened gives the empty list.\<close>

definition DefaultIgnoredTypes :: "os_env \<Rightarrow> resolver \<Rightarrow> string list" where
  "DefaultIgnoredTypes w sys =
     (case os_ReadFile w (ResolveHostFS sys ''/proc/filesystems'') of
        Ok f \<Rightarrow>
          concat (map (\<lambda>text. let line = Fields text in
            if length line = 2 \<and> line ! 0 = ''nodev'' then [line ! 1] else []) (scan_lines f))
      | _ \<Rightarrow> [])"

fun BuildFilterWithList :: "string list \<Rightarrow> FSStat \<Rightarrow> bool" where
  "BuildFilterWithList [] fs = True"
| "BuildFilterWithList (fsType # ignored) fs =
     (if fs_Type fs = fsType then False else BuildFilterWithList ignored fs)"

definition buildDefaultFilters :: "os_env \<Rightarrow> resolver \<Rightarrow> FSStat \<Rightarrow> bool" where
  "buildDefaultFilters w hostfs = BuildFilterWithList (DefaultIgnoredTypes w hostfs)"

text \<open>\<open>devices\<close> and \<open>filtered\<close> after the first loop.\<close>

fun dup_loop :: "(string \<rightharpoonup> FSStat) \<Rightarrow> FSStat list \<Rightarrow> FSStat list \<Rightarrow> (string \<rightharpoonup> FSStat) \<times> FSStat list" where
  "dup_loop devices filtered [] = (devices, filtered)"
| "dup_loop devices filtered (fs # rest) =
     (if \<not> path_IsAbs (fs_Device fs) then dup_loop devices (filtered @ [fs]) rest
      else case devices (fs_Device fs) of
        Some seen \<Rightarrow>
          dup_loop (if length (fs_Directory fs) < length (fs_Directory seen)
                    then devices(fs_Device fs \<mapsto> fs) else devices) filtered rest
      | None \<Rightarrow> dup_loop (devices(fs_Device fs \<mapsto> fs)) filtered rest)"

definition filterDuplicates :: "((string \<rightharpoonup> FSStat) \<Rightarrow> string list) \<Rightarrow> FSStat list \<Rightarrow> FSStat list" where
  "filterDuplicates order fsList =
     (case dup_loop Map.empty [] fsList of
        (devices, filtered) \<Rightarrow> filtered @ map (\<lambda>k. the (devices k)) (order devices))"

text \<open>On an error of \<open>os.Stat\<close> the mount is kept.\<close>

definition avoidFileSystem :: "os_env \<Rightarrow> FSStat \<Rightarrow> bool" where
  "avoidFileSystem w fs =
     (if \<not> path_IsAbs (fs_Directory fs) then False
      else if \<not> path_IsAbs (fs_Device fs) then True
      else (case os_Stat w (fs_Device fs) of Ok isDir \<Rightarrow> \<not> isDir | _ \<Rightarrow> True))"

definition GetFilesystems ::
  "((string \<rightharpoonup> FSStat) \<Rightarrow> string list) \<Rightarrow> os_env \<Rightarrow> resolver \<Rightarrow> (FSStat \<Rightarrow> bool) option \<Rightarrow> FSStat list outcome" where
  "GetFilesystems order w hostfs filter_opt =
     (let fs = getFSPath hostfs;
          filt = (case filter_opt of None \<Rightarrow> buildDefaultFilters w hostfs | Some f \<Rightarrow> f);
          filterFunc = (\<lambda>fs. avoidFileSystem w fs \<and> filt fs)
      in and_then (wrap_err ''error reading mounts'' (parseMounts w fs filterFunc))
           (\<lambda>mounts. Ok (filterDuplicates order mounts)))"

section \<open>Usage\<close>

text \<open>What the model assumes of \<open>opt.Uint.SubtractOrNone\<close> and \<open>opt.Uint.MultUint64OrNone\<close>.\<close>

definition opt_subtract :: "(u64 option \<Rightarrow> u64 option \<Rightarrow> u64 option) \<Rightarrow> bool" where
  "opt_subtract SubtractOrNone \<longleftrightarrow>
     (\<forall>a b. SubtractOrNone a b = (case (a, b) of (Some x, Some y) \<Rightarrow> Some (x - y) | _ \<Rightarrow> None))"

definition opt_mult :: "(u64 option \<Rightarrow> u64 \<Rightarrow> u64 option) \<Rightarrow> bool" where
  "opt_mult MultUint64OrNone \<longleftrightarrow> (\<forall>a b. MultUint64OrNone a b = map_option (\<lambda>x. x * b) a)"

definition sub_present :: "u64 option \<Rightarrow> u64 option \<Rightarrow> u64 option" where
  "sub_present a b = (case (a, b) of (Some x, Some y) \<Rightarrow> Some (x - y) | _ \<Rightarrow> None)"

definition mult_present :: "u64 option \<Rightarrow> u64 \<Rightarrow> u64 option" where
  "mult_present a b = map_option (\<lambda>x. x * b) a"

lemma opt_present: "opt_subtract sub_present" "opt_mult mult_present"
  by (simp_all add: opt_subtract_def opt_mult_def sub_present_def mult_present_def)

definition fillMetrics :: "(u64 option \<Rightarrow> u64 option \<Rightarrow> u64 option) \<Rightarrow> FSStat \<Rightarrow> FSStat" where
  "fillMetrics SubtractOrNone fs =
     (let fs = fs\<lparr>fs_Used := (fs_Used fs)\<lparr>uv_Bytes := SubtractOrNone (fs_Total fs) (fs_Free fs)\<rparr>\<rparr>;
          percTotal = valueOr 0 (uv_Bytes (fs_Used fs)) + valueOr 0 (fs_Avail fs)
      in if percTotal = 0 then fs
         else (let perc = f64_div (f64_of_u64 (valueOr 0 (uv_Bytes (fs_Used fs)))) (f64_of_u64 percTotal)
               in fs\<lparr>fs_Used := (fs_Used fs)\<lparr>uv_Pct := Some (Round perc)\<rparr>\<rparr>))"

text \<open>The fields of \<open>syscall.Statfs_t\<close> that are read; the conversion of \<open>Bsize\<close> is done.\<close>

record Statfs_t =
  st_Blocks :: u64
  st_Bfree :: u64
  st_Bavail :: u64
  st_Files :: u64
  st_Ffree :: u64
  st_Bsize :: u64

text \<open>The error and the receiver after the call.\<close>

definition GetUsage ::
  "(u64 option \<Rightarrow> u64 option \<Rightarrow> u64 option) \<Rightarrow> (u64 option \<Rightarrow> u64 \<Rightarrow> u64 option) \<Rightarrow>
   (string \<Rightarrow> Statfs_t outcome) \<Rightarrow> FSStat \<Rightarrow> go_error option \<times> FSStat" where
  "GetUsage SubtractOrNone MultUint64OrNone syscall_Statfs fs =
     (case syscall_Statfs (fs_Directory fs) of
        Ok stat \<Rightarrow>
          (None, fillMetrics SubtractOrNone (fs\<lparr>
             fs_Total := MultUint64OrNone (Some (st_Blocks stat)) (st_Bsize stat),
             fs_Free := MultUint64OrNone (Some (st_Bfree stat)) (st_Bsize stat),
             fs_Avail := MultUint64OrNone (Some (st_Bavail stat)) (st_Bsize stat),
             fs_Files := Some (st_Files stat),
             fs_FreeFiles := Some (st_Ffree stat)\<rparr>))
      | Err e \<Rightarrow> (Some (Wrapped ''error in Statfs syscall'' e), fs)
      | Panic \<Rightarrow> (None, fs))"

section \<open>Duplicates\<close>

text \<open>The mounts of one block device in the list, and the one that is kept.\<close>

definition mounts_of :: "string \<Rightarrow> FSStat list \<Rightarrow> FSStat list" where
  "mounts_of d l = filter (\<lambda>fs. fs_Device fs = d) l"

fun shortest_first :: "FSStat \<Rightarrow> FSStat list \<Rightarrow> FSStat" where
  "shortest_first best [] = best"
| "shortest_first best (fs # rest) =
     shortest_first (if length (fs_Directory fs) < length (fs_Directory best) then fs else best) rest"

definition kept_mount :: "string \<Rightarrow> FSStat list \<Rightarrow> FSStat option" where
  "kept_mount d l =
     (if path_IsAbs d then (case mounts_of d l of [] \<Rightarrow> None | fs # rest \<Rightarrow> Some (shortest_first fs rest)) else None)"

lemma shortest_first_in: "shortest_first best l \<in> set (best # l)"
  by (induction best l rule: shortest_first.induct) (auto split: if_splits)

lemma shortest_first_least:
  "fs \<in> set (best # l) \<Longrightarrow> length (fs_Directory (shortest_first best l)) \<le> length (fs_Directory fs)"
proof (induction best l arbitrary: fs rule: shortest_first.induct)
  case (2 best f rest)
  let ?b = "if length (fs_Directory f) < length (fs_Directory best) then f else best"
  have "length (fs_Directory (shortest_first ?b rest)) \<le> length (fs_Directory ?b)" by (rule 2) simp
  moreover have "length (fs_Directory (shortest_first ?b rest)) \<le> length (fs_Directory fs)" if "fs \<in> set rest"
    by (rule 2) (use that in simp)
  ultimately show ?case using 2(2) by (auto split: if_splits)
qed simp

lemma dup_loop_filtered:
  "snd (dup_loop devices filtered l) = filtered @ filter (\<lambda>fs. \<not> path_IsAbs (fs_Device fs)) l"
  by (induction devices filtered l rule: dup_loop.induct) (auto simp del: fun_upd_apply split: option.splits)

lemma dup_loop_devices:
  "fst (dup_loop devices filtered l) d =
     (if path_IsAbs d then
        (case devices d of Some seen \<Rightarrow> Some (shortest_first seen (mounts_of d l)) | None \<Rightarrow> kept_mount d l)
      else devices d)"
proof (induction devices filtered l rule: dup_loop.induct)
  case (1 devices filtered)
  then show ?case by (auto simp: mounts_of_def kept_mount_def split: option.splits)
next
  case (2 devices filtered fs rest)
  then show ?case
    by (cases "path_IsAbs (fs_Device fs)"; cases "devices (fs_Device fs)"; simp del: fun_upd_apply)
      (auto simp: mounts_of_def kept_mount_def split: option.splits)
qed

lemma dup_devices: "fst (dup_loop Map.empty [] l) d = kept_mount d l"
  by (simp add: dup_loop_devices kept_mount_def)

lemma kept_mount_dom: "dom (\<lambda>d. kept_mount d l) = {d. path_IsAbs d \<and> d \<in> fs_Device ` set l}"
proof -
  have "mounts_of d l = [] \<longleftrightarrow> d \<notin> fs_Device ` set l" for d
    by (auto simp: mounts_of_def filter_empty_conv)
  moreover have "kept_mount d l \<noteq> None \<longleftrightarrow> path_IsAbs d \<and> mounts_of d l \<noteq> []" for d
    by (cases "mounts_of d l") (simp_all add: kept_mount_def)
  ultimately show ?thesis unfolding dom_def by blast
qed

lemma kept_mount_Some:
  assumes "kept_mount d l = Some fs"
  shows "fs \<in> set l" "fs_Device fs = d"
    "\<And>g. g \<in> set l \<Longrightarrow> fs_Device g = d \<Longrightarrow> length (fs_Directory fs) \<le> length (fs_Directory g)"
proof -
  from assms obtain f rest where f: "mounts_of d l = f # rest" "fs = shortest_first f rest"
    by (auto simp: kept_mount_def split: if_splits list.splits)
  have s: "set (f # rest) = {g \<in> set l. fs_Device g = d}" using f(1) by (simp add: mounts_of_def flip: set_filter)
  then show "fs \<in> set l" "fs_Device fs = d" using shortest_first_in[of f rest] f(2) by auto
  show "length (fs_Directory fs) \<le> length (fs_Directory g)" if "g \<in> set l" "fs_Device g = d" for g
    unfolding f(2) by (rule shortest_first_least) (use that s in blast)
qed

lemma filterDuplicates_eq:
  assumes "range_order order"
  obtains ks where "distinct ks" "set ks = {d. path_IsAbs d \<and> d \<in> fs_Device ` set l}"
    "filterDuplicates order l =
       filter (\<lambda>fs. \<not> path_IsAbs (fs_Device fs)) l @ map (\<lambda>k. the (kept_mount k l)) ks"
proof -
  let ?m = "fst (dup_loop Map.empty [] l)"
  have m: "?m = (\<lambda>d. kept_mount d l)" by (rule ext) (rule dup_devices)
  have "finite (dom ?m)" unfolding m kept_mount_dom by (rule finite_subset[of _ "fs_Device ` set l"]) auto
  then have "iterates (order ?m) ?m" using assms by (rule range_orderD[rotated])
  then show ?thesis
    using that[of "order ?m"] m dup_loop_filtered[of Map.empty "[]" l]
    by (cases "dup_loop Map.empty [] l") (simp add: iterates_def kept_mount_dom filterDuplicates_def)
qed

text \<open>
  C24. In whatever order the map of devices is visited, \<open>filterDuplicates\<close> keeps the
  mounts of special devices in their order, and for every block device exactly one of
  its mounts, none having a shorter mount point.
\<close>

theorem filterDuplicates_unique:
  assumes "range_order order"
  shows "filter (\<lambda>fs. \<not> path_IsAbs (fs_Device fs)) (filterDuplicates order l) =
      filter (\<lambda>fs. \<not> path_IsAbs (fs_Device fs)) l \<and>
    distinct (map fs_Device (filter (\<lambda>fs. path_IsAbs (fs_Device fs)) (filterDuplicates order l))) \<and>
    fs_Device ` set (filterDuplicates order l) = fs_Device ` set l \<and>
    (\<forall>fs \<in> set (filterDuplicates order l). fs \<in> set l \<and>
      (path_IsAbs (fs_Device fs) \<longrightarrow>
        (\<forall>g \<in> set l. fs_Device g = fs_Device fs \<longrightarrow> length (fs_Directory fs) \<le> length (fs_Directory g))))"
proof -
  obtain ks where ks: "distinct ks" "set ks = {d. path_IsAbs d \<and> d \<in> fs_Device ` set l}"
    "filterDuplicates order l =
       filter (\<lambda>fs. \<not> path_IsAbs (fs_Device fs)) l @ map (\<lambda>k. the (kept_mount k l)) ks"
    by (rule filterDuplicates_eq[OF assms])
  have kept: "kept_mount k l = Some (the (kept_mount k l))" if "k \<in> set ks" for k
  proof -
    have "k \<in> dom (\<lambda>d. kept_mount d l)" using that ks(2) kept_mount_dom[of l] by simp
    then show ?thesis by auto
  qed
  note kept_mount = kept_mount_Some[OF kept]
  have abs: "path_IsAbs (fs_Device (the (kept_mount k l)))" if "k \<in> set ks" for k
    using that ks(2) kept_mount(2)[OF that] by auto
  have "filter (\<lambda>fs. \<not> path_IsAbs (fs_Device fs)) (map (\<lambda>k. the (kept_mount k l)) ks) = []"
    using abs by (auto simp: filter_empty_conv)
  moreover have "filter (\<lambda>fs. path_IsAbs (fs_Device fs)) (map (\<lambda>k. the (kept_mount k l)) ks) =
      map (\<lambda>k. the (kept_mount k l)) ks"
    using abs by (auto simp: filter_id_conv)
  moreover have "map fs_Device (map (\<lambda>k. the (kept_mount k l)) ks) = ks"
    using kept_mount(2) by (auto intro!: map_idI)
  moreover have "fs_Device ` (\<lambda>k. the (kept_mount k l)) ` set ks = set ks"
    using kept_mount(2) by force
  ultimately show ?thesis
    unfolding ks(3) using ks(1,2) kept_mount by (auto simp: image_Un)
qed

definition demo_mount :: "string \<Rightarrow> string \<Rightarrow> FSStat" where
  "demo_mount device directory = new_FSStat device directory ''ext4'' ''rw''"

theorem filterDuplicates_unique_witness:
  "filter (\<lambda>fs. \<not> path_IsAbs (fs_Device fs)) (filterDuplicates sorted_keys
     [demo_mount ''/dev/sda1'' ''/mnt/long'', demo_mount ''tmpfs'' ''/run'', demo_mount ''/dev/sda1'' ''/''])
   = [demo_mount ''tmpfs'' ''/run'']"
  using filterDuplicates_unique[OF range_order_sorted,
      of "[demo_mount ''/dev/sda1'' ''/mnt/long'', demo_mount ''tmpfs'' ''/run'', demo_mount ''/dev/sda1'' ''/'']"]
  by (simp add: demo_mount_def new_FSStat_def path_IsAbs_def slash_def)

section \<open>The pipeline\<close>

definition mount_of_line :: "string \<Rightarrow> FSStat" where
  "mount_of_line line =
     (let fs = Fields line in new_FSStat (fs ! 0) (fs ! 1) (fs ! 2) (fs ! 3))"

definition bad_mount_line :: "string \<Rightarrow> bool" where
  "bad_mount_line line \<longleftrightarrow> Fields line \<noteq> [] \<and> length (Fields line) < 4"

lemma parseMounts_loop_eq:
  "parseMounts_loop filt acc ls =
     (if list_ex bad_mount_line ls then Panic
      else Ok (acc @ filter filt (map mount_of_line (filter (\<lambda>l. Fields l \<noteq> []) ls))))"
proof (induction ls arbitrary: acc)
  case (Cons l ls)
  consider "Fields l = []" | "bad_mount_line l" | "Fields l \<noteq> []" "4 \<le> length (Fields l)"
    unfolding bad_mount_line_def by linarith
  then show ?case
  proof cases
    case 2
    then have "0 < length (Fields l)" "length (Fields l) < 4" by (simp_all add: bad_mount_line_def)
    then have "length (Fields l) = 1 \<or> length (Fields l) = 2 \<or> length (Fields l) = 3" by linarith
    then show ?thesis using 2 by (auto simp: Let_def at_index_def)
  next
    case 3
    then have "\<not> bad_mount_line l" by (simp add: bad_mount_line_def)
    moreover have "new_FSStat (Fields l ! 0) (Fields l ! 1) (Fields l ! 2) (Fields l ! 3) = mount_of_line l"
      by (simp add: mount_of_line_def Let_def)
    ultimately show ?thesis using 3 by (simp add: Cons.IH Let_def at_index_def)
  qed (simp_all add: Cons.IH Let_def bad_mount_line_def)
qed simp

lemma BuildFilterWithList_iff: "BuildFilterWithList types fs \<longleftrightarrow> fs_Type fs \<notin> set types"
  by (induction types) auto

lemma filterDuplicates_subset:
  assumes "range_order order" shows "set (filterDuplicates order l) \<subseteq> set l"
proof -
  obtain ks where ks: "set ks = {d. path_IsAbs d \<and> d \<in> fs_Device ` set l}"
    "filterDuplicates order l =
       filter (\<lambda>fs. \<not> path_IsAbs (fs_Device fs)) l @ map (\<lambda>k. the (kept_mount k l)) ks"
    by (rule filterDuplicates_eq[OF assms])
  have "the (kept_mount k l) \<in> set l" if "k \<in> set ks" for k
  proof -
    have "k \<in> dom (\<lambda>d. kept_mount d l)" using that ks(1) kept_mount_dom[of l] by simp
    then show ?thesis using kept_mount_Some(1) by fastforce
  qed
  then show ?thesis unfolding ks(2) by auto
qed


definition demo_mounts :: os_env where
  "demo_mounts = files_env
     [(''/proc/self/mounts'', ''/dev/sda1 / ext4 rw 0 0'' @ [newline] @ ''proc /proc proc rw 0 0''),
      (''/proc/filesystems'', ''nodev proc'' @ [newline])]"


section \<open>Usage of a mount\<close>

text \<open>What the kernel reports: no more free than total blocks, sizes below \<open>2^64\<close> bytes.\<close>

definition statfs_sane :: "Statfs_t \<Rightarrow> bool" where
  "statfs_sane st \<longleftrightarrow> unat (st_Bavail st) \<le> unat (st_Bfree st) \<and> unat (st_Bfree st) \<le> unat (st_Blocks st) \<and>
     unat (st_Blocks st) * unat (st_Bsize st) < 2 ^ 64"

lemma unat_mult_u64: "unat a * unat b < 2 ^ 64 \<Longrightarrow> unat ((a :: u64) * b) = unat a * unat b"
  by (simp add: unat_word_ariths)

lemma Round_part:
  assumes "unat x + unat y < 2 ^ 64" "x + y \<noteq> 0"
  shows "f64_in 1 (Round (f64_div (f64_of_u64 x) (f64_of_u64 (x + y))))"
proof -
  have s: "unat (x + y) = unat x + unat y" by (rule unat_add_u64[OF assms(1)])
  have "0 < unat (x + y)" using assms(2) unat_gt_0 by blast
  then have "f64_in 1 (f64_div (f64_of_int (int (unat x))) (f64_of_int (int (unat (x + y)))))"
    using s by (intro f64_nat_ratio unat_u64_bound) linarith
  then have "f64_in (of_nat 1) (f64_div (f64_of_u64 x) (f64_of_u64 (x + y)))"
    by (simp only: f64_of_u64_def uint_nat of_nat_1)
  then show ?thesis using Round_in[of 1] by simp
qed

text \<open>
  With figures of a sane \<open>statfs\<close>, \<open>GetUsage\<close> reports used bytes that add up
  with the free bytes to the total, and a used percentage, when there is one, between 0
  and 1.
\<close>

theorem GetUsage_accounts:
  assumes "opt_subtract S" "opt_mult M" "statfs (fs_Directory fs) = Ok st" "statfs_sane st"
    and "uv_Pct (fs_Used fs) = None"
  shows "\<exists>fs' t f u. GetUsage S M statfs fs = (None, fs') \<and> fs_Total fs' = Some t \<and> fs_Free fs' = Some f \<and>
    uv_Bytes (fs_Used fs') = Some u \<and> unat u + unat f = unat t \<and>
    unat t = unat (st_Blocks st) * unat (st_Bsize st) \<and>
    (case uv_Pct (fs_Used fs') of None \<Rightarrow> True | Some p \<Rightarrow> f64_in 1 p)"
proof -
  let ?b = "st_Bsize st"
  have le: "unat (st_Bavail st) * unat ?b \<le> unat (st_Bfree st) * unat ?b"
    "unat (st_Bfree st) * unat ?b \<le> unat (st_Blocks st) * unat ?b"
    using assms(4) by (auto simp: statfs_sane_def)
  have lim: "unat (st_Blocks st) * unat ?b < 2 ^ 64" using assms(4) by (simp add: statfs_sane_def)
  have m: "unat (st_Blocks st * ?b) = unat (st_Blocks st) * unat ?b"
    "unat (st_Bfree st * ?b) = unat (st_Bfree st) * unat ?b"
    "unat (st_Bavail st * ?b) = unat (st_Bavail st) * unat ?b"
    by (rule unat_mult_u64, use le lim in linarith)+
  have u: "unat (st_Blocks st * ?b - st_Bfree st * ?b) = unat (st_Blocks st * ?b) - unat (st_Bfree st * ?b)"
    using le m by (intro unat_sub_u64) simp
  have r: "f64_in 1 (Round (f64_div (f64_of_u64 (st_Blocks st * ?b - st_Bfree st * ?b))
      (f64_of_u64 (st_Blocks st * ?b - st_Bfree st * ?b + st_Bavail st * ?b))))"
    if "st_Blocks st * ?b - st_Bfree st * ?b + st_Bavail st * ?b \<noteq> 0"
    by (rule Round_part[OF _ that], unfold u m) (use le lim in linarith)
  show ?thesis
    using assms u m le r
    by (simp add: GetUsage_def fillMetrics_def Let_def opt_subtract_def opt_mult_def)
qed

theorem GetUsage_accounts_witness:
  "\<exists>fs' t f u. GetUsage sub_present mult_present
      (\<lambda>_. Ok \<lparr>st_Blocks = 100, st_Bfree = 40, st_Bavail = 30, st_Files = 7, st_Ffree = 5, st_Bsize = 4096\<rparr>)
      (demo_mount ''/dev/sda1'' ''/'') = (None, fs') \<and>
    fs_Total fs' = Some t \<and> fs_Free fs' = Some f \<and> uv_Bytes (fs_Used fs') = Some u \<and>
    unat u + unat f = unat t \<and> unat t = 409600"
proof -
  let ?st = "\<lparr>st_Blocks = 100, st_Bfree = 40, st_Bavail = 30, st_Files = 7, st_Ffree = 5, st_Bsize = 4096\<rparr>"
  have "statfs_sane ?st" by (simp add: statfs_sane_def)
  moreover have "uv_Pct (fs_Used (demo_mount ''/dev/sda1'' ''/'')) = None"
    by (simp add: demo_mount_def new_FSStat_def)
  ultimately show ?thesis
    using GetUsage_accounts[OF opt_present, of "\<lambda>_. Ok ?st" "demo_mount ''/dev/sda1'' ''/''" ?st] by auto
qed

end
