(* ===== verification/Filesystem_Other.thy ===== *)
theory Filesystem_Other
  imports Filesystem Process_Bytes
begin

text \<open>
  \<open>metric/system/filesystem\<close> on other systems: the mounts of macOS
  (\<open>filesystem_darwin.go\<close>), the drives of Windows and their usage (\<open>filesystem_windows.go\<close>).
  \<open>Getfsstat\<close> and the calls of gosigar's \<open>sys/windows\<close> are arguments. Proved: the mounts
  \<open>GetFilesystems\<close> returns on macOS are entries the kernel filled in, even when mounts
  disappear between its two calls; the drives listed on Windows; and that their usage adds up.
\<close>

section \<open>macOS\<close>

text \<open>The three character arrays of \<open>syscall.Statfs_t\<close> that are read, and their lengths.\<close>

record darwin_statfs =
  ds_Mntonname :: string
  ds_Mntfromname :: string
  ds_Fstypename :: string

definition zero_statfs :: darwin_statfs where
  "zero_statfs = \<lparr>ds_Mntonname = replicate 1024 nul, ds_Mntfromname = replicate 1024 nul, ds_Fstypename = replicate 16 nul\<rparr>"

text \<open>The loop stops after a nul; the rest of the new array keeps its zeros.\<close>

fun byteList_loop :: "string \<Rightarrow> string" where
  "byteList_loop [] = []"
| "byteList_loop (singleByte # raw) =
     singleByte # (if singleByte = nul then replicate (length raw) nul else byteList_loop raw)"

definition bytes_Trim_nul :: "string \<Rightarrow> string" where
  "bytes_Trim_nul s = rev (dropWhile (\<lambda>c. c = nul) (rev (dropWhile (\<lambda>c. c = nul) s)))"

definition byteListToString :: "string \<Rightarrow> string" where
  "byteListToString raw = bytes_Trim_nul (byteList_loop raw)"

definition darwin_mount :: "darwin_statfs \<Rightarrow> FSStat" where
  "darwin_mount st =
     new_FSStat (byteListToString (ds_Mntfromname st)) (byteListToString (ds_Mntonname st)) (byteListToString (ds_Fstypename st)) []"

text \<open>
  \<open>Getfsstat\<close> without a buffer answers the number of mounts; with a buffer of a given length
  it fills the first entries. How many is not looked at.
\<close>

definition parseMounts_darwin ::
  "nat outcome \<Rightarrow> (nat \<Rightarrow> darwin_statfs list outcome) \<Rightarrow> (FSStat \<Rightarrow> bool) \<Rightarrow> FSStat list outcome" where
  "parseMounts_darwin count_mounts Getfsstat filt =
     and_then count_mounts (\<lambda>num.
     and_then (Getfsstat num) (\<lambda>filled.
       let buf = take num (filled @ replicate num zero_statfs)
       in Ok (filter filt (map (\<lambda>i. darwin_mount (buf ! i)) [0..<num]))))"

definition GetFilesystems_darwin ::
  "((string \<rightharpoonup> FSStat) \<Rightarrow> string list) \<Rightarrow> nat outcome \<Rightarrow> (nat \<Rightarrow> darwin_statfs list outcome) \<Rightarrow> os_env \<Rightarrow> resolver \<Rightarrow>
     (FSStat \<Rightarrow> bool) option \<Rightarrow> FSStat list outcome" where
  "GetFilesystems_darwin order count_mounts Getfsstat w hostfs filter_opt =
     (let filt = (case filter_opt of None \<Rightarrow> buildDefaultFilters w hostfs | Some f \<Rightarrow> f);
          filterFunc = (\<lambda>fs. avoidFileSystem w fs \<and> filt fs)
      in and_then (wrap_err ''error reading mounts'' (parseMounts_darwin count_mounts Getfsstat filterFunc))
           (\<lambda>mounts. Ok (filterDuplicates order mounts)))"

lemma byteList_loop_eq: "\<exists>n. byteList_loop raw = takeWhile (\<lambda>c. c \<noteq> nul) raw @ replicate n nul"
proof (induction raw)
  case (Cons c raw)
  then obtain n where "byteList_loop raw = takeWhile (\<lambda>c. c \<noteq> nul) raw @ replicate n nul" by blast
  moreover have "nul # replicate (length raw) nul = replicate (Suc (length raw)) nul" by simp
  ultimately show ?case by (cases "c = nul") (auto intro: exI[of _ n] simp del: replicate_Suc)
qed simp

lemma dropWhile_none: "nul \<notin> set s \<Longrightarrow> dropWhile (\<lambda>c. c = nul) s = s"
  by (cases s) auto

text \<open>It is the C string in the array.\<close>

lemma byteListToString_eq: "byteListToString raw = GoString raw"
proof -
  let ?t = "takeWhile (\<lambda>c. c \<noteq> nul) raw"
  obtain n where n: "byteList_loop raw = ?t @ replicate n nul" using byteList_loop_eq by blast
  have t: "nul \<notin> set ?t" by (auto dest: set_takeWhileD)
  have z: "dropWhile (\<lambda>c. c = nul) (replicate n nul @ s) = dropWhile (\<lambda>c. c = nul) s" for s
    by (induction n) auto
  have "dropWhile (\<lambda>c. c = nul) (?t @ replicate n nul) = (if ?t = [] then [] else ?t @ replicate n nul)"
  proof (cases ?t)
    case Nil
    then show ?thesis using z[of "[]"] by simp
  next
    case (Cons c cs)
    then have "c \<noteq> nul" using t by auto
    then show ?thesis using Cons by simp
  qed
  then have "bytes_Trim_nul (byteList_loop raw) = ?t"
    using t z[of "rev ?t"] dropWhile_none[of "rev ?t"]
    by (cases "?t = []") (simp_all add: bytes_Trim_nul_def n)
  then show ?thesis by (simp add: byteListToString_def GoString_def)
qed

lemma zero_mount: "fs_Directory (darwin_mount zero_statfs) = []"
  by (simp add: darwin_mount_def new_FSStat_def byteListToString_eq GoString_def zero_statfs_def)

text \<open>
  On macOS every mount \<open>GetFilesystems\<close> returns is an entry the kernel filled in: a
  blank entry, left when the second call finds fewer mounts, has an empty mount point and
  is filtered out; and each has an absolute mount point and a device that is not a
  directory.
\<close>

theorem GetFilesystems_darwin_sound:
  assumes "range_order order" "GetFilesystems_darwin order (Ok num) Getfsstat w r filt = Ok fss" "fs \<in> set fss"
  shows "\<exists>filled st. Getfsstat num = Ok filled \<and> st \<in> set filled \<and> fs = darwin_mount st \<and> path_IsAbs (fs_Directory fs) \<and>
    \<not> (path_IsAbs (fs_Device fs) \<and> os_Stat w (fs_Device fs) = Ok True)"
proof -
  let ?f = "\<lambda>fs. avoidFileSystem w fs \<and> (case filt of None \<Rightarrow> buildDefaultFilters w r | Some f \<Rightarrow> f) fs"
  obtain filled where filled: "Getfsstat num = Ok filled"
    using assms(2) by (auto simp: GetFilesystems_darwin_def parseMounts_darwin_def Let_def go_outcome)
  let ?buf = "take num (filled @ replicate num zero_statfs)"
  have fss: "fss = filterDuplicates order (filter ?f (map (\<lambda>i. darwin_mount (?buf ! i)) [0..<num]))"
    using assms(2) filled by (simp add: GetFilesystems_darwin_def parseMounts_darwin_def Let_def)
  then obtain i where i: "i < num" "fs = darwin_mount (?buf ! i)" "avoidFileSystem w fs"
    using filterDuplicates_subset[OF assms(1), of "filter ?f (map (\<lambda>i. darwin_mount (?buf ! i)) [0..<num])"] assms(3)
    by auto
  have a: "path_IsAbs (fs_Directory fs)" using i(3) by (auto simp: avoidFileSystem_def split: if_splits)
  have "?buf ! i \<in> set filled"
  proof (rule ccontr)
    assume "?buf ! i \<notin> set filled"
    then have "?buf ! i = zero_statfs" using i(1) by (auto simp: nth_append split: if_splits)
    then show False using a unfolding i(2) by (simp add: zero_mount path_IsAbs_def)
  qed
  then show ?thesis using filled i a by (auto simp: avoidFileSystem_def split: if_splits)
qed

text \<open>Two mounts are announced and one is found: the other entry stays blank.\<close>

definition demo_statfs :: darwin_statfs where
  "demo_statfs = \<lparr>ds_Mntonname = ''/'', ds_Mntfromname = ''/dev/disk1'', ds_Fstypename = ''apfs''\<rparr>"

lemma demo_mounts_darwin:
  "GetFilesystems_darwin sorted_keys (Ok 2) (\<lambda>_. Ok [demo_statfs]) (files_env []) host_root (Some (\<lambda>_. True)) =
     Ok (filterDuplicates sorted_keys [darwin_mount demo_statfs])"
proof -
  have "avoidFileSystem (files_env []) (darwin_mount demo_statfs)"
    by (simp add: avoidFileSystem_def darwin_mount_def new_FSStat_def demo_statfs_def byteListToString_eq GoString_def
        path_IsAbs_def slash_def files_env_def os_Stat_def)
  moreover have "\<not> avoidFileSystem (files_env []) (darwin_mount zero_statfs)"
    by (simp add: avoidFileSystem_def zero_mount path_IsAbs_def)
  moreover have "[0..<2] = [0, 1 :: nat]" by (simp add: upt_rec)
  ultimately show ?thesis
    by (simp add: GetFilesystems_darwin_def parseMounts_darwin_def Let_def numeral_2_eq_2)
qed

theorem GetFilesystems_darwin_sound_witness:
  "\<exists>fss fs. GetFilesystems_darwin sorted_keys (Ok 2) (\<lambda>_. Ok [demo_statfs]) (files_env []) host_root (Some (\<lambda>_. True)) = Ok fss \<and>
     fs \<in> set fss \<and> fs = darwin_mount demo_statfs \<and> path_IsAbs (fs_Directory fs)"
proof -
  let ?m = "darwin_mount demo_statfs"
  have "path_IsAbs (fs_Device ?m)"
    by (simp add: darwin_mount_def new_FSStat_def demo_statfs_def byteListToString_eq GoString_def path_IsAbs_def slash_def)
  then have m: "?m \<in> set (filterDuplicates sorted_keys [?m])"
    by (simp add: filterDuplicates_def sorted_keys_def)
  obtain filled where "(\<lambda>_. Ok [demo_statfs]) (2 :: nat) = Ok filled" "path_IsAbs (fs_Directory ?m)"
    using GetFilesystems_darwin_sound[OF range_order_sorted demo_mounts_darwin m] by blast
  then show ?thesis using demo_mounts_darwin m by blast
qed

section \<open>Windows\<close>

fun drives_loop :: "(string \<Rightarrow> string outcome) \<Rightarrow> (FSStat \<Rightarrow> bool) \<Rightarrow> string list \<Rightarrow> FSStat list \<Rightarrow> FSStat list outcome" where
  "drives_loop GetFilesystemType filt [] driveList = Ok driveList"
| "drives_loop GetFilesystemType filt (drive # drives) driveList =
     and_then (wrap_err ''GetFilesystemType failed'' (GetFilesystemType drive)) (\<lambda>fsType.
       let fs = new_FSStat drive drive fsType [] in
       drives_loop GetFilesystemType filt drives
         (if fsType \<noteq> [] \<and> filt fs then driveList @ [fs] else driveList))"

definition parseMounts_windows ::
  "string list outcome \<Rightarrow> (string \<Rightarrow> string outcome) \<Rightarrow> (FSStat \<Rightarrow> bool) \<Rightarrow> FSStat list outcome" where
  "parseMounts_windows GetAccessPaths GetFilesystemType filt =
     and_then (wrap_err ''GetAccessPaths failed'' GetAccessPaths) (\<lambda>drives.
       drives_loop GetFilesystemType filt drives [])"

text \<open>The call answers the bytes available to the user, all bytes and the free bytes.\<close>

definition GetUsage_windows ::
  "(u64 option \<Rightarrow> u64 option \<Rightarrow> u64 option) \<Rightarrow> (string \<Rightarrow> (u64 \<times> u64 \<times> u64) outcome) \<Rightarrow> FSStat \<Rightarrow> go_error option \<times> FSStat" where
  "GetUsage_windows SubtractOrNone GetDiskFreeSpaceEx fs =
     (case GetDiskFreeSpaceEx (fs_Directory fs) of
        Ok (freeBytesAvailable, totalNumberOfBytes, totalNumberOfFreeBytes) \<Rightarrow>
          (None, fillMetrics SubtractOrNone (fs\<lparr>
             fs_Total := Some totalNumberOfBytes,
             fs_Free := Some totalNumberOfFreeBytes,
             fs_Avail := Some freeBytesAvailable\<rparr>))
      | Err e \<Rightarrow> (Some (Wrapped ''GetDiskFreeSpaceEx failed'' e), fs)
      | Panic \<Rightarrow> (None, fs))"

lemma drives_loop_eq:
  "drives_loop type filt drives l =
     (case List.find (\<lambda>d. \<forall>t. type d \<noteq> Ok t) drives of
        Some d \<Rightarrow> (case type d of Err e \<Rightarrow> Err (Wrapped ''GetFilesystemType failed'' e) | _ \<Rightarrow> Panic)
      | None \<Rightarrow> Ok (l @ filter (\<lambda>fs. fs_Type fs \<noteq> [] \<and> filt fs)
          (map (\<lambda>d. new_FSStat d d (case type d of Ok t \<Rightarrow> t | _ \<Rightarrow> []) []) drives)))"
  by (induction type filt drives l rule: drives_loop.induct)
    (auto simp: Let_def new_FSStat_def split: outcome.splits option.splits)

text \<open>One drive whose type cannot be read fails the whole listing.\<close>

lemma parseMounts_windows_all:
  assumes "parseMounts_windows (Ok drives) type filt = Ok l"
  shows "(\<forall>d \<in> set drives. \<exists>t. type d = Ok t) \<and>
    l = filter (\<lambda>fs. fs_Type fs \<noteq> [] \<and> filt fs) (map (\<lambda>d. new_FSStat d d (case type d of Ok t \<Rightarrow> t | _ \<Rightarrow> []) []) drives)"
  using assms
  by (auto simp: parseMounts_windows_def drives_loop_eq find_None_iff split: option.splits outcome.splits)

lemma GetUsage_windows_accounts:
  assumes "opt_subtract S" "space (fs_Directory fs) = Ok (a, t, f)" "unat f \<le> unat t" "unat a \<le> unat f"
    and "uv_Pct (fs_Used fs) = None"
  shows "\<exists>fs' u. GetUsage_windows S space fs = (None, fs') \<and> fs_Total fs' = Some t \<and> fs_Free fs' = Some f \<and>
    uv_Bytes (fs_Used fs') = Some u \<and> unat u + unat f = unat t \<and>
    (case uv_Pct (fs_Used fs') of None \<Rightarrow> True | Some p \<Rightarrow> f64_in 1 p)"
proof -
  have u: "unat (t - f) = unat t - unat f" using assms(3) by (rule unat_sub_u64)
  have "f64_in 1 (Round (f64_div (f64_of_u64 (t - f)) (f64_of_u64 (t - f + a))))" if "t - f + a \<noteq> 0"
    by (rule Round_part[OF _ that], unfold u) (use assms(3,4) unat_u64_bound[of t] in linarith)
  then show ?thesis
    using assms u by (simp add: GetUsage_windows_def fillMetrics_def Let_def opt_subtract_def)
qed

end
