(* ===== verification/Process_Windows.thy ===== *)
theory Process_Windows
  imports Process
begin

text \<open>
  \<open>process_windows.go\<close>: the entry points \<open>pidFill\<close> uses on Windows, and its \<open>FetchPids\<close>.
  The calls of package \<open>syscall\<close> and of gosigar's \<open>sys/windows\<close> are arguments, with the
  types of their handles, tokens and structures left open; handles are closed by deferred
  calls whose results are ignored. Proved: that map and list of a listing agree, and the
  name a process gets from the path of its image.
\<close>

unbundle bit_operations_syntax

section \<open>The operating system\<close>

text \<open>Times are \<open>FILETIME\<close> values, in units of 100 nanoseconds since 1601.\<close>

record win_times =
  wt_Creation :: u64
  wt_Kernel :: u64
  wt_User :: u64

record ('h, 'b, 'u, 't, 's) win_env =
  wi_EnumProcesses :: "u32 list outcome"
  wi_OpenProcess :: "u32 \<Rightarrow> u32 \<Rightarrow> 'h outcome"
  wi_NtQueryProcessBasicInformation :: "'h \<Rightarrow> 'b outcome"
  wi_InheritedFromUniqueProcessID :: "'b \<Rightarrow> int"
  wi_GetUserProcessParams :: "'h \<Rightarrow> 'b \<Rightarrow> 'u outcome"
  wi_ReadProcessUnicodeString :: "'h \<Rightarrow> 'u \<Rightarrow> string outcome"
  wi_ByteSliceToStringSlice :: "string \<Rightarrow> string list outcome"
  wi_GetProcessTimes :: "'h \<Rightarrow> win_times outcome"
  wi_FiletimeToDuration :: "u64 \<Rightarrow> int"
  wi_GetProcessMemoryInfo :: "'h \<Rightarrow> (u64 \<times> u64) outcome"
  wi_GetProcessImageFileName :: "'h \<Rightarrow> string outcome"
  wi_GetExitCodeProcess :: "'h \<Rightarrow> u32 outcome"
  wi_OpenProcessToken :: "'h \<Rightarrow> 't outcome"
  wi_GetTokenUser :: "'t \<Rightarrow> 's outcome"
  wi_LookupAccount :: "'s \<Rightarrow> (string \<times> string) outcome"
  wi_SidString :: "'s \<Rightarrow> string outcome"
  wi_PROCESS_QUERY_LIMITED_INFORMATION :: u32
  wi_PROCESS_VM_READ :: u32
  wi_PROCESS_QUERY_INFORMATION :: u32

definition open_process :: "('h, 'b, 'u, 't, 's) win_env \<Rightarrow> u32 \<Rightarrow> int \<Rightarrow> 'h outcome" where
  "open_process x access pid = wrap_err ''OpenProcess failed'' (wi_OpenProcess x access (word_of_int pid))"

section \<open>Paths\<close>

text \<open>
  \<open>filepath.VolumeName\<close> and \<open>filepath.Base\<close> of the standard library on Windows: a drive
  letter, or a server and its share.
\<close>

definition is_sep :: "char \<Rightarrow> bool" where
  "is_sep c \<longleftrightarrow> c = CHR 0x5C \<or> c = CHR ''/''"

definition is_letter :: "char \<Rightarrow> bool" where
  "is_letter c \<longleftrightarrow> (97 \<le> code c \<and> code c \<le> 122) \<or> (65 \<le> code c \<and> code c \<le> 90)"

definition volumeNameLen :: "string \<Rightarrow> nat" where
  "volumeNameLen path =
     (if length path < 2 then 0
      else if path ! 1 = CHR '':'' \<and> is_letter (path ! 0) then 2
      else if length path < 5 \<or> \<not> is_sep (path ! 0) \<or> \<not> is_sep (path ! 1) \<or> is_sep (path ! 2) \<or> path ! 2 = CHR ''.'' then 0
      else
        let n = 3 + length (takeWhile (\<lambda>c. \<not> is_sep c) (drop 3 path)) in
        if length path - 1 \<le> n then 0
        else
          let share = drop (n + 1) path in
          if is_sep (hd share) \<or> hd share = CHR ''.'' then 0
          else n + 1 + length (takeWhile (\<lambda>c. \<not> is_sep c) share))"

definition filepath_Base :: "string \<Rightarrow> string" where
  "filepath_Base path =
     (if path = [] then ''.''
      else
        let path = rev (dropWhile is_sep (rev path));
            path = drop (volumeNameLen path) path;
            path = rev (takeWhile (\<lambda>c. \<not> is_sep c) (rev path)) in
        if path = [] then [CHR 0x5C] else path)"

section \<open>One process\<close>

definition getProcName :: "('h, 'b, 'u, 't, 's) win_env \<Rightarrow> int \<Rightarrow> string outcome" where
  "getProcName x pid =
     and_then (open_process x (wi_PROCESS_QUERY_LIMITED_INFORMATION x) pid) (\<lambda>handle.
     and_then (wrap_err ''GetProcessImageFileName failed'' (wi_GetProcessImageFileName x handle)) (\<lambda>filename.
       Ok (filepath_Base filename)))"

text \<open>259 is \<open>STILL_ACTIVE\<close>.\<close>

definition getPidStatus :: "('h, 'b, 'u, 't, 's) win_env \<Rightarrow> int \<Rightarrow> PidState outcome" where
  "getPidStatus x pid =
     and_then (open_process x (wi_PROCESS_QUERY_LIMITED_INFORMATION x) pid) (\<lambda>handle.
     and_then (wrap_err ''GetExitCodeProcess failed'' (wi_GetExitCodeProcess x handle)) (\<lambda>exitCode.
       Ok (if exitCode = 259 then ''running'' else ''sleeping'')))"

definition GetInfoForPidWindows :: "('h, 'b, 'u, 't, 's) win_env \<Rightarrow> int \<Rightarrow> ProcState outcome" where
  "GetInfoForPidWindows x pid =
     and_then (wrap_err ''error fetching name'' (getProcName x pid)) (\<lambda>name.
     and_then (wrap_err ''error fetching status'' (getPidStatus x pid)) (\<lambda>status.
       Ok (zeroProcState\<lparr>ps_Name := name, ps_Pid := Some pid, ps_State := status\<rparr>)))"

definition getParentPid :: "('h, 'b, 'u, 't, 's) win_env \<Rightarrow> int \<Rightarrow> int outcome" where
  "getParentPid x pid =
     and_then (open_process x (wi_PROCESS_QUERY_LIMITED_INFORMATION x) pid) (\<lambda>handle.
     and_then (wrap_err ''NtQueryProcessBasicInformation failed'' (wi_NtQueryProcessBasicInformation x handle)) (\<lambda>procInfo.
       Ok (wi_InheritedFromUniqueProcessID x procInfo)))"

text \<open>A failed lookup of the account is an error whether or not the identifier can be shown.\<close>

definition getProcCredName :: "('h, 'b, 'u, 't, 's) win_env \<Rightarrow> int \<Rightarrow> string outcome" where
  "getProcCredName x pid =
     and_then (open_process x (wi_PROCESS_QUERY_INFORMATION x) pid) (\<lambda>handle.
     and_then (wrap_err ''OpenProcessToken failed'' (wi_OpenProcessToken x handle)) (\<lambda>token.
     and_then (wrap_err ''GetTokenInformation failed'' (wi_GetTokenUser x token)) (\<lambda>sid.
       case wi_LookupAccount x sid of
         Err err \<Rightarrow>
           (case wi_SidString x sid of
              Ok sid \<Rightarrow> Err (Wrapped ''failed while looking up account name for SID'' err)
            | Err sidErr \<Rightarrow> Err (Wrapped ''failed while looking up account name'' err)
            | Panic \<Rightarrow> Panic)
       | Panic \<Rightarrow> Panic
       | Ok (account, domain) \<Rightarrow> Ok (domain @ CHR 0x5C # account))))"

definition procMem :: "('h, 'b, 'u, 't, 's) win_env \<Rightarrow> int \<Rightarrow> (u64 \<times> u64) outcome" where
  "procMem x pid =
     and_then (open_process x (wi_PROCESS_QUERY_LIMITED_INFORMATION x OR wi_PROCESS_VM_READ x) pid) (\<lambda>handle.
       wrap_err ''GetProcessMemoryInfo failed'' (wi_GetProcessMemoryInfo x handle))"

text \<open>\<open>Filetime.Nanoseconds\<close> of package \<open>syscall\<close>: since 1970, in 64-bit arithmetic.\<close>

definition filetime_Nanoseconds :: "u64 \<Rightarrow> int" where
  "filetime_Nanoseconds t = int_wrap ((int64_of t - 116444736000000000) * 100)"

definition getProcTimes :: "('h, 'b, 'u, 't, 's) win_env \<Rightarrow> int \<Rightarrow> (u64 \<times> u64 \<times> u64) outcome" where
  "getProcTimes x pid =
     and_then (open_process x (wi_PROCESS_QUERY_LIMITED_INFORMATION x) pid) (\<lambda>handle.
     and_then (wrap_err ''GetProcessTimes failed'' (wi_GetProcessTimes x handle)) (\<lambda>cpu.
       Ok (word_of_int (wi_FiletimeToDuration x (wt_User cpu) sdiv 1000000),
           word_of_int (wi_FiletimeToDuration x (wt_Kernel cpu) sdiv 1000000),
           word_of_int (filetime_Nanoseconds (wt_Creation cpu) sdiv 1000000))))"

definition getProcArgsWindows :: "('h, 'b, 'u, 't, 's) win_env \<Rightarrow> int \<Rightarrow> string list outcome" where
  "getProcArgsWindows x pid =
     and_then (open_process x (wi_PROCESS_QUERY_LIMITED_INFORMATION x OR wi_PROCESS_VM_READ x) pid) (\<lambda>handle.
     and_then (wrap_err ''NtQueryProcessBasicInformation failed'' (wi_NtQueryProcessBasicInformation x handle)) (\<lambda>pbi.
     and_then (wrap_err ''GetUserProcessParams failed'' (wi_GetUserProcessParams x handle pbi)) (\<lambda>userProcParams.
     and_then (wrap_err ''ReadProcessUnicodeString failed'' (wi_ReadProcessUnicodeString x handle userProcParams)) (\<lambda>argsW.
       wrap_err ''ByteSliceToStringSlice failed'' (wi_ByteSliceToStringSlice x argsW)))))"

text \<open>The error of \<open>getParentPid\<close> is dropped: the parent is then 0.\<close>

definition FillPidMetricsWindows ::
  "(int \<Rightarrow> string) \<Rightarrow> ('h, 'b, 'u, 't, 's) win_env \<Rightarrow> int \<Rightarrow> ProcState \<Rightarrow> (string \<Rightarrow> bool) option \<Rightarrow> u64 \<Rightarrow>
     ProcState outcome \<times> u64" where
  "FillPidMetricsWindows format_time x pid state filt bootTime =
     (and_then (wrap_err ''error fetching username'' (getProcCredName x pid)) (\<lambda>user.
      and_then (case getParentPid x pid of Err _ \<Rightarrow> Ok 0 | r \<Rightarrow> r) (\<lambda>ppid.
      and_then (wrap_err ''error fetching memory'' (procMem x pid)) (\<lambda>(wss, size').
      and_then (wrap_err ''error getting CPU times'' (getProcTimes x pid)) (\<lambda>(userTime, sysTime, startTime).
      and_then (wrap_err ''error fetching process args'' (getProcArgsWindows x pid)) (\<lambda>argList.
        Ok (state\<lparr>ps_Username := user, ps_Ppid := Some ppid,
              ps_Memory := (ps_Memory state)\<lparr>pm_Rss := (pm_Rss (ps_Memory state))\<lparr>mb_Bytes := Some wss\<rparr>, pm_Size := Some size'\<rparr>,
              ps_CPU := (ps_CPU state)\<lparr>pc_System := Some sysTime, pc_User := Some userTime,
                pc_Total := (pc_Total (ps_CPU state))\<lparr>ct_Ticks := Some (userTime + sysTime)\<rparr>,
                pc_StartTime := unixTimeMsToTime format_time startTime\<rparr>,
              ps_Args := argList\<rparr>)))))), bootTime)"

section \<open>FetchPids\<close>

definition FetchPidsWindows ::
  "(int \<Rightarrow> u64 \<Rightarrow> (ProcState \<times> bool) outcome \<times> u64) \<Rightarrow> ('h, 'b, 'u, 't, 's) win_env \<Rightarrow> u64 \<Rightarrow>
     (ProcsMap \<times> ProcState list) outcome \<times> u64" where
  "FetchPidsWindows fill x bootTime =
     (case wrap_err ''EnumProcesses failed'' (wi_EnumProcesses x) of
        Ok ids \<Rightarrow> iter_pids fill Map.empty [] bootTime (map (\<lambda>pid. int (unat pid)) ids)
      | Err err \<Rightarrow> (Err err, bootTime)
      | Panic \<Rightarrow> (Panic, bootTime))"

interpretation windows: os_process "GetInfoForPidWindows x" "FillPidMetricsWindows F x" for x F
proof unfold_locales
  show "GetInfoForPidWindows x pid = Ok p \<Longrightarrow> ps_Pid p = Some pid" for pid p
    by (auto simp: GetInfoForPidWindows_def go_outcome)
  show "FillPidMetricsWindows F x pid p filt bt = (Ok q, bt') \<Longrightarrow>
      (ps_Name q, ps_State q, ps_Pid q, ps_Cgroup q) = (ps_Name p, ps_State p, ps_Pid p, ps_Cgroup p)" for pid p filt bt q bt'
    by (auto simp: FillPidMetricsWindows_def go_outcome)
qed

definition pidFillWindows ::
  "('h, 'b, 'u, 't, 's) win_env \<Rightarrow> proc_env \<Rightarrow> Stats \<Rightarrow> int \<Rightarrow> u64 \<Rightarrow> (ProcState \<times> bool) outcome \<times> u64" where
  "pidFillWindows x e st pid bootTime =
     fill_pid (GetInfoForPidWindows x) (FillPidMetricsWindows (pe_format_time e) x) e st pid True bootTime"

lemma FetchPidsWindows_agree:
  assumes "wi_EnumProcesses x = Ok ids" "distinct ids"
    and "FetchPidsWindows (pidFillWindows x e st) x bt = (Ok (m, l), bt')"
  shows "agree m l \<and> list_all (accepted st True) l \<and> (\<exists>ks. map ps_Pid l = map Some ks \<and> subseq ks (map (\<lambda>pid. int (unat pid)) ids))"
proof -
  have i: "iter_pids (pidFillWindows x e st) Map.empty [] bt (map (\<lambda>pid. int (unat pid)) ids) = (Ok (m, l), bt')"
    using assms(1,3) by (simp add: FetchPidsWindows_def)
  have d: "distinct (map (\<lambda>pid. int (unat pid)) ids)"
    using assms(2) unfolding distinct_map inj_on_def of_nat_eq_iff unsigned_word_eqI[symmetric] by (auto intro: unsigned_word_eqI)
  from iter_pids_agree[OF _ i, of "accepted st True"]
  have "agree m l \<and> (\<exists>new. l = [] @ new \<and> list_all (accepted st True) new \<and>
      (\<exists>ks. map ps_Pid new = map Some ks \<and> subseq ks (map (\<lambda>pid. int (unat pid)) ids)))"
    using windows.fill_pid_basic d by (fastforce simp: pidFillWindows_def agree_def)
  then show ?thesis by auto
qed

section \<open>Names\<close>

lemma filepath_Base_device:
  assumes "name \<noteq> []" "list_all (\<lambda>c. \<not> is_sep c) name"
  shows "filepath_Base (CHR 0x5C # ''Device'' @ CHR 0x5C # dir @ CHR 0x5C # name) = name"
proof -
  let ?p = "CHR 0x5C # ''Device'' @ CHR 0x5C # dir @ CHR 0x5C # name"
  have n: "\<not> is_sep c" if "c \<in> set name" for c using assms(2) that by (simp add: list_all_iff)
  have r: "rev ?p = rev name @ CHR 0x5C # rev (CHR 0x5C # ''Device'' @ CHR 0x5C # dir)" by simp
  have "\<not> is_sep (hd (rev name))" using n[of "hd (rev name)"] assms(1) by (simp add: hd_rev)
  then have "dropWhile is_sep (rev ?p) = rev ?p"
    unfolding r using assms(1) by (cases "rev name") simp_all
  then have "rev (dropWhile is_sep (rev ?p)) = ?p" by simp
  moreover have "volumeNameLen ?p = 0" by (simp add: volumeNameLen_def is_sep_def is_letter_def code_def)
  moreover have "takeWhile (\<lambda>c. \<not> is_sep c) (rev ?p) = rev name"
    unfolding r using n by (subst takeWhile_append2) (auto simp: is_sep_def)
  ultimately show ?thesis using assms(1) by (simp add: filepath_Base_def Let_def)
qed

text \<open>
  On Windows the name of a process is the last element of the path of its image, which
  \<open>GetProcessImageFileName\<close> returns as the path of a device; it is running while its exit
  code is the one of an active process.
\<close>

theorem GetInfoForPidWindows_image:
  assumes "wi_OpenProcess x (wi_PROCESS_QUERY_LIMITED_INFORMATION x) (word_of_int pid) = Ok h"
    and "wi_GetProcessImageFileName x h = Ok (CHR 0x5C # ''Device'' @ CHR 0x5C # dir @ CHR 0x5C # name)"
    and "name \<noteq> []" "list_all (\<lambda>c. \<not> is_sep c) name" "wi_GetExitCodeProcess x h = Ok exit_code"
  shows "GetInfoForPidWindows x pid =
    Ok (zeroProcState\<lparr>ps_Name := name, ps_Pid := Some pid, ps_State := (if exit_code = 259 then ''running'' else ''sleeping'')\<rparr>)"
  using assms(1,2,5) filepath_Base_device[OF assms(3,4)]
  by (simp add: GetInfoForPidWindows_def getProcName_def getPidStatus_def open_process_def)


definition one_windows :: "(unit, unit, unit, unit, unit) win_env" where
  "one_windows =
     \<lparr>wi_EnumProcesses = Ok [4], wi_OpenProcess = (\<lambda>_ _. Ok ()), wi_NtQueryProcessBasicInformation = (\<lambda>_. Ok ()),
      wi_InheritedFromUniqueProcessID = (\<lambda>_. 1), wi_GetUserProcessParams = (\<lambda>_ _. Ok ()),
      wi_ReadProcessUnicodeString = (\<lambda>_ _. Ok []), wi_ByteSliceToStringSlice = (\<lambda>_. Ok [''notepad'']),
      wi_GetProcessTimes = (\<lambda>_. Ok \<lparr>wt_Creation = 0, wt_Kernel = 0, wt_User = 0\<rparr>), wi_FiletimeToDuration = (\<lambda>_. 0),
      wi_GetProcessMemoryInfo = (\<lambda>_. Ok (0, 0)),
      wi_GetProcessImageFileName = (\<lambda>_. Ok (CHR 0x5C # ''Device'' @ CHR 0x5C # ''C'' @ CHR 0x5C # ''notepad.exe'')),
      wi_GetExitCodeProcess = (\<lambda>_. Ok 259), wi_OpenProcessToken = (\<lambda>_. Ok ()), wi_GetTokenUser = (\<lambda>_. Ok ()),
      wi_LookupAccount = (\<lambda>_. Ok (''me'', ''here'')), wi_SidString = (\<lambda>_. Ok []),
      wi_PROCESS_QUERY_LIMITED_INFORMATION = 0x1000, wi_PROCESS_VM_READ = 0x10, wi_PROCESS_QUERY_INFORMATION = 0x400\<rparr>"

theorem GetInfoForPidWindows_image_witness:
  "GetInfoForPidWindows one_windows 4 = Ok (zeroProcState\<lparr>ps_Name := ''notepad.exe'', ps_Pid := Some 4, ps_State := ''running''\<rparr>)"
  by (subst GetInfoForPidWindows_image[where h = "()" and dir = "''C''" and name = "''notepad.exe''" and exit_code = 259])
    (simp_all add: one_windows_def is_sep_def)

end
