(* ===== verification/Filesystem_Windows.thy ===== *)
theory Filesystem_Windows
  imports Filesystem_Other Process_Windows
begin

text \<open>
  \<open>GetFilesystems\<close> on Windows: the shared code of \<open>filesystem.go\<close> over the drives and access
  paths of \<open>filesystem_windows.go\<close>. What differs from Unix is \<open>filepath.IsAbs\<close>, which is
  modelled here, and that a device is not looked up. Proved: every access path with a type
  that passes the filter is listed exactly once.
\<close>

section \<open>Absolute paths of Windows\<close>

text \<open>Names of devices are absolute whatever their case; a path is after its volume name.\<close>

definition reservedNames :: "string list" where
  "reservedNames = [''CON'', ''PRN'', ''AUX'', ''NUL'', ''COM1'', ''COM2'', ''COM3'', ''COM4'', ''COM5'', ''COM6'', ''COM7'',
     ''COM8'', ''COM9'', ''LPT1'', ''LPT2'', ''LPT3'', ''LPT4'', ''LPT5'', ''LPT6'', ''LPT7'', ''LPT8'', ''LPT9'']"

definition upper_letter :: "char \<Rightarrow> nat" where
  "upper_letter c = (if 97 \<le> code c \<and> code c \<le> 122 then code c - 32 else code c)"

definition isReservedName :: "string \<Rightarrow> bool" where
  "isReservedName path =
     (path \<noteq> [] \<and> list_ex (\<lambda>reserved. map upper_letter path = map upper_letter reserved) reservedNames)"

definition windows_IsAbs :: "string \<Rightarrow> bool" where
  "windows_IsAbs path =
     (if isReservedName path then True
      else
        let l = volumeNameLen path in
        if l = 0 then False
        else if is_sep (path ! 0) \<and> is_sep (path ! 1) then True
        else
          let path = drop l path in
          if path = [] then False else is_sep (path ! 0))"

section \<open>Listing\<close>

text \<open>\<open>filterDuplicates\<close> over the test for absolute paths.\<close>

fun dup_loop_on ::
  "(string \<Rightarrow> bool) \<Rightarrow> (string \<rightharpoonup> FSStat) \<Rightarrow> FSStat list \<Rightarrow> FSStat list \<Rightarrow> (string \<rightharpoonup> FSStat) \<times> FSStat list" where
  "dup_loop_on IsAbs devices filtered [] = (devices, filtered)"
| "dup_loop_on IsAbs devices filtered (fs # rest) =
     (if \<not> IsAbs (fs_Device fs) then dup_loop_on IsAbs devices (filtered @ [fs]) rest
      else case devices (fs_Device fs) of
        Some seen \<Rightarrow>
          dup_loop_on IsAbs (if length (fs_Directory fs) < length (fs_Directory seen)
                    then devices(fs_Device fs \<mapsto> fs) else devices) filtered rest
      | None \<Rightarrow> dup_loop_on IsAbs (devices(fs_Device fs \<mapsto> fs)) filtered rest)"

definition filterDuplicates_on ::
  "(string \<Rightarrow> bool) \<Rightarrow> ((string \<rightharpoonup> FSStat) \<Rightarrow> string list) \<Rightarrow> FSStat list \<Rightarrow> FSStat list" where
  "filterDuplicates_on IsAbs order fsList =
     (case dup_loop_on IsAbs Map.empty [] fsList of
        (devices, filtered) \<Rightarrow> filtered @ map (\<lambda>k. the (devices k)) (order devices))"

text \<open>The device of a mount is not looked up on Windows.\<close>

definition avoidFileSystem_windows :: "FSStat \<Rightarrow> bool" where
  "avoidFileSystem_windows fs =
     (if \<not> windows_IsAbs (fs_Directory fs) then False
      else if \<not> windows_IsAbs (fs_Device fs) then True
      else True)"

definition GetFilesystems_windows ::
  "((string \<rightharpoonup> FSStat) \<Rightarrow> string list) \<Rightarrow> string list outcome \<Rightarrow> (string \<Rightarrow> string outcome) \<Rightarrow> os_env \<Rightarrow> resolver \<Rightarrow>
     (FSStat \<Rightarrow> bool) option \<Rightarrow> FSStat list outcome" where
  "GetFilesystems_windows order GetAccessPaths GetFilesystemType w hostfs filter_opt =
     (let filt = (case filter_opt of None \<Rightarrow> buildDefaultFilters w hostfs | Some f \<Rightarrow> f);
          filterFunc = (\<lambda>fs. avoidFileSystem_windows fs \<and> filt fs)
      in and_then (wrap_err ''error reading mounts'' (parseMounts_windows GetAccessPaths GetFilesystemType filterFunc))
           (\<lambda>mounts. Ok (filterDuplicates_on windows_IsAbs order mounts)))"

text \<open>Over the test of Unix it is the function of the theory Filesystem.\<close>

lemma dup_loop_on_unix: "dup_loop_on path_IsAbs devices filtered l = dup_loop devices filtered l"
  by (induction l arbitrary: devices filtered) (auto split: option.splits)

lemma filterDuplicates_on_unix: "filterDuplicates_on path_IsAbs = filterDuplicates"
  by (intro ext) (simp add: filterDuplicates_on_def filterDuplicates_def dup_loop_on_unix)

section \<open>Every drive once\<close>

text \<open>The entry of an access path.\<close>

definition drive_entry :: "(string \<Rightarrow> string outcome) \<Rightarrow> string \<Rightarrow> FSStat" where
  "drive_entry ty d = new_FSStat d d (case ty d of Ok t \<Rightarrow> t | _ \<Rightarrow> []) []"

lemma drive_entry_fields [simp]: "fs_Device (drive_entry ty d) = d" "fs_Directory (drive_entry ty d) = d"
  "fs_Type (drive_entry ty d) = (case ty d of Ok t \<Rightarrow> t | _ \<Rightarrow> [])"
  by (simp_all add: drive_entry_def new_FSStat_def)

lemma dup_loop_drives:
  assumes "list_all IsAbs ds" "\<And>d fs. devices d = Some fs \<Longrightarrow> fs = drive_entry ty d"
  shows "dup_loop_on IsAbs devices filtered (map (drive_entry ty) ds) =
    (\<lambda>d. if d \<in> dom devices \<union> set ds then Some (drive_entry ty d) else None, filtered)"
  using assms
proof (induction ds arbitrary: devices)
  case Nil
  have "devices = (\<lambda>d. if d \<in> dom devices then Some (drive_entry ty d) else None)"
  proof (rule ext)
    show "devices d = (if d \<in> dom devices then Some (drive_entry ty d) else None)" for d
      using Nil.prems(2) by (cases "devices d") auto
  qed
  then show ?case by simp
next
  case (Cons d ds)
  have abs: "IsAbs d" "list_all IsAbs ds" using Cons.prems(1) by simp_all
  show ?case
  proof (cases "devices d")
    case None
    have IH: "dup_loop_on IsAbs (devices(d \<mapsto> drive_entry ty d)) filtered (map (drive_entry ty) ds) =
        (\<lambda>k. if k \<in> dom (devices(d \<mapsto> drive_entry ty d)) \<union> set ds then Some (drive_entry ty k) else None, filtered)"
    proof (rule Cons.IH[OF abs(2)])
      show "fs = drive_entry ty k" if "(devices(d \<mapsto> drive_entry ty d)) k = Some fs" for k fs
        using that Cons.prems(2) by (cases "k = d") auto
    qed
    have step: "dup_loop_on IsAbs devices filtered (map (drive_entry ty) (d # ds)) =
        dup_loop_on IsAbs (devices(d \<mapsto> drive_entry ty d)) filtered (map (drive_entry ty) ds)"
      using abs(1) None by simp
    show ?thesis unfolding step IH by (auto intro!: ext)
  next
    case (Some fs)
    then have "fs = drive_entry ty d" using Cons.prems(2) by blast
    then show ?thesis using Cons.IH[OF abs(2) Cons.prems(2)] abs(1) Some by (auto intro!: ext)
  qed
qed

text \<open>
  C26. On Windows \<open>GetFilesystems\<close> lists every access path that is an absolute path, has a
  type and passes the filter, exactly once even when the system names it more than once,
  and nothing else, in whatever order the map of devices is visited.
\<close>

theorem GetFilesystems_windows_exact:
  assumes "range_order order" "\<And>d. d \<in> set drives \<Longrightarrow> \<exists>t. ty d = Ok t"
  shows "\<exists>fss. GetFilesystems_windows order (Ok drives) ty w r filt = Ok fss \<and> distinct (map fs_Directory fss) \<and>
    set fss = drive_entry ty ` {d \<in> set drives. ty d \<noteq> Ok [] \<and> windows_IsAbs d \<and>
      (case filt of None \<Rightarrow> buildDefaultFilters w r | Some f \<Rightarrow> f) (drive_entry ty d)}"
proof -
  define f where "f = (case filt of None \<Rightarrow> buildDefaultFilters w r | Some f \<Rightarrow> f)"
  define ds where "ds = filter (\<lambda>d. ty d \<noteq> Ok [] \<and> windows_IsAbs d \<and> f (drive_entry ty d)) drives"
  define m where "m = (\<lambda>d. if d \<in> set ds then Some (drive_entry ty d) else None)"
  have find: "List.find (\<lambda>d. \<forall>t. ty d \<noteq> Ok t) drives = None"
    using assms(2) by (auto simp: find_None_iff)
  have t: "fs_Type (drive_entry ty d) \<noteq> [] \<longleftrightarrow> ty d \<noteq> Ok []" if "d \<in> set drives" for d
    using assms(2)[OF that] by auto
  have "filter (\<lambda>fs. fs_Type fs \<noteq> [] \<and> avoidFileSystem_windows fs \<and> f fs) (map (drive_entry ty) drives) = map (drive_entry ty) ds"
    unfolding ds_def filter_map comp_def using t
    by (intro arg_cong[of _ _ "map (drive_entry ty)"] filter_cong) (auto simp: avoidFileSystem_windows_def)
  then have "parseMounts_windows (Ok drives) ty (\<lambda>fs. avoidFileSystem_windows fs \<and> f fs) = Ok (map (drive_entry ty) ds)"
    by (simp add: parseMounts_windows_def drives_loop_eq find drive_entry_def[symmetric])
  moreover have "dup_loop_on windows_IsAbs Map.empty [] (map (drive_entry ty) ds) = (m, [])"
    using dup_loop_drives[of windows_IsAbs ds Map.empty ty "[]"] by (simp add: m_def ds_def list_all_iff)
  ultimately have g: "GetFilesystems_windows order (Ok drives) ty w r filt = Ok (map (\<lambda>k. the (m k)) (order m))"
    by (simp add: GetFilesystems_windows_def filterDuplicates_on_def f_def[symmetric])
  have dom: "dom m = set ds" by (auto simp: m_def split: if_splits)
  have o': "distinct (order m)" "set (order m) = set ds"
    using assms(1) dom by (simp_all add: range_order_def iterates_def)
  have e: "map (\<lambda>k. the (m k)) (order m) = map (drive_entry ty) (order m)"
    using o'(2) by (simp add: m_def)
  have "distinct (map fs_Directory (map (drive_entry ty) (order m)))" using o'(1) by (simp add: comp_def)
  moreover have "set (map (drive_entry ty) (order m)) = drive_entry ty ` set ds" using o'(2) by simp
  ultimately show ?thesis using g e unfolding ds_def f_def by auto
qed

theorem GetFilesystems_windows_exact_witness:
  "windows_IsAbs (''C:'' @ [CHR 0x5C]) \<and> (\<exists>fss. GetFilesystems_windows sorted_keys (Ok [''C:'' @ [CHR 0x5C], ''D:'' @ [CHR 0x5C], ''C:'' @ [CHR 0x5C]])
      (\<lambda>d. Ok (if d = ''C:'' @ [CHR 0x5C] then ''NTFS'' else [])) (files_env []) host_root (Some (\<lambda>_. True)) = Ok fss \<and>
     distinct (map fs_Directory fss) \<and> map fs_Directory fss = [''C:'' @ [CHR 0x5C]])"
proof -
  let ?c = "''C:'' @ [CHR 0x5C]" and ?d = "''D:'' @ [CHR 0x5C]"
  let ?ty = "\<lambda>d. Ok (if d = ?c then ''NTFS'' else [])"
  have abs: "windows_IsAbs ?c"
    by (simp add: windows_IsAbs_def isReservedName_def reservedNames_def volumeNameLen_def is_sep_def is_letter_def code_def)
  obtain fss where fss: "GetFilesystems_windows sorted_keys (Ok [?c, ?d, ?c]) ?ty (files_env []) host_root (Some (\<lambda>_. True)) = Ok fss"
    "distinct (map fs_Directory fss)"
    "set fss = drive_entry ?ty ` {d \<in> set [?c, ?d, ?c]. ?ty d \<noteq> Ok [] \<and> windows_IsAbs d}"
    using GetFilesystems_windows_exact[OF range_order_sorted, of "[?c, ?d, ?c]" ?ty "files_env []" host_root "Some (\<lambda>_. True)"]
    by auto
  have "{d \<in> set [?c, ?d, ?c]. ?ty d \<noteq> Ok [] \<and> windows_IsAbs d} = {?c}" using abs by auto
  then have "fs_Directory ` set fss = {?c}" using fss(3) by simp
  then have "set (map fs_Directory fss) = set [?c]" by simp
  then have "mset (map fs_Directory fss) = mset [?c]"
    using set_eq_iff_mset_eq_distinct[OF fss(2), of "[?c]"] by simp
  then have "mset (map fs_Directory fss) = {#?c#}" by simp
  then have "map fs_Directory fss = [?c]" by (simp only: mset_single_iff)
  then show ?thesis using abs fss(1,2) by (intro conjI exI[of _ fss])
qed

end
