(* ===== verification/Collector.thy ===== *)
theory Collector
  imports Process
begin

text \<open>
  The life of a collector (\<open>Stats\<close>): what a client can do with one between \<open>Init\<close> and the
  end of the program is a step relation over the collector and the boot time, which is a
  variable of the package that every collector shares. Proved: the type invariant of the
  table of processes, that the configuration never changes, that the nil dereferences of
  the percentages are out of reach, and that a plain listing always returns.
\<close>

section \<open>Steps\<close>

text \<open>
  Every step has an environment of its own: files and clocks change between two calls.
  \<open>other\<close> is another collector of the same program, which may set the boot time.
\<close>

inductive collector_step :: "(ProcState \<Rightarrow> 'm outcome) \<Rightarrow> Stats \<times> u64 \<Rightarrow> Stats \<times> u64 \<Rightarrow> bool"
  for Convert :: "ProcState \<Rightarrow> 'm outcome" where
  get: "Get Convert e st bt = (r, st', bt') \<Longrightarrow> collector_step Convert (st, bt) (st', bt')"
| get_one: "GetOne Convert e st pid bt = (q, st', bt') \<Longrightarrow> collector_step Convert (st, bt) (st', bt')"
| get_self: "GetSelf e st bt = (s, st', bt') \<Longrightarrow> collector_step Convert (st, bt) (st', bt')"
| other: "bt = 0 \<Longrightarrow> collector_step Convert (st, bt) (st, bt')"

inductive collector_reaches :: "(ProcState \<Rightarrow> 'm outcome) \<Rightarrow> Stats \<times> u64 \<Rightarrow> Stats \<times> u64 \<Rightarrow> bool"
  for Convert :: "ProcState \<Rightarrow> 'm outcome" and s :: "Stats \<times> u64" where
  start: "collector_reaches Convert s s"
| step: "collector_reaches Convert s t \<Longrightarrow> collector_step Convert t u \<Longrightarrow> collector_reaches Convert s u"

inductive_cases collector_stepE [consumes 1, case_names get get_one get_self other]:
  "collector_step Convert (st, bt) (st', bt')"

text \<open>The pairs of collector and boot time a client can see after a successful \<open>Init\<close> of \<open>cfg\<close>.\<close>

definition collector_run :: "(ProcState \<Rightarrow> 'm outcome) \<Rightarrow> Stats \<Rightarrow> Stats \<Rightarrow> Stats \<times> u64 \<Rightarrow> bool" where
  "collector_run Convert cfg st0 s \<longleftrightarrow>
     (\<exists>e bt. Init e cfg = (st0, Ok ()) \<and> collector_reaches Convert (st0, bt) s)"

section \<open>The type of the table\<close>

fun proper_cgroup :: "CGStats \<Rightarrow> bool" where
  "proper_cgroup (OfV1 None) = False"
| "proper_cgroup (OfV2 None) = False"
| "proper_cgroup _ = True"

definition typed_entry :: "int \<Rightarrow> ProcState \<Rightarrow> bool" where
  "typed_entry pid p \<longleftrightarrow> ps_Pid p = Some pid \<and> proper_cgroup (ps_Cgroup p)"

definition typed_map :: "ProcsMap \<Rightarrow> bool" where
  "typed_map m \<longleftrightarrow> (\<forall>pid p. m pid = Some p \<longrightarrow> typed_entry pid p)"

lemma typed_mapI [intro]: "(\<And>pid p. m pid = Some p \<Longrightarrow> typed_entry pid p) \<Longrightarrow> typed_map m"
  by (simp add: typed_map_def)

lemma typed_mapD: "typed_map m \<Longrightarrow> m pid = Some p \<Longrightarrow> typed_entry pid p"
  by (simp add: typed_map_def)

lemma typed_map_empty [simp]: "typed_map Map.empty"
  by auto

lemma typed_map_upd [intro]: "typed_map m \<Longrightarrow> typed_entry pid p \<Longrightarrow> typed_map (m(pid \<mapsto> p))"
  unfolding typed_map_def by auto

lemma GetStatsForPid_proper: "GetStatsForPid e r pid = Ok s \<Longrightarrow> \<exists>x y. s = OfV1 (Some x) \<or> s = OfV2 (Some y)"
  by (auto simp: GetStatsForPid_def go_outcome split: if_splits)

lemma FillPercentagesV1_Some: "FillPercentagesV1 w n (Some a) prev td = Ok x \<Longrightarrow> x \<noteq> None"
  by (auto simp: FillPercentagesV1_def Let_def and_then_Ok_iff split: if_splits CGStats.splits option.splits)

lemma FillPercentagesV2_Some: "FillPercentagesV2 w n (Some a) prev td = Ok x \<Longrightarrow> x \<noteq> None"
  by (auto simp: FillPercentagesV2_def Let_def and_then_Ok_iff split: if_splits CGStats.splits option.splits)

lemma FillPercentages_proper:
  assumes "FillPercentages w n s prev t u = Ok s'" "proper_cgroup s"
  shows "proper_cgroup s'"
  using assms FillPercentagesV1_Some FillPercentagesV2_Some
  by (cases s rule: proper_cgroup.cases) (fastforce simp: FillPercentages_def and_then_Ok_iff)+

lemma FillPercentages_safe:
  assumes "\<exists>x y. s = OfV1 (Some x) \<or> s = OfV2 (Some y)" "proper_cgroup prev"
  shows "FillPercentages w n s prev t u \<noteq> Panic"
proof -
  have "CGVersion prev \<noteq> Panic" if "prev \<noteq> NilStats"
    using assms(2) that by (cases prev rule: proper_cgroup.cases) auto
  then show ?thesis
    using assms(1) by (auto simp: FillPercentages_def FillPercentagesV1_def FillPercentagesV2_def Let_def go_outcome
        split: CGStats.splits option.splits if_splits)
qed

lemma cgroup_data_proper:
  assumes "cgroup_data e st prev p = Ok q" "proper_cgroup (ps_Cgroup p)"
  shows "proper_cgroup (ps_Cgroup q)"
proof (cases "st_EnableCgroups st")
  case True
  then obtain r s where s: "GetStatsForPid (pe_cg e) r (valueOr 0 (ps_Pid p)) = Ok s"
    and q: "(case prev of None \<Rightarrow> Ok (p\<lparr>ps_Cgroup := s\<rparr>)
      | Some l \<Rightarrow> and_then (FillPercentages (pe_os e) (pe_NumCPU e) s (ps_Cgroup l) (ps_SampleTime p) (ps_SampleTime l))
          (\<lambda>s. Ok (p\<lparr>ps_Cgroup := s\<rparr>))) = Ok q"
    using assms(1) by (auto simp: cgroup_data_def go_outcome split: option.splits)
  have ps: "proper_cgroup s" using GetStatsForPid_proper[OF s] by auto
  show ?thesis
    using q ps by (auto simp: go_outcome split: option.splits intro: FillPercentages_proper[OF _ ps])
qed (use assms in \<open>simp add: cgroup_data_def\<close>)


lemma cgroup_data_safe:
  assumes "st_EnableCgroups st \<Longrightarrow> \<exists>r. st_cgroups st = Some r \<and> GetStatsForPid (pe_cg e) r (valueOr 0 (ps_Pid p)) \<noteq> Panic"
    and "\<And>l. prev = Some l \<Longrightarrow> proper_cgroup (ps_Cgroup l)"
  shows "cgroup_data e st prev p \<noteq> Panic"
proof (cases "st_EnableCgroups st")
  case True
  then obtain r where r: "st_cgroups st = Some r" "GetStatsForPid (pe_cg e) r (valueOr 0 (ps_Pid p)) \<noteq> Panic"
    using assms(1) by blast
  then show ?thesis
    using True assms(2) FillPercentages_safe[OF GetStatsForPid_proper]
    by (auto simp: cgroup_data_def go_outcome split: option.splits)
qed (simp add: cgroup_data_def)

lemma GetProcCPUPercentage_same [simp]:
  "ps_Pid (GetProcCPUPercentage w n s0 s1) = ps_Pid s1" "ps_Cgroup (GetProcCPUPercentage w n s0 s1) = ps_Cgroup s1"
  by (subst GetProcCPUPercentage_keeps, simp)+

lemma cpu_network_same [simp]:
  "ps_Pid (cpu_value p) = ps_Pid p" "ps_Cgroup (cpu_value p) = ps_Cgroup p"
  "ps_Pid (network_data e st pid p) = ps_Pid p" "ps_Cgroup (network_data e st pid p) = ps_Cgroup p"
  by (simp_all add: cpu_value_def network_data_def split: option.splits)

lemma post_fill_proper:
  assumes "post_fill e st pid p = Ok q" "proper_cgroup (ps_Cgroup p)"
  shows "proper_cgroup (ps_Cgroup q)"
proof -
  let ?p = "p\<lparr>ps_Cmdline := shown_cmdline p, ps_SampleTime := pe_now e pid\<rparr>"
  obtain prev s where s: "cgroup_data e st prev ?p = Ok s" and q: "ps_Cgroup q = ps_Cgroup s"
    using assms(1) unfolding post_fill_def Let_def and_then_Ok_iff by (auto split: option.splits)
  show ?thesis using cgroup_data_proper[OF s] assms(2) q by simp
qed

text \<open>Whatever the operating system, what is filled is typed, if its basic facts have no nil pointer.\<close>

context os_process begin

lemma fill_pid_typed:
  assumes "fill_pid info metrics e st pid filt bt = (Ok (p, saved), bt')"
    and "\<And>q. info pid = Ok q \<Longrightarrow> proper_cgroup (ps_Cgroup q)"
  shows "typed_entry pid p"
proof -
  obtain q where q: "info pid = Ok q" "proper_cgroup (ps_Cgroup q)"
    using assms by (cases "info pid") (auto simp: fill_pid_def)
  have "proper_cgroup (ps_Cgroup p)"
  proof (cases "st_skipExtended st")
    case True
    then show ?thesis using assms(1) q by (auto simp: fill_pid_def)
  next
    case False
    obtain c where c: "cacheCmdLine st q = Ok c"
      using assms(1) q False by (cases "cacheCmdLine st q") (auto simp: fill_pid_def)
    have pc: "proper_cgroup (ps_Cgroup c)" using cacheCmdLine_keeps[OF c] q(2) by auto
    show ?thesis
    proof (cases "filt \<and> \<not> matchProcess st (ps_Name c)")
      case True
      then show ?thesis using assms(1) q False c pc by (auto simp: fill_pid_def)
    next
      case no: False
      obtain m where m: "metrics pid c (Some (isWhitelistedEnvVar st)) bt = (Ok m, bt')" "post_fill e st pid m = Ok p"
        using assms(1) q False c no by (auto simp: fill_pid_def go_outcome split: prod.splits)
      then show ?thesis using post_fill_proper[OF m(2)] metrics_same[OF m(1)] pc by simp
    qed
  qed
  then show ?thesis using fill_pid_basic[OF assms(1)] by (simp add: typed_entry_def)
qed

end

lemma zero_Cgroup [simp]: "ps_Cgroup zeroProcState = NilStats"
  by (simp add: zeroProcState_def)

lemma GetInfoForPid_Cgroup: "GetInfoForPid w hostfs pid = Ok p \<Longrightarrow> ps_Cgroup p = NilStats"
  by (auto simp: GetInfoForPid_def Let_def go_outcome split: outcome.splits option.splits if_splits prod.splits)

lemma pidFill_typed: "pidFill e st pid filt bt = (Ok (p, saved), bt') \<Longrightarrow> typed_entry pid p"
proof -
  assume f: "pidFill e st pid filt bt = (Ok (p, saved), bt')"
  then obtain h where "fill_pid (GetInfoForPid (pe_os e) h) (FillPidMetrics (pe_SumOptUint e) (pe_format_time e) (pe_os e) h)
      e st pid filt bt = (Ok (p, saved), bt')"
    by (auto simp: pidFill_def split: option.splits)
  then show "typed_entry pid p" using linux.fill_pid_typed GetInfoForPid_Cgroup by (metis proper_cgroup.simps(3))
qed

lemma fetch_names_typed:
  "fetch_names e st m l bt names = (Ok (m', l'), bt') \<Longrightarrow> typed_map m \<Longrightarrow> typed_map m'"
proof (induction names arbitrary: m l bt)
  case (Cons n ns)
  have it: "typed_map m1" if "pidIter e st pid m l bt = (Ok (m1, l1), bt1)" for pid m1 l1 bt1
    using keep_filled_cases[OF that[unfolded pidIter_def]] Cons.prems(2) pidFill_typed by blast
  show ?case
    using Cons it by (auto split: outcome.splits bool.splits prod.splits)
qed simp

lemma FetchPids_typed: "FetchPids e st bt = (Ok (m, l), bt') \<Longrightarrow> typed_map m"
  by (auto simp: FetchPids_def split: option.splits outcome.splits dest: fetch_names_typed)


section \<open>What every step keeps\<close>

lemma SetPid_Ok: "SetPid (Some t) pid p = Ok (Some (t\<lparr>pids := (pids t)(pid \<mapsto> p)\<rparr>))"
  by (simp add: SetPid_def)

lemma set_filled_table:
  assumes "set_filled st pid r = (q, st')" "st_ProcsMap st = Some t" "typed_map (pids t)"
    and "\<And>p saved. r = Ok (p, saved) \<Longrightarrow> typed_entry pid p"
  shows "\<exists>t'. st' = st\<lparr>st_ProcsMap := Some t'\<rparr> \<and> typed_map (pids t')"
proof (cases r)
  case (Ok x)
  then obtain p saved where x: "x = (p, saved)" by (cases x)
  then have "st' = st\<lparr>st_ProcsMap := Some (t\<lparr>pids := (pids t)(pid \<mapsto> p)\<rparr>)\<rparr>"
    using assms(1,2) Ok by (auto simp: set_filled_def SetPid_Ok)
  then show ?thesis using assms(3,4) Ok x by (intro exI[of _ "t\<lparr>pids := (pids t)(pid \<mapsto> p)\<rparr>"]) auto
next
  case (Err err)
  then have "st' = st" using assms(1) by (simp add: set_filled_def)
  then show ?thesis using assms(2,3) by (intro exI[of _ t]) simp
next
  case Panic
  then have "st' = st" using assms(1) by (simp add: set_filled_def)
  then show ?thesis using assms(2,3) by (intro exI[of _ t]) simp
qed

lemma Get_table:
  assumes "Get Convert e st bt = (r, st', bt')" "st_ProcsMap st = Some t" "typed_map (pids t)"
  shows "\<exists>t'. st' = st\<lparr>st_ProcsMap := Some t'\<rparr> \<and> typed_map (pids t')"
proof -
  have keep: "\<exists>t'. st = st\<lparr>st_ProcsMap := Some t'\<rparr> \<and> typed_map (pids t')"
    using assms(2,3) by (intro exI[of _ t]) simp
  show ?thesis
  proof (cases "length (st_Procs st) = 0")
    case True
    then show ?thesis using assms(1) keep by (simp add: Get_def)
  next
    case False
    show ?thesis
    proof (cases "FetchPids e st bt")
      case (Pair f bt1)
      show ?thesis
      proof (cases f)
        case (Ok x)
        then obtain m l where f: "f = Ok (m, l)" by (cases x) auto
        then have "st' = st\<lparr>st_ProcsMap := Some \<lparr>pids = m\<rparr>\<rparr>"
          using assms(1,2) False Pair by (auto simp: Get_def SetMap_def Let_def)
        then show ?thesis using FetchPids_typed Pair f by auto
      qed (use assms(1) False Pair keep in \<open>auto simp: Get_def\<close>)
    qed
  qed
qed

lemma fill_and_set_table:
  assumes "pidFill e st pid False bt = (r, bt')" "set_filled st pid r = (q, st')" "st_ProcsMap st = Some t" "typed_map (pids t)"
  shows "\<exists>t'. st' = st\<lparr>st_ProcsMap := Some t'\<rparr> \<and> typed_map (pids t')"
  using set_filled_table[OF assms(2-4)] pidFill_typed assms(1) by blast

lemma step_table:
  assumes "collector_step Convert (st, bt) (st', bt')" "st_ProcsMap st = Some t" "typed_map (pids t)"
  shows "\<exists>t'. st' = st\<lparr>st_ProcsMap := Some t'\<rparr> \<and> typed_map (pids t')"
  using assms(1)
proof (cases rule: collector_stepE)
  case (get e r)
  then show ?thesis using Get_table assms(2,3) by blast
next
  case (get_one e pid q)
  then show ?thesis
    using fill_and_set_table assms(2,3) by (auto simp: GetOne_def split: prod.splits)
next
  case (get_self e s)
  then show ?thesis
    using fill_and_set_table assms(2,3) by (auto simp: GetSelf_def split: prod.splits)
next
  case other
  then show ?thesis using assms(2,3) by (intro exI[of _ t]) simp
qed

lemma init_cgroups_keeps:
  assumes "init_cgroups w st = (st', r)"
  shows "st_ProcsMap st' = st_ProcsMap st \<and> st_Procs st' = st_Procs st \<and>
    (r = Ok () \<longrightarrow> st_EnableCgroups st' \<longrightarrow> st_cgroups st' \<noteq> None)"
  using assms by (auto simp: init_cgroups_def split: if_splits outcome.splits)

definition init_base :: "proc_env \<Rightarrow> Stats \<Rightarrow> Stats" where
  "init_base e st = st\<lparr>st_host := pe_Host e,
     st_Hostfs := (case st_Hostfs st of None \<Rightarrow> Some (testing_resolver (NewTestResolver ''/'')) | h \<Rightarrow> h),
     st_ProcsMap := Some NewProcsTrack\<rparr>"

lemma init_base_fields [simp]:
  "st_ProcsMap (init_base e st) = Some NewProcsTrack" "st_Procs (init_base e st) = st_Procs st"
  "st_EnvWhitelist (init_base e st) = st_EnvWhitelist st"
  by (simp_all add: init_base_def)

lemma Init_base:
  "Init e st =
     (if st_Procs st = [] then (init_base e st, Ok ())
      else case compile_patterns (pe_Compile e) ''failed to compile regexp'' [] (st_Procs st) of
        (regs, Ok ()) \<Rightarrow>
          (case compile_patterns (pe_Compile e) ''failed to compile env whitelist regexp'' [] (st_EnvWhitelist st) of
             (envs, Ok ()) \<Rightarrow> init_cgroups (pe_os e) ((init_base e st)\<lparr>st_procRegexps := regs, st_envRegexps := envs\<rparr>)
           | (envs, r) \<Rightarrow> ((init_base e st)\<lparr>st_procRegexps := regs, st_envRegexps := envs\<rparr>, r))
      | (regs, r) \<Rightarrow> ((init_base e st)\<lparr>st_procRegexps := regs\<rparr>, r))"
  unfolding Init_def Let_def init_base_def[symmetric] by (simp split: prod.splits outcome.splits)

lemma Init_table:
  assumes "Init e cfg = (st, Ok ())"
  shows "st_ProcsMap st = Some NewProcsTrack \<and>
    (st_Procs cfg \<noteq> [] \<longrightarrow> st_EnableCgroups st \<longrightarrow> st_cgroups st \<noteq> None)"
proof (cases "st_Procs cfg = []")
  case True
  then show ?thesis using assms by (auto simp: Init_base)
next
  case False
  obtain regs r where r: "compile_patterns (pe_Compile e) ''failed to compile regexp'' [] (st_Procs cfg) = (regs, r)" by fastforce
  obtain envs q where q: "compile_patterns (pe_Compile e) ''failed to compile env whitelist regexp'' [] (st_EnvWhitelist cfg) = (envs, q)"
    by fastforce
  have "r = Ok ()" using assms False r by (cases r) (auto simp: Init_base split: unit.splits)
  moreover have "q = Ok ()" using assms False r q \<open>r = Ok ()\<close> by (cases q) (auto simp: Init_base split: unit.splits)
  ultimately have "init_cgroups (pe_os e) ((init_base e cfg)\<lparr>st_procRegexps := regs, st_envRegexps := envs\<rparr>) = (st, Ok ())"
    using assms False r q by (simp add: Init_base split: unit.splits)
  from init_cgroups_keeps[OF this] show ?thesis by simp
qed

section \<open>Invariants\<close>

lemma reaches_table:
  assumes "collector_reaches Convert s t" "st_ProcsMap (fst s) = Some k" "typed_map (pids k)"
  shows "\<exists>t'. fst t = (fst s)\<lparr>st_ProcsMap := Some t'\<rparr> \<and> typed_map (pids t')"
  using assms
proof (induction rule: collector_reaches.induct)
  case start
  then show ?case by (intro exI[of _ k]) simp
next
  case (step t u)
  then obtain t' where t: "fst t = (fst s)\<lparr>st_ProcsMap := Some t'\<rparr>" "typed_map (pids t')" by blast
  obtain t'' where "fst u = (fst t)\<lparr>st_ProcsMap := Some t''\<rparr>" "typed_map (pids t'')"
    using step_table[of Convert "fst t" "snd t" "fst u" "snd u"] step.hyps(2) t by (cases t; cases u) auto
  then show ?case using t(1) by auto
qed

lemma run_table:
  assumes "collector_run Convert cfg st0 s"
  obtains t where "fst s = st0\<lparr>st_ProcsMap := Some t\<rparr>" "typed_map (pids t)"
    "st_Procs cfg \<noteq> [] \<longrightarrow> st_EnableCgroups st0 \<longrightarrow> st_cgroups st0 \<noteq> None"
proof -
  obtain e bt where i: "Init e cfg = (st0, Ok ())" and r: "collector_reaches Convert (st0, bt) s"
    using assms by (auto simp: collector_run_def)
  show ?thesis
    using reaches_table[OF r, of NewProcsTrack] Init_table[OF i] by (auto simp: NewProcsTrack_def intro: that)
qed

text \<open>The boot time: once read it stays.\<close>

lemma getLinuxBootTime_keeps: "getLinuxBootTime w h bt = (r, bt') \<Longrightarrow> bt \<noteq> 0 \<Longrightarrow> bt' = bt"
  by (simp add: getLinuxBootTime_def)

lemma getCPUTime_keeps: "getCPUTime S F w h pid bt = (r, bt') \<Longrightarrow> bt \<noteq> 0 \<Longrightarrow> bt' = bt"
  by (auto simp: getCPUTime_def Let_def split: outcome.splits prod.splits dest: getLinuxBootTime_keeps)

lemma FillPidMetrics_boot: "FillPidMetrics S F w h pid p filt bt = (r, bt') \<Longrightarrow> bt \<noteq> 0 \<Longrightarrow> bt' = bt"
  by (auto simp: FillPidMetrics_def split: outcome.splits prod.splits dest: getCPUTime_keeps)

lemma pidFill_boot: "pidFill e st pid filt bt = (r, bt') \<Longrightarrow> bt \<noteq> 0 \<Longrightarrow> bt' = bt"
  by (auto simp: pidFill_def fill_pid_def split: option.splits outcome.splits prod.splits if_splits dest: FillPidMetrics_boot)

lemma keep_filled_boot: "snd (keep_filled f pid m l) = snd f"
  by (simp add: keep_filled_def split: prod.splits outcome.splits)

lemma pidIter_boot: "pidIter e st pid m l bt = (r, bt') \<Longrightarrow> bt \<noteq> 0 \<Longrightarrow> bt' = bt"
  using keep_filled_boot[of "pidFill e st pid True bt" pid m l] pidFill_boot[of e st pid True bt]
  by (cases "pidFill e st pid True bt") (auto simp: pidIter_def)

lemma fetch_names_boot: "fetch_names e st m l bt names = (r, bt') \<Longrightarrow> bt \<noteq> 0 \<Longrightarrow> bt' = bt"
proof (induction names arbitrary: m l bt)
  case (Cons n ns)
  then show ?case by (auto split: outcome.splits bool.splits prod.splits dest: pidIter_boot)
qed simp

lemma step_boot:
  assumes "collector_step Convert (st, bt) (st', bt')" "bt \<noteq> 0"
  shows "bt' = bt"
  using assms(1)
proof (cases rule: collector_stepE)
  case (get e r)
  then show ?thesis
    using assms(2) by (auto simp: Get_def FetchPids_def Let_def split: if_splits option.splits outcome.splits prod.splits
        dest: fetch_names_boot)
qed (use assms(2) in \<open>auto simp: GetOne_def GetSelf_def split: prod.splits dest: pidFill_boot\<close>)

lemma reaches_boot: "collector_reaches Convert s t \<Longrightarrow> snd s \<noteq> 0 \<Longrightarrow> snd t = snd s"
proof (induction rule: collector_reaches.induct)
  case (step t u)
  then show ?case using step_boot[of Convert "fst t" "snd t" "fst u" "snd u"] by (cases t; cases u) auto
qed simp


section \<open>Properties\<close>

text \<open>
  C6. A collector that a client got from \<open>Init\<close> and used in any way since holds the
  configuration it was given and a table in which every process is filed under its own
  number, with control group statistics that are nil or point to something; and the
  package's boot time, once set, is the one set in every later state.
\<close>

theorem collector_typed:
  assumes "collector_run Convert cfg st0 (st, bt)"
  shows "\<exists>t. st = st0\<lparr>st_ProcsMap := Some t\<rparr> \<and> typed_map (pids t) \<and>
    (collector_reaches Convert (st, bt) (st', bt') \<longrightarrow>
      (\<exists>t'. st' = st0\<lparr>st_ProcsMap := Some t'\<rparr> \<and> typed_map (pids t')) \<and> (bt \<noteq> 0 \<longrightarrow> bt' = bt))"
proof -
  obtain t where t: "st = st0\<lparr>st_ProcsMap := Some t\<rparr>" "typed_map (pids t)" using run_table[OF assms] by auto
  then show ?thesis
    using reaches_table[of Convert "(st, bt)" "(st', bt')" t] reaches_boot[of Convert "(st, bt)" "(st', bt')"] by auto
qed

text \<open>
  C7. Filling a process in a collector that was initialised with patterns never
  dereferences nil: neither the collector's table, nor its control group reader, nor the
  earlier statistics of the process (which is what the guards of \<open>FillPercentages\<close> miss);
  only the readers of files can panic.
\<close>

theorem collector_no_nil:
  assumes "collector_run Convert cfg st0 (st, bt)" "st_Procs cfg \<noteq> []"
    and "\<And>r. st_cgroups st = Some r \<Longrightarrow> GetStatsForPid (pe_cg e) r (valueOr 0 (ps_Pid p)) \<noteq> Panic"
  shows "cacheCmdLine st p \<noteq> Panic \<and> post_fill e st pid p \<noteq> Panic \<and> SetMap (st_ProcsMap st) m \<noteq> Panic \<and>
    SetPid (st_ProcsMap st) pid q \<noteq> Panic"
proof -
  obtain t where t: "st = st0\<lparr>st_ProcsMap := Some t\<rparr>" "typed_map (pids t)"
    and c: "st_EnableCgroups st0 \<longrightarrow> st_cgroups st0 \<noteq> None"
    using run_table[OF assms(1)] assms(2) by auto
  have pid: "GetPid (st_ProcsMap st) k = Ok (pids t k)" for k by (simp add: GetPid_def t(1))
  let ?p = "p\<lparr>ps_Cmdline := shown_cmdline p, ps_SampleTime := pe_now e pid\<rparr>"
  have "cgroup_data e st (pids t (valueOr 0 (ps_Pid p))) ?p \<noteq> Panic"
    using c assms(3) typed_mapD[OF t(2)] t(1) by (intro cgroup_data_safe) (auto simp: typed_entry_def)
  then have "post_fill e st pid p \<noteq> Panic"
    by (auto simp: post_fill_def Let_def pid and_then_Panic_iff)
  moreover have "cacheCmdLine st p \<noteq> Panic" by (simp add: cacheCmdLine_def pid Let_def split: option.splits)
  ultimately show ?thesis by (simp add: SetMap_def SetPid_def t(1))
qed


text \<open>A system without control groups and one process pattern, for the witnesses.\<close>

definition plain_cfg :: Stats where
  "plain_cfg = (list_stats host_root)\<lparr>st_EnableCgroups := True, st_skipExtended := False\<rparr>"

definition cgroup_files :: os_env where
  "cgroup_files = files_env [(''/proc/cgroups'', []), (''/proc/self/mountinfo'', [])]"

lemma cgroup_paths [simp]:
  "ResolveHostFS host_root ''/proc/cgroups'' = ''/proc/cgroups''"
  "ResolveHostFS host_root ''/proc/self/mountinfo'' = ''/proc/self/mountinfo''"
  "ResolveHostFS host_root (path_Join [''/proc/'', itoa 42, ''cgroup'']) = ''/proc/42/cgroup''"
  by code_simp+

definition empty_reader :: Reader where
  "empty_reader = \<lparr>rd_rootfsMountpoint = host_root, rd_ignoreRootCgroups = False, rd_cgroupsHierarchyOverride = [],
     rd_cgroupMountpoints = \<lparr>V1Mounts = Map.empty, V2Loc = []\<rparr>\<rparr>"

lemma scan_empty [simp]: "scan_lines [] = []" "scan_err [] = None"
  using scan_lines_unlines[of "[]"] by (simp_all add: unlines_def)

lemma plain_reader: "NewReaderOptions cgroup_files (st_CgroupOpts (plain_cfg)) = Ok empty_reader"
  by (simp add: NewReaderOptions_def plain_cfg_def list_stats_def SupportedSubsystems_def SubsystemMountpoints_def
      os_ReadFile_def cgroup_files_def files_env_def empty_reader_def)

lemma plain_stats: "GetStatsForPid e empty_reader 42 \<noteq> Panic" if "ce_os e = cgroup_files"
  by (simp add: GetStatsForPid_def Reader_CgroupsVersion_def empty_reader_def that os_ReadFile_def cgroup_files_def files_env_def)


definition plain_st :: Stats where
  "plain_st = (init_base (snapshot_env cgroup_files) plain_cfg)
     \<lparr>st_procRegexps := [\<lambda>_. True], st_envRegexps := [], st_cgroups := Some empty_reader\<rparr>"

lemma plain_run: "Init (snapshot_env cgroup_files) plain_cfg = (plain_st, Ok ())"
proof -
  have "st_Procs plain_cfg = [''.*'']" "st_EnvWhitelist plain_cfg = []" "st_EnableCgroups plain_cfg"
    by (simp_all add: plain_cfg_def list_stats_def)
  moreover have e: "pe_Compile (snapshot_env w) = (\<lambda>_. Ok (\<lambda>_. True))" "pe_os (snapshot_env w) = w" for w
    by (simp_all add: snapshot_env_def)
  moreover have "init_cgroups cgroup_files ((init_base (snapshot_env cgroup_files) plain_cfg)\<lparr>st_procRegexps := [\<lambda>_. True], st_envRegexps := []\<rparr>) =
      (plain_st, Ok ())"
    using plain_reader \<open>st_EnableCgroups plain_cfg\<close> by (simp add: init_cgroups_def init_base_def plain_st_def)
  ultimately show ?thesis by (simp add: Init_base split: unit.splits)
qed

lemma plain_started: "collector_run Convert plain_cfg plain_st (plain_st, bt)"
  unfolding collector_run_def using plain_run collector_reaches.start by blast

theorem collector_typed_witness:
  "\<exists>t. fst (snd (GetSelf (snapshot_env (sleeping_env [''42''])) plain_st 5)) = plain_st\<lparr>st_ProcsMap := Some t\<rparr> \<and>
     typed_map (pids t)"
proof -
  obtain s st bt where g: "GetSelf (snapshot_env (sleeping_env [''42''])) plain_st 5 = (s, st, bt)"
    by (metis surj_pair)
  have "collector_run (\<lambda>p. Ok ()) plain_cfg plain_st (st, bt)"
    using plain_run collector_reaches.step[OF collector_reaches.start collector_step.get_self[OF g]]
    unfolding collector_run_def by blast
  from collector_typed[OF this, of st bt] show ?thesis unfolding g by auto
qed

theorem collector_no_nil_witness:
  "post_fill (snapshot_env cgroup_files) plain_st 42 (zeroProcState\<lparr>ps_Pid := Some 42\<rparr>) \<noteq> Panic"
proof -
  have r: "st_cgroups plain_st = Some empty_reader" by (simp add: plain_st_def)
  have p: "st_Procs plain_cfg \<noteq> []" by (simp add: plain_cfg_def list_stats_def)
  have w: "ce_os (pe_cg (snapshot_env cgroup_files)) = cgroup_files" by (simp add: snapshot_env_def)
  show ?thesis
    using collector_no_nil[OF plain_started p, of "snapshot_env cgroup_files" "zeroProcState\<lparr>ps_Pid := Some 42\<rparr>"] plain_stats[OF w] r
    by simp
qed

section \<open>A plain listing\<close>

lemma scan_int_v_safe: "scan_int_v s \<noteq> Panic"
  by (simp add: scan_int_v_def Let_def split: prod.splits)

lemma GetInfoForPid_safe: "GetInfoForPid w hostfs pid \<noteq> Panic"
  using scan_int_v_safe
  by (simp add: GetInfoForPid_def Let_def go_outcome split: outcome.splits option.splits)

text \<open>The processes whose basic facts can be read.\<close>

definition readable_states :: "os_env \<Rightarrow> resolver \<Rightarrow> int list \<Rightarrow> ProcState list" where
  "readable_states w hostfs ids =
     List.map_filter (\<lambda>pid. case GetInfoForPid w hostfs pid of Ok p \<Rightarrow> Some p | _ \<Rightarrow> None) ids"

lemma readable_states_Cons:
  "readable_states w hostfs (pid # ids) =
     (case GetInfoForPid w hostfs pid of Ok p \<Rightarrow> p # readable_states w hostfs ids | _ \<Rightarrow> readable_states w hostfs ids)"
  by (simp add: readable_states_def map_filter_simps split: outcome.splits)

lemma fetch_names_plain:
  assumes "st_skipExtended st" "st_Hostfs st = Some hostfs" "[] \<notin> set names"
  shows "\<exists>m'. fetch_names e st m l bt names = (Ok (m', l @ readable_states (pe_os e) hostfs (listed_pids names)), bt)"
  using assms(3)
proof (induction names arbitrary: m l)
  case Nil
  then show ?case by (simp add: readable_states_def map_filter_simps)
next
  case (Cons n ns)
  have d: "dirIsPid n = Ok (is_digit (hd n))" using Cons.prems by (cases n) (auto simp: dirIsPid_def)
  have rest: "\<exists>m'. fetch_names e st m1 l1 bt ns = (Ok (m', l1 @ readable_states (pe_os e) hostfs (listed_pids ns)), bt)" for m1 l1
    using Cons by simp
  show ?case
  proof (cases "pid_name n")
    case None
    then have "fetch_names e st m l bt (n # ns) = fetch_names e st m l bt ns"
      using d atoi_not_Panic by (auto simp: pid_name_def split: bool.splits if_splits outcome.splits)
    then show ?thesis using rest None by simp
  next
    case (Some pid)
    then have a: "dirIsPid n = Ok True" "atoi n = Ok pid" by (auto simp: pid_name_def split: if_splits outcome.splits)
    show ?thesis
    proof (cases "GetInfoForPid (pe_os e) hostfs pid")
      case (Ok p)
      have "pidIter e st pid m l bt = (Ok (m(pid \<mapsto> p), l @ [p]), bt)"
        using Ok assms(1,2) by (simp add: pidIter_def keep_filled_def pidFill_def fill_pid_def)
      then show ?thesis using rest[of "m(pid \<mapsto> p)" "l @ [p]"] a Some Ok by (simp add: readable_states_Cons)
    next
      case (Err err)
      have "pidIter e st pid m l bt = (Ok (m, l), bt)"
        using Err assms(1,2) by (simp add: pidIter_def keep_filled_def pidFill_def fill_pid_def)
      then show ?thesis using rest[of m l] a Some Err by (simp add: readable_states_Cons)
    next
      case Panic
      then show ?thesis using GetInfoForPid_safe by blast
    qed
  qed
qed

text \<open>
  C12. \<open>ListStates\<close> always returns when the directory of processes can be read: exactly the
  processes whose basic facts can be read at that moment, in the order of the directory. A
  process that has ended, or whose files are malformed, only drops out; the boot time is
  never asked for.
\<close>

theorem ListStates_exact:
  assumes "dir_of (pe_os e) (ResolveHostFS hostfs ''proc'') = Inr entries" "[] \<notin> set (map ent_name entries)"
    and "pe_Compile e ''.*'' = Ok reg"
  shows "ListStates e hostfs bt = (Ok (readable_states (pe_os e) hostfs (listed_pids (map ent_name entries))), bt)"
proof -
  define st where "st = (init_base e (list_stats hostfs))\<lparr>st_procRegexps := [reg], st_envRegexps := []\<rparr>"
  have f: "st_Procs (list_stats hostfs) = [''.*'']" "st_EnvWhitelist (list_stats hostfs) = []"
    "st_skipExtended st" "st_Hostfs st = Some hostfs" "\<not> st_EnableCgroups (init_base e (list_stats hostfs))"
    by (simp_all add: list_stats_def init_base_def st_def)
  have i: "Init e (list_stats hostfs) = (st, Ok ())"
    using assms(3) f by (simp add: Init_base init_cgroups_def split: unit.splits) (simp add: st_def)
  obtain m where "fetch_names e st Map.empty [] bt (map ent_name entries) =
      (Ok (m, [] @ readable_states (pe_os e) hostfs (listed_pids (map ent_name entries))), bt)"
    using fetch_names_plain[OF f(3,4) assms(2)] by blast
  then have "FetchPids e st bt = (Ok (m, readable_states (pe_os e) hostfs (listed_pids (map ent_name entries))), bt)"
    using assms(1) f(4) by (simp add: FetchPids_def os_ReadDir_def)
  then show ?thesis using i by (simp add: ListStates_def split: unit.splits)
qed

theorem ListStates_exact_witness:
  "ListStates (snapshot_env (sleeping_env [''self'', ''42''])) host_root 5 = (Ok [sleeping_process 42], 5)"
proof -
  let ?w = "sleeping_env [''self'', ''42'']"
  have w: "pe_os (snapshot_env ?w) = ?w" "pe_Compile (snapshot_env ?w) ''.*'' = Ok (\<lambda>_. True)" by (simp_all add: snapshot_env_def)
  let ?es = "map (\<lambda>n. \<lparr>ent_name = n, ent_is_dir = True\<rparr>) [''self'', ''42'']"
  have d: "dir_of (pe_os (snapshot_env ?w)) (ResolveHostFS host_root ''proc'') = Inr ?es"
    by (simp only: w) (simp add: sleeping_env_def)
  have "atoi ''42'' = Ok 42"
    by (simp add: atoi_def parse_int_def parse_uint_nat_def is_digit_def digit_val_def code_def)
  then have l: "listed_pids [''self'', ''42''] = [42]"
    by (simp add: pid_name_def dirIsPid_def is_digit_def code_def)
  have "ListStates (snapshot_env ?w) host_root 5 =
      (Ok (readable_states (pe_os (snapshot_env ?w)) host_root (listed_pids (map ent_name ?es))), 5)"
    by (rule ListStates_exact[OF d _ w(2)]) simp
  moreover have "map ent_name ?es = [''self'', ''42'']" by simp
  ultimately show ?thesis unfolding l w(1) by (simp add: l readable_states_def map_filter_simps sleeping_info del: listed_pids_simps)
qed

end
