(* ===== verification/Collector_Threads.thy ===== *)
theory Collector_Threads
  imports Collector
begin

text \<open>
  Calls on one collector from several goroutines. What they share is the table of processes,
  of which every read and write is atomic (\<open>ProcsTrack\<close> locks its mutex in \<open>GetPid\<close>, \<open>SetPid\<close>
  and \<open>SetMap\<close>), and the boot time of the package. A call is a thread that makes one access to
  them in each of its steps; threads take turns in any order and calls may start at any
  moment. Proved: a thread that runs alone does what the sequential \<open>GetOne\<close> and \<open>Get\<close> do; in
  every interleaving the table stays typed, nothing dereferences nil, and the interval over
  which percentages are taken is never negative; and every call returns after a number of
  its own steps that the directory of processes bounds.
\<close>

section \<open>Threads\<close>

text \<open>A call fills one process, or lists: the names to come, the map and the list so far.\<close>

datatype work = OneProcess | Listing "string list" ProcsMap "ProcState list"

datatype result = Stored ProcState | Listed "ProcState list" | Idle | Failed go_error | Crashed

text \<open>
  Where a call stands: before \<open>GetInfoForPid\<close>, before \<open>FillPidMetrics\<close>, before the second read
  of the table, before the write, or returned.
\<close>

datatype thread =
    Basic int work
  | Cached int work ProcState
  | Metrics int work ProcState
  | StoreOne int ProcState
  | StoreMap ProcsMap "ProcState list"
  | Finished result

abbreviation seen :: "Stats \<Rightarrow> ProcsTrack \<Rightarrow> Stats" where
  "seen st t \<equiv> st\<lparr>st_ProcsMap := Some t\<rparr>"

fun filtered :: "work \<Rightarrow> bool" where
  "filtered OneProcess = False"
| "filtered (Listing _ _ _) = True"

fun next_name :: "string list \<Rightarrow> ProcsMap \<Rightarrow> ProcState list \<Rightarrow> thread" where
  "next_name [] procMap plist = StoreMap procMap plist"
| "next_name (name # names) procMap plist =
     (case dirIsPid name of
        Ok True \<Rightarrow>
          (case atoi name of
             Ok pid \<Rightarrow> Basic pid (Listing names procMap plist)
           | _ \<Rightarrow> next_name names procMap plist)
      | Ok False \<Rightarrow> next_name names procMap plist
      | _ \<Rightarrow> Finished Crashed)"

text \<open>What the call does with the result of \<open>pidFill\<close>.\<close>

fun after_fill :: "int \<Rightarrow> work \<Rightarrow> (ProcState \<times> bool) outcome \<Rightarrow> thread" where
  "after_fill pid OneProcess r =
     (case wrap_err ''error fetching PID'' r of
        Ok (pidStat, _) \<Rightarrow> StoreOne pid pidStat
      | Err err \<Rightarrow> Finished (Failed err)
      | Panic \<Rightarrow> Finished Crashed)"
| "after_fill pid (Listing names procMap plist) r =
     (case fst (keep_filled (r, 0) pid procMap plist) of
        Ok (procMap, plist) \<Rightarrow> next_name names procMap plist
      | _ \<Rightarrow> Finished Crashed)"

definition basic_step :: "proc_env \<Rightarrow> Stats \<Rightarrow> int \<Rightarrow> work \<Rightarrow> thread" where
  "basic_step e st pid w =
     (case st_Hostfs st of
        None \<Rightarrow> Finished Crashed
      | Some hostfs \<Rightarrow>
          (case wrap_err ''GetInfoForPid'' (GetInfoForPid (pe_os e) hostfs pid) of
             Err err \<Rightarrow> after_fill pid w (Err err)
           | Panic \<Rightarrow> after_fill pid w Panic
           | Ok status \<Rightarrow>
               if st_skipExtended st then after_fill pid w (Ok (status, True))
               else
                 (case cacheCmdLine st status of
                    Err err \<Rightarrow> after_fill pid w (Err err)
                  | Panic \<Rightarrow> after_fill pid w Panic
                  | Ok status \<Rightarrow>
                      if filtered w \<and> \<not> matchProcess st (ps_Name status) then after_fill pid w (Ok (status, False))
                      else Cached pid w status)))"

definition metrics_step :: "proc_env \<Rightarrow> Stats \<Rightarrow> int \<Rightarrow> work \<Rightarrow> ProcState \<Rightarrow> u64 \<Rightarrow> thread \<times> u64" where
  "metrics_step e st pid w status bootTime =
     (case st_Hostfs st of
        None \<Rightarrow> (Finished Crashed, bootTime)
      | Some hostfs \<Rightarrow>
          (case FillPidMetrics (pe_SumOptUint e) (pe_format_time e) (pe_os e) hostfs pid status
              (Some (isWhitelistedEnvVar st)) bootTime of
             (filled, bootTime) \<Rightarrow>
               (case wrap_err ''FillPidMetrics'' filled of
                  Ok status \<Rightarrow> Metrics pid w status
                | Err err \<Rightarrow> after_fill pid w (Err err)
                | Panic \<Rightarrow> after_fill pid w Panic, bootTime)))"

fun thread_step ::
  "proc_env \<Rightarrow> Stats \<Rightarrow> thread \<times> ProcsTrack \<times> u64 \<Rightarrow> thread \<times> ProcsTrack \<times> u64" where
  "thread_step e st (Basic pid w, t, bt) = (basic_step e (seen st t) pid w, t, bt)"
| "thread_step e st (Cached pid w status, t, bt) =
     (case metrics_step e (seen st t) pid w status bt of (th, bt) \<Rightarrow> (th, t, bt))"
| "thread_step e st (Metrics pid w status, t, bt) =
     (after_fill pid w (and_then (post_fill e (seen st t) pid status) (\<lambda>status. Ok (status, True))), t, bt)"
| "thread_step e st (StoreOne pid pidStat, t, bt) =
     (case SetPid (Some t) pid pidStat of
        Ok (Some t) \<Rightarrow> (Finished (Stored pidStat), t, bt)
      | _ \<Rightarrow> (Finished Crashed, t, bt))"
| "thread_step e st (StoreMap procMap plist, t, bt) =
     (case SetMap (Some t) procMap of
        Ok (Some t) \<Rightarrow> (Finished (Listed plist), t, bt)
      | _ \<Rightarrow> (Finished Crashed, t, bt))"
| "thread_step e st (Finished r, t, bt) = (Finished r, t, bt)"

text \<open>\<open>GetOne\<close> and \<open>GetSelf\<close> begin with a number, \<open>Get\<close> with the directory of processes.\<close>

datatype call = OneCall int | ListCall

fun begin_call :: "proc_env \<Rightarrow> Stats \<Rightarrow> call \<Rightarrow> thread" where
  "begin_call e st (OneCall pid) = Basic pid OneProcess"
| "begin_call e st ListCall =
     (if length (st_Procs st) = 0 then Finished Idle
      else
        case st_Hostfs st of
          None \<Rightarrow> Finished Crashed
        | Some hostfs \<Rightarrow>
            (case os_ReadDir (pe_os e) (ResolveHostFS hostfs ''proc'') of
               Err err \<Rightarrow> Finished (Failed (Wrapped ''error gathering PIDs'' (Wrapped
                 (if err = PathError EIO then ''error reading directory names'' else ''error reading from procfs'') err)))
             | Panic \<Rightarrow> Finished Crashed
             | Ok entries \<Rightarrow> next_name (map ent_name entries) Map.empty []))"

text \<open>What a returned call gives its client: formatting the processes touches nothing that is shared.\<close>

definition one_outcome ::
  "(ProcState \<Rightarrow> 'm outcome) \<Rightarrow> proc_env \<Rightarrow> Stats \<Rightarrow> result \<Rightarrow> ('m \<times> (string \<rightharpoonup> proto_entry) option) outcome" where
  "one_outcome Convert e st r =
     (case r of
        Stored pidStat \<Rightarrow> getProcessEvent Convert (pe_order e) st pidStat
      | Failed err \<Rightarrow> Err err
      | _ \<Rightarrow> Panic)"

definition list_outcome ::
  "(ProcState \<Rightarrow> 'm outcome) \<Rightarrow> proc_env \<Rightarrow> Stats \<Rightarrow> result \<Rightarrow>
     (('m \<times> (string \<rightharpoonup> proto_entry) option) list \<times> ProcStateRootEvent list) outcome" where
  "list_outcome Convert e st r =
     (case r of
        Listed plist \<Rightarrow>
          format_all Convert e st (if st_host st then valueOr 0 (pe_Memory e) else 0)
            (includeTopProcesses (pe_Slice e) (st_IncludeTop st) plist)
      | Idle \<Rightarrow> Ok ([], [])
      | Failed err \<Rightarrow> Err err
      | _ \<Rightarrow> Panic)"

section \<open>Interleavings\<close>

text \<open>
  The threads, the table, the boot time and the clock, which never goes back. A step of a
  thread has an environment of its own; another collector of the program may set the boot time.
\<close>

type_synonym threads_state = "thread list \<times> ProcsTrack \<times> u64 \<times> int"

definition ticks :: "int \<Rightarrow> proc_env \<Rightarrow> int \<Rightarrow> bool" where
  "ticks now e now' \<longleftrightarrow> now \<le> now' \<and> (\<forall>pid. now \<le> pe_now e pid \<and> pe_now e pid \<le> now')"

inductive interleave :: "(proc_env \<Rightarrow> bool) \<Rightarrow> Stats \<Rightarrow> threads_state \<Rightarrow> threads_state \<Rightarrow> bool"
  for E :: "proc_env \<Rightarrow> bool" and st :: Stats where
  call: "E e \<Longrightarrow> interleave E st (ths, t, bt, now) (ths @ [begin_call e st c], t, bt, now)"
| turn: "i < length ths \<Longrightarrow> E e \<Longrightarrow> ticks now e now' \<Longrightarrow> thread_step e st (ths ! i, t, bt) = (th, t', bt') \<Longrightarrow>
    interleave E st (ths, t, bt, now) (ths[i := th], t', bt', now')"
| other: "interleave E st (ths, t, 0, now) (ths, t, bt', now)"

inductive interleaves :: "(proc_env \<Rightarrow> bool) \<Rightarrow> Stats \<Rightarrow> threads_state \<Rightarrow> threads_state \<Rightarrow> bool"
  for E :: "proc_env \<Rightarrow> bool" and st :: Stats and s :: threads_state where
  start: "interleaves E st s s"
| next_turn: "interleaves E st s u \<Longrightarrow> interleave E st u v \<Longrightarrow> interleaves E st s v"

inductive_cases interleaveE [consumes 1, case_names call turn other]:
  "interleave E st (ths, t, bt, now) (ths', t', bt', now')"

text \<open>What a program with one collector can reach after a successful \<open>Init\<close> of \<open>cfg\<close>.\<close>

definition threads_run :: "(proc_env \<Rightarrow> bool) \<Rightarrow> Stats \<Rightarrow> Stats \<Rightarrow> threads_state \<Rightarrow> bool" where
  "threads_run E cfg st s \<longleftrightarrow>
     (\<exists>e bt now. Init e cfg = (st, Ok ()) \<and> 0 \<le> now \<and> interleaves E st ([], NewProcsTrack, bt, now) s)"

section \<open>A thread alone\<close>

lemma keep_filled_fst: "fst (keep_filled (r, bt) pid m l) = fst (keep_filled (r, 0) pid m l)"
  by (simp add: keep_filled_def split: outcome.splits prod.splits)

lemma steps_append:
  fixes f :: "'a \<Rightarrow> 'a"
  assumes "(f ^^ n) x = y" "(f ^^ k) y = z"
  shows "(f ^^ (k + n)) x = z"
  using assms by (simp add: funpow_add)

lemma one_step: "thread_step e st x = y \<Longrightarrow> (thread_step e st ^^ 1) x = y"
  by simp

lemma after_fill_Panic [simp]: "after_fill pid w Panic = Finished Crashed"
  by (cases w) (simp_all add: keep_filled_def)

lemma fill_alone:
  assumes "pidFill e (seen st t) pid (filtered w) bt = (r, bt')"
  shows "\<exists>n. (thread_step e st ^^ n) (Basic pid w, t, bt) = (after_fill pid w r, t, bt')"
proof (cases "\<exists>status. basic_step e (seen st t) pid w = Cached pid w status \<and> (\<exists>h q. st_Hostfs st = Some h \<and>
    GetInfoForPid (pe_os e) h pid = Ok q \<and> \<not> st_skipExtended st \<and> cacheCmdLine (seen st t) q = Ok status \<and>
    \<not> (filtered w \<and> \<not> matchProcess (seen st t) (ps_Name status)))")
  case False
  then have "basic_step e (seen st t) pid w = after_fill pid w r \<and> bt' = bt"
    using assms by (auto simp: basic_step_def pidFill_def fill_pid_def split: option.splits outcome.splits if_splits)
  then show ?thesis by (intro exI[of _ 1]) simp
next
  case True
  then obtain status h q where s: "basic_step e (seen st t) pid w = Cached pid w status" "st_Hostfs st = Some h"
    "GetInfoForPid (pe_os e) h pid = Ok q" "\<not> st_skipExtended st" "cacheCmdLine (seen st t) q = Ok status"
    "\<not> (filtered w \<and> \<not> matchProcess (seen st t) (ps_Name status))" by blast
  obtain f b where f: "FillPidMetrics (pe_SumOptUint e) (pe_format_time e) (pe_os e) h pid status
      (Some (isWhitelistedEnvVar (seen st t))) bt = (f, b)" by fastforce
  have r: "r = and_then (wrap_err ''FillPidMetrics'' f) (\<lambda>s. and_then (post_fill e (seen st t) pid s) (\<lambda>s. Ok (s, True)))"
    "bt' = b"
    using assms s f by (auto simp: pidFill_def fill_pid_def)
  show ?thesis
  proof (cases f)
    case (Ok p)
    have "thread_step e st (Basic pid w, t, bt) = (Cached pid w status, t, bt)"
      "thread_step e st (Cached pid w status, t, bt) = (Metrics pid w p, t, b)"
      "thread_step e st (Metrics pid w p, t, b) = (after_fill pid w r, t, b)"
      using s f r Ok by (simp_all add: metrics_step_def)
    then have "(thread_step e st ^^ Suc (Suc (Suc 0))) (Basic pid w, t, bt) = (after_fill pid w r, t, bt')"
      by (simp only: funpow.simps o_apply id_apply r(2))
    then show ?thesis by blast
  next
    case (Err err)
    have "thread_step e st (Basic pid w, t, bt) = (Cached pid w status, t, bt)"
      "thread_step e st (Cached pid w status, t, bt) = (after_fill pid w r, t, b)"
      using s f r Err by (simp_all add: metrics_step_def)
    then have "(thread_step e st ^^ Suc (Suc 0)) (Basic pid w, t, bt) = (after_fill pid w r, t, bt')"
      by (simp only: funpow.simps o_apply id_apply r(2))
    then show ?thesis by blast
  next
    case Panic
    have "thread_step e st (Basic pid w, t, bt) = (Cached pid w status, t, bt)"
      "thread_step e st (Cached pid w status, t, bt) = (after_fill pid w r, t, b)"
      using s f r Panic by (simp_all add: metrics_step_def)
    then have "(thread_step e st ^^ Suc (Suc 0)) (Basic pid w, t, bt) = (after_fill pid w r, t, bt')"
      by (simp only: funpow.simps o_apply id_apply r(2))
    then show ?thesis by blast
  qed
qed

definition listing_end :: "(ProcsMap \<times> ProcState list) outcome \<Rightarrow> thread" where
  "listing_end r = (case r of Ok (m, l) \<Rightarrow> StoreMap m l | _ \<Rightarrow> Finished Crashed)"

lemma names_alone:
  "fetch_names e (seen st t) m l bt names = (r, bt') \<Longrightarrow>
   \<exists>n. (thread_step e st ^^ n) (next_name names m l, t, bt) = (listing_end r, t, bt')"
proof (induction names arbitrary: m l bt)
  case Nil
  then show ?case by (intro exI[of _ 0]) (auto simp: listing_end_def)
next
  case (Cons name names)
  consider pid where "dirIsPid name = Ok True" "atoi name = Ok pid"
    | "dirIsPid name = Ok True" "\<nexists>pid. atoi name = Ok pid" | "dirIsPid name = Ok False"
    | "\<nexists>b. dirIsPid name = Ok b"
    by (metis (full_types))
  then show ?case
  proof cases
    case 1
    obtain f b where f: "pidFill e (seen st t) pid True bt = (f, b)" by fastforce
    obtain n where n: "(thread_step e st ^^ n) (Basic pid (Listing names m l), t, bt) =
        (after_fill pid (Listing names m l) f, t, b)"
      using fill_alone[of e t st pid "Listing names m l" bt f b] f by auto
    obtain k b' where k: "keep_filled (f, b) pid m l = (k, b')" by fastforce
    have b': "b' = b" using keep_filled_boot[of "(f, b)" pid m l] k by simp
    have k0: "fst (keep_filled (f, 0) pid m l) = k" using keep_filled_fst[of f b pid m l] k by simp
    show ?thesis
    proof (cases k)
      case (Ok x)
      obtain m1 l1 where x: "x = (m1, l1)" by (cases x)
      have "fetch_names e (seen st t) m1 l1 b names = (r, bt')"
        using Cons.prems 1 f k Ok x b' by (simp add: pidIter_def)
      then obtain n1 where "(thread_step e st ^^ n1) (next_name names m1 l1, t, b) = (listing_end r, t, bt')"
        using Cons.IH by blast
      moreover have "after_fill pid (Listing names m l) f = next_name names m1 l1" using k0 Ok x by simp
      ultimately show ?thesis using steps_append[OF n, of n1] 1 by auto
    next
      case (Err err)
      then have "r = Err err" "bt' = b" using Cons.prems 1 f k b' by (simp_all add: pidIter_def)
      then show ?thesis using n k0 Err 1 by (auto simp: listing_end_def)
    next
      case Panic
      then have "r = Panic" "bt' = b" using Cons.prems 1 f k b' by (simp_all add: pidIter_def)
      then show ?thesis using n k0 Panic 1 by (auto simp: listing_end_def)
    qed
  next
    case 2
    then show ?thesis using Cons by (auto split: outcome.splits)
  next
    case 3
    then show ?thesis using Cons by simp
  next
    case 4
    then have "r = Panic" "bt' = bt" using Cons.prems by (auto split: outcome.splits)
    moreover have "next_name (name # names) m l = Finished Crashed" using 4 by (auto split: outcome.splits)
    ultimately show ?thesis by (intro exI[of _ 0]) (simp add: listing_end_def)
  qed
qed

lemma fetch_names_not_Err: "fetch_names e st m l bt names \<noteq> (Err err, bt')"
proof (induction names arbitrary: m l bt)
  case (Cons name names)
  have "pidIter e st pid m l bt \<noteq> (Err err, b)" for pid b
    by (simp add: pidIter_def keep_filled_def split: prod.splits outcome.splits)
  then show ?case using Cons by (auto split: outcome.splits bool.splits prod.splits)
qed simp

lemma format_all_seen: "format_all Convert e (seen st t) mem l = format_all Convert e st mem l"
  by (induction l) (simp_all add: getProcessEvent_def Let_def split: prod.splits)

text \<open>The two operations, alone.\<close>

lemma one_alone:
  obtains n r t' bt' where "(thread_step e st ^^ n) (Basic pid OneProcess, t, bt) = (Finished r, t', bt')"
    "GetOne Convert e (seen st t) pid bt = (one_outcome Convert e st r, seen st t', bt')"
proof -
  obtain f b where f: "pidFill e (seen st t) pid False bt = (f, b)" by fastforce
  obtain n where n: "(thread_step e st ^^ n) (Basic pid OneProcess, t, bt) = (after_fill pid OneProcess f, t, b)"
    using fill_alone[of e t st pid OneProcess bt f b] f by auto
  show thesis
  proof (cases f)
    case (Ok x)
    obtain p saved where x: "x = (p, saved)" by (cases x)
    let ?t = "t\<lparr>pids := (pids t)(pid \<mapsto> p)\<rparr>"
    have "thread_step e st (after_fill pid OneProcess f, t, b) = (Finished (Stored p), ?t, b)"
      using Ok x by (simp add: SetPid_def)
    from steps_append[OF n one_step[OF this]]
    have "(thread_step e st ^^ (1 + n)) (Basic pid OneProcess, t, bt) = (Finished (Stored p), ?t, b)" .
    moreover have "GetOne Convert e (seen st t) pid bt = (one_outcome Convert e st (Stored p), seen st ?t, b)"
      using f Ok x by (simp add: GetOne_def set_filled_def SetPid_def one_outcome_def getProcessEvent_def)
    ultimately show thesis by (rule that)
  next
    case (Err err)
    show thesis
      by (rule that[of n "Failed (Wrapped ''error fetching PID'' err)" t b])
        (use n f Err in \<open>simp_all add: GetOne_def set_filled_def one_outcome_def\<close>)
  next
    case Panic
    show thesis
      by (rule that[of n Crashed t b]) (use n f Panic in \<open>simp_all add: GetOne_def set_filled_def one_outcome_def\<close>)
  qed
qed

lemma get_alone:
  obtains n r t' bt' where "(thread_step e st ^^ n) (begin_call e st ListCall, t, bt) = (Finished r, t', bt')"
    "Get Convert e (seen st t) bt = (list_outcome Convert e st r, seen st t', bt')"
proof (cases "length (st_Procs st) = 0")
  case True
  show thesis by (rule that[of 0 Idle t bt]) (use True in \<open>simp_all add: Get_def list_outcome_def\<close>)
next
  case False
  show thesis
  proof (cases "st_Hostfs st")
    case None
    show thesis by (rule that[of 0 Crashed t bt]) (use False None in \<open>simp_all add: Get_def FetchPids_def list_outcome_def\<close>)
  next
    case h: (Some h)
    define d where "d = os_ReadDir (pe_os e) (ResolveHostFS h ''proc'')"
    show thesis
    proof (cases d)
      case (Ok entries)
      obtain r b where r: "fetch_names e (seen st t) Map.empty [] bt (map ent_name entries) = (r, b)" by fastforce
      have start: "begin_call e st ListCall = next_name (map ent_name entries) Map.empty []"
        using False h Ok by (simp add: d_def)
      obtain n where n: "(thread_step e st ^^ n) (begin_call e st ListCall, t, bt) = (listing_end r, t, b)"
        using names_alone[OF r] start by auto
      have f: "FetchPids e (seen st t) bt = (r, b)" using h Ok r by (simp add: FetchPids_def d_def)
      show thesis
      proof (cases r)
        case r': (Ok x)
        obtain m l where x: "x = (m, l)" by (cases x)
        let ?t = "t\<lparr>pids := m\<rparr>"
        have "thread_step e st (listing_end r, t, b) = (Finished (Listed l), ?t, b)"
          using r' x by (simp add: listing_end_def SetMap_def)
        from steps_append[OF n one_step[OF this]]
        have "(thread_step e st ^^ (1 + n)) (begin_call e st ListCall, t, bt) = (Finished (Listed l), ?t, b)" .
        moreover have "Get Convert e (seen st t) bt = (list_outcome Convert e st (Listed l), seen st ?t, b)"
          using False f r' x by (simp add: Get_def SetMap_def list_outcome_def Let_def format_all_seen)
        ultimately show thesis by (rule that)
      next
        case (Err err)
        then show thesis using r fetch_names_not_Err by metis
      next
        case Panic
        show thesis
          by (rule that[of n Crashed t b]) (use n False f Panic in \<open>simp_all add: Get_def listing_end_def list_outcome_def\<close>)
      qed
    next
      case (Err err)
      show thesis
        by (rule that[of 0 "Failed (Wrapped ''error gathering PIDs'' (Wrapped
              (if err = PathError EIO then ''error reading directory names'' else ''error reading from procfs'') err))" t bt])
          (use False h Err in \<open>simp_all add: d_def Get_def FetchPids_def list_outcome_def\<close>)
    next
      case Panic
      show thesis
        by (rule that[of 0 Crashed t bt]) (use False h Panic in \<open>simp_all add: d_def Get_def FetchPids_def list_outcome_def\<close>)
    qed
  qed
qed

section \<open>Every interleaving\<close>

text \<open>An entry is filed under its number, points to statistics, and was sampled in the past.\<close>

definition past_entry :: "int \<Rightarrow> int \<Rightarrow> ProcState \<Rightarrow> bool" where
  "past_entry now pid p \<longleftrightarrow> typed_entry pid p \<and> ps_SampleTime p \<le> now"

definition past_map :: "int \<Rightarrow> ProcsMap \<Rightarrow> bool" where
  "past_map now m \<longleftrightarrow> (\<forall>pid p. m pid = Some p \<longrightarrow> past_entry now pid p)"

fun past_work :: "int \<Rightarrow> work \<Rightarrow> bool" where
  "past_work now OneProcess = True"
| "past_work now (Listing names m l) = (past_map now m \<and> [] \<notin> set names)"

fun past_thread :: "int \<Rightarrow> thread \<Rightarrow> bool" where
  "past_thread now (Basic pid w) = past_work now w"
| "past_thread now (Cached pid w p) = (past_work now w \<and> typed_entry pid p)"
| "past_thread now (Metrics pid w p) = (past_work now w \<and> typed_entry pid p)"
| "past_thread now (StoreOne pid p) = past_entry now pid p"
| "past_thread now (StoreMap m l) = past_map now m"
| "past_thread now (Finished r) = (r \<noteq> Crashed)"

lemma past_map_upd: "past_map now m \<Longrightarrow> past_entry now pid p \<Longrightarrow> past_map now (m(pid \<mapsto> p))"
  unfolding past_map_def by auto

lemma past_map_empty [simp]: "past_map now Map.empty"
  by (simp add: past_map_def)

lemma past_map_mono: "past_map now m \<Longrightarrow> now \<le> now' \<Longrightarrow> past_map now' m"
  unfolding past_map_def past_entry_def by force

lemma past_work_mono: "past_work now w \<Longrightarrow> now \<le> now' \<Longrightarrow> past_work now' w"
  by (cases w) (auto intro: past_map_mono)

lemma past_thread_mono: "past_thread now th \<Longrightarrow> now \<le> now' \<Longrightarrow> past_thread now' th"
  by (cases th) (auto intro: past_map_mono past_work_mono simp: past_entry_def)

lemma past_map_typed: "past_map now m \<Longrightarrow> typed_map m"
  by (auto simp: past_map_def past_entry_def)

text \<open>What the code relies on in the files it reads: no reader of them panics, no directory entry has an empty name.\<close>

definition calm :: "Stats \<Rightarrow> proc_env \<Rightarrow> bool" where
  "calm st e \<longleftrightarrow>
     (\<forall>h pid p filt bt. st_Hostfs st = Some h \<longrightarrow>
        fst (FillPidMetrics (pe_SumOptUint e) (pe_format_time e) (pe_os e) h pid p filt bt) \<noteq> Panic) \<and>
     (\<forall>r pid. st_cgroups st = Some r \<longrightarrow> GetStatsForPid (pe_cg e) r pid \<noteq> Panic) \<and>
     (\<forall>d entries. os_ReadDir (pe_os e) d = Ok entries \<longrightarrow> [] \<notin> set (map ent_name entries))"

lemma next_name_past: "past_map now m \<Longrightarrow> [] \<notin> set names \<Longrightarrow> past_thread now (next_name names m l)"
proof (induction names arbitrary: m l)
  case (Cons n ns)
  obtain b where "dirIsPid n = Ok b" using Cons.prems(2) by (cases n) (auto simp: dirIsPid_def)
  then show ?case using Cons by (auto split: outcome.splits bool.splits)
qed simp

lemma after_fill_past:
  assumes "past_work now w" "r \<noteq> Panic" "\<And>p saved. r = Ok (p, saved) \<Longrightarrow> saved \<or> w = OneProcess \<Longrightarrow> past_entry now pid p"
  shows "past_thread now (after_fill pid w r)"
proof (cases w)
  case OneProcess
  then show ?thesis using assms(2,3) by (cases r) auto
next
  case (Listing names m l)
  show ?thesis
  proof (cases r)
    case (Ok x)
    then show ?thesis
      using assms Listing next_name_past past_map_upd by (cases x) (auto simp: keep_filled_def)
  next
    case (Err err)
    then show ?thesis using assms Listing next_name_past by (simp add: keep_filled_def)
  qed (use assms(2) in simp)
qed

lemma after_fill_Err: "past_work now w \<Longrightarrow> past_thread now (after_fill pid w (Err err))"
  by (rule after_fill_past) simp_all

lemma GetInfoForPid_fresh: "GetInfoForPid w hostfs pid = Ok p \<Longrightarrow> ps_SampleTime p = 0"
  by (auto simp: GetInfoForPid_def Let_def go_outcome zeroProcState_def split: outcome.splits option.splits if_splits prod.splits)

lemma GetInfoForPid_past: "GetInfoForPid w hostfs pid = Ok p \<Longrightarrow> 0 \<le> now \<Longrightarrow> past_entry now pid p"
  using GetInfoForPid_Pid GetInfoForPid_Cgroup GetInfoForPid_fresh by (simp add: past_entry_def typed_entry_def)

lemma cacheCmdLine_seen: "cacheCmdLine (seen st t) p \<noteq> Panic \<and> cacheCmdLine (seen st t) p \<noteq> Err err"
  by (simp add: cacheCmdLine_def GetPid_def Let_def split: option.splits)

lemma basic_step_past:
  assumes "past_work now w" "0 \<le> now" "st_Hostfs st \<noteq> None"
  shows "past_thread now (basic_step e (seen st t) pid w)"
proof -
  obtain h where h: "st_Hostfs st = Some h" using assms(3) by auto
  show ?thesis
  proof (cases "GetInfoForPid (pe_os e) h pid")
    case (Ok q)
    note q = GetInfoForPid_past[OF Ok assms(2)]
    obtain c where c: "cacheCmdLine (seen st t) q = Ok c"
      using cacheCmdLine_seen by (cases "cacheCmdLine (seen st t) q") blast+
    have pc: "past_entry now pid c" using cacheCmdLine_keeps[OF c] q by (auto simp: past_entry_def typed_entry_def)
    have "past_thread now (after_fill pid w (Ok (q, True)))" "past_thread now (after_fill pid w (Ok (c, False)))"
      using after_fill_past[OF assms(1)] q pc by auto
    then show ?thesis using h Ok c pc assms(1) by (auto simp: basic_step_def past_entry_def)
  next
    case (Err err)
    then show ?thesis using h after_fill_Err[OF assms(1)] by (simp add: basic_step_def)
  qed (use GetInfoForPid_safe in blast)
qed

lemma metrics_step_past:
  assumes "past_work now w" "typed_entry pid p" "st_Hostfs st \<noteq> None" "calm st e" "metrics_step e (seen st t) pid w p bt = (th, bt')"
  shows "past_thread now th \<and> (bt \<noteq> 0 \<longrightarrow> bt' = bt)"
proof -
  obtain h where h: "st_Hostfs st = Some h" using assms(3) by auto
  obtain f b where f: "FillPidMetrics (pe_SumOptUint e) (pe_format_time e) (pe_os e) h pid p (Some (isWhitelistedEnvVar (seen st t))) bt = (f, b)"
    by fastforce
  then have "f \<noteq> Panic" using assms(4) h by (metis calm_def fst_conv)
  then show ?thesis
  proof (cases f)
    case (Ok q)
    have "typed_entry pid q"
      using FillPidMetrics_keeps(3,7)[OF f[unfolded Ok]] assms(2) by (simp add: typed_entry_def)
    then show ?thesis using assms f h Ok FillPidMetrics_boot[OF f] by (auto simp: metrics_step_def)
  next
    case (Err err)
    then show ?thesis using assms f h FillPidMetrics_boot[OF f] after_fill_Err[OF assms(1)] by (auto simp: metrics_step_def)
  qed simp
qed

lemma cgroup_data_same:
  assumes "cgroup_data e st prev p = Ok q"
  shows "ps_SampleTime q = ps_SampleTime p" "ps_Pid q = ps_Pid p"
proof -
  obtain c where "q = p\<lparr>ps_Cgroup := c\<rparr>" using cgroup_data_keeps[OF assms] by blast
  then show "ps_SampleTime q = ps_SampleTime p" "ps_Pid q = ps_Pid p" by simp_all
qed

lemma cpu_network_time: "ps_SampleTime (cpu_value p) = ps_SampleTime p" "ps_SampleTime (network_data e st pid p) = ps_SampleTime p"
  by (simp_all add: cpu_value_def network_data_def split: option.splits)

lemma percent_time: "ps_SampleTime (GetProcCPUPercentage w n s0 s1) = ps_SampleTime s1"
  by (subst GetProcCPUPercentage_keeps, simp)

lemma post_fill_time: "post_fill e st pid p = Ok q \<Longrightarrow> ps_SampleTime q = pe_now e pid"
  by (auto simp: post_fill_def Let_def and_then_Ok_iff percent_time cpu_network_time dest!: cgroup_data_same(1) split: option.splits)

lemma post_fill_Pid: "post_fill e st pid p = Ok q \<Longrightarrow> ps_Pid q = ps_Pid p"
  by (auto simp: post_fill_def Let_def and_then_Ok_iff dest!: cgroup_data_same(2) split: option.splits)

lemma post_fill_past:
  assumes "post_fill e st pid p = Ok q" "typed_entry pid p" "pe_now e pid \<le> now"
  shows "past_entry now pid q"
  using post_fill_proper[OF assms(1)] post_fill_time[OF assms(1)] post_fill_Pid[OF assms(1)] assms(2,3)
  by (simp add: past_entry_def typed_entry_def)

lemma post_fill_calm:
  assumes "calm st e" "past_map now (pids t)" "st_EnableCgroups st \<longrightarrow> st_cgroups st \<noteq> None"
  shows "post_fill e (seen st t) pid p \<noteq> Panic"
proof -
  let ?p = "p\<lparr>ps_Cmdline := shown_cmdline p, ps_SampleTime := pe_now e pid\<rparr>"
  have "cgroup_data e (seen st t) (pids t (valueOr 0 (ps_Pid p))) ?p \<noteq> Panic"
    using assms by (intro cgroup_data_safe) (auto simp: past_map_def past_entry_def typed_entry_def calm_def)
  then show ?thesis by (auto simp: post_fill_def Let_def GetPid_def and_then_Panic_iff)
qed

text \<open>One preservation lemma for a step of a thread.\<close>

definition sound_config :: "Stats \<Rightarrow> bool" where
  "sound_config st \<longleftrightarrow> st_Hostfs st \<noteq> None \<and> (st_EnableCgroups st \<longrightarrow> st_cgroups st \<noteq> None)"

lemma thread_step_past:
  assumes "thread_step e st (th, t, bt) = (th', t', bt')" "past_thread now th" "past_map now (pids t)"
    and "calm st e" "sound_config st" "0 \<le> now" "ticks now e now'"
  shows "past_thread now' th' \<and> past_map now' (pids t') \<and> (bt \<noteq> 0 \<longrightarrow> bt' = bt)"
proof -
  have le: "now \<le> now'" "pe_now e pid \<le> now'" for pid using assms(7) by (simp_all add: ticks_def)
  have h: "st_Hostfs st \<noteq> None" using assms(5) by (simp add: sound_config_def)
  note th = past_thread_mono[OF assms(2) le(1)] and t = past_map_mono[OF assms(3) le(1)]
  show ?thesis
  proof (cases th)
    case (Basic pid w)
    then show ?thesis using assms(1,6) th t le(1) basic_step_past[OF _ _ h, of now' w e t pid] by auto
  next
    case (Cached pid w p)
    obtain u b where m: "metrics_step e (seen st t) pid w p bt = (u, b)" by fastforce
    have "past_work now' w" "typed_entry pid p" using th Cached by auto
    from metrics_step_past[OF this h assms(4) m] show ?thesis using assms(1) Cached m t by auto
  next
    case (Metrics pid w p)
    have "past_thread now' (after_fill pid w (and_then (post_fill e (seen st t) pid p) (\<lambda>p. Ok (p, True))))"
    proof (rule after_fill_past)
      show "past_work now' w" using th Metrics by simp
    next
      show "and_then (post_fill e (seen st t) pid p) (\<lambda>p. Ok (p, True)) \<noteq> Panic"
        using post_fill_calm[OF assms(4,3)] assms(5) by (auto simp: sound_config_def and_then_Panic_iff)
    next
      show "past_entry now' pid q" if "and_then (post_fill e (seen st t) pid p) (\<lambda>p. Ok (p, True)) = Ok (q, saved)" for q saved
        using that post_fill_past[of e "seen st t" pid p q now'] th Metrics le(2) by (auto simp: and_then_Ok_iff)
    qed
    then show ?thesis using assms(1) Metrics t by auto
  next
    case (StoreOne pid p)
    then show ?thesis using assms(1) th t past_map_upd by (auto simp: SetPid_def)
  next
    case (StoreMap m l)
    then show ?thesis using assms(1) th by (auto simp: SetMap_def)
  next
    case (Finished r)
    then show ?thesis using assms(1) th t by auto
  qed
qed

lemma begin_call_past:
  assumes "calm st e" "sound_config st"
  shows "past_thread now (begin_call e st c)"
proof (cases c)
  case ListCall
  obtain h where h: "st_Hostfs st = Some h" using assms(2) by (auto simp: sound_config_def)
  have "os_ReadDir (pe_os e) d \<noteq> Panic" for d by (simp add: os_ReadDir_def split: sum.splits)
  then show ?thesis using ListCall h assms(1) next_name_past[OF past_map_empty]
    by (auto simp: calm_def split: outcome.splits)
qed simp

text \<open>The invariant of the interleaved system.\<close>

definition past_state :: "threads_state \<Rightarrow> bool" where
  "past_state s \<longleftrightarrow> (case s of (ths, t, bt, now) \<Rightarrow> 0 \<le> now \<and> past_map now (pids t) \<and> (\<forall>th \<in> set ths. past_thread now th))"

lemma interleave_past:
  assumes "interleave E st (ths, t, bt, now) (ths', t', bt', now')" "past_state (ths, t, bt, now)"
    and "\<And>e. E e \<Longrightarrow> calm st e" "sound_config st"
  shows "past_state (ths', t', bt', now') \<and> now \<le> now' \<and> (bt \<noteq> 0 \<longrightarrow> bt' = bt)"
  using assms(1)
proof (cases rule: interleaveE)
  case (call e c)
  then show ?thesis using assms(2) begin_call_past[OF assms(3) assms(4), of e now c] by (auto simp: past_state_def)
next
  case (turn i e th)
  have le: "now \<le> now'" using turn by (simp add: ticks_def)
  have o': "past_thread now' u" if "u \<in> set ths" for u
    using that assms(2) past_thread_mono[OF _ le] by (auto simp: past_state_def)
  have "past_thread now (ths ! i)" using turn assms(2) nth_mem[of i ths] by (auto simp: past_state_def)
  from thread_step_past[OF turn(5) this _ assms(3) assms(4) _ turn(4)] turn(3) assms(2)
  have "past_thread now' th \<and> past_map now' (pids t') \<and> (bt \<noteq> 0 \<longrightarrow> bt' = bt)" by (auto simp: past_state_def)
  then show ?thesis
    using turn(1) le o' assms(2) set_update_subset_insert[of ths i th] by (auto simp: past_state_def)
next
  case other
  then show ?thesis using assms(2) by (auto simp: past_state_def)
qed

lemma interleaves_past:
  assumes "interleaves E st s s'" "past_state s" "\<And>e. E e \<Longrightarrow> calm st e" "sound_config st"
  shows "past_state s' \<and> snd (snd (snd s)) \<le> snd (snd (snd s')) \<and> (fst (snd (snd s)) \<noteq> 0 \<longrightarrow> fst (snd (snd s')) = fst (snd (snd s)))"
  using assms
proof (induction rule: interleaves.induct)
  case (next_turn u v)
  obtain a b c d where u: "u = (a, b, c, d)" by (metis surj_pair)
  obtain a' b' c' d' where v: "v = (a', b', c', d')" by (metis surj_pair)
  have iv: "interleave E st (a, b, c, d) (a', b', c', d')" using next_turn.hyps(2) u v by simp
  have ih: "past_state u \<and> snd (snd (snd s)) \<le> d \<and> (fst (snd (snd s)) \<noteq> 0 \<longrightarrow> c = fst (snd (snd s)))"
    using next_turn.IH[OF next_turn.prems] u by simp
  then have "past_state (a, b, c, d)" using u by simp
  from interleave_past[OF iv this next_turn.prems(2,3)] ih v show ?case by auto
qed simp

lemma Init_sound:
  assumes "Init e cfg = (st, Ok ())" "st_Procs cfg \<noteq> []"
  shows "sound_config st"
proof -
  have "st_Hostfs (init_base e cfg) \<noteq> None" by (simp add: init_base_def split: option.splits)
  moreover have "st_Hostfs (fst (init_cgroups w s)) = st_Hostfs s" for w s
    by (simp add: init_cgroups_def split: outcome.splits)
  ultimately have "st_Hostfs (fst (Init e cfg)) \<noteq> None"
    by (simp add: Init_base split: prod.splits outcome.splits unit.splits)
  then show ?thesis using assms Init_table[OF assms(1)] by (simp add: sound_config_def)
qed

lemma threads_run_past:
  assumes "threads_run E cfg st s" "st_Procs cfg \<noteq> []" "\<And>e. E e \<Longrightarrow> calm st e"
  shows "past_state s" "sound_config st"
proof -
  obtain e bt now where i: "Init e cfg = (st, Ok ())" "0 \<le> now" "interleaves E st ([], NewProcsTrack, bt, now) s"
    using assms(1) by (auto simp: threads_run_def)
  then show sc: "sound_config st" using Init_sound assms(2) by blast
  have "past_state ([], NewProcsTrack, bt, now)" using i(2) by (simp add: past_state_def NewProcsTrack_def)
  from interleaves_past[OF i(3) this assms(3) sc] show "past_state s" by simp
qed

section \<open>Every call returns\<close>

text \<open>How many turns a thread has left at most: three for each process, one to write.\<close>

fun work_rank :: "work \<Rightarrow> nat" where
  "work_rank OneProcess = 1"
| "work_rank (Listing names _ _) = 3 * length names + 1"

fun thread_rank :: "thread \<Rightarrow> nat" where
  "thread_rank (Basic _ w) = work_rank w + 3"
| "thread_rank (Cached _ w _) = work_rank w + 2"
| "thread_rank (Metrics _ w _) = work_rank w + 1"
| "thread_rank (StoreOne _ _) = 1"
| "thread_rank (StoreMap _ _) = 1"
| "thread_rank (Finished _) = 0"

text \<open>The turns of one thread; between them the others have made of the table and the boot time what they will.\<close>

definition thread_turns :: "Stats \<Rightarrow> (proc_env \<times> ProcsTrack \<times> u64) list \<Rightarrow> thread \<Rightarrow> thread" where
  "thread_turns st seen_states th = foldl (\<lambda>th (e, t, bt). fst (thread_step e st (th, t, bt))) th seen_states"

lemma next_name_rank: "thread_rank (next_name names m l) \<le> 3 * length names + 1"
proof (induction names)
  case (Cons name names)
  then show ?case by (auto split: outcome.splits bool.splits)
qed simp

lemma after_fill_rank: "thread_rank (after_fill pid w r) \<le> work_rank w"
  using next_name_rank by (cases w) (auto split: outcome.splits)

lemma after_fill_le: "thread_rank (after_fill pid w r) \<le> Suc (work_rank w)" "thread_rank (after_fill pid w r) \<le> Suc (Suc (work_rank w))"
  using after_fill_rank[of pid w r] by simp_all

lemma thread_step_rank: "thread_rank (fst (thread_step e st (th, t, bt))) \<le> thread_rank th - 1"
proof (cases th)
  case (Basic pid w)
  then show ?thesis
    by (simp add: basic_step_def after_fill_le split: option.splits outcome.splits)
next
  case (Cached pid w p)
  then show ?thesis
    by (simp add: metrics_step_def after_fill_le split: option.splits outcome.splits prod.splits)
next
  case (Metrics pid w p)
  then show ?thesis by (simp add: after_fill_rank)
qed (auto split: outcome.splits option.splits)

lemma thread_turns_rank: "thread_rank (thread_turns st xs th) \<le> thread_rank th - length xs"
proof (induction xs arbitrary: th)
  case (Cons x xs)
  obtain e t bt where x: "x = (e, t, bt)" by (cases x)
  have "thread_rank (thread_turns st xs (fst (thread_step e st (th, t, bt)))) \<le> thread_rank th - 1 - length xs"
    using Cons.IH[of "fst (thread_step e st (th, t, bt))"] thread_step_rank[of e st th t bt] by linarith
  then show ?case by (simp add: thread_turns_def x)
qed (simp add: thread_turns_def)

lemma thread_rank_0: "thread_rank th = 0 \<Longrightarrow> \<exists>r. th = Finished r"
proof -
  have "work_rank w \<noteq> 0" for w by (cases w) auto
  then show "thread_rank th = 0 \<Longrightarrow> \<exists>r. th = Finished r" by (cases th) auto
qed

lemma begin_call_rank:
  "thread_rank (begin_call e st (OneCall pid)) = 4"
  "os_ReadDir (pe_os e) d = Ok entries \<Longrightarrow> (\<And>h. st_Hostfs st = Some h \<Longrightarrow> d = ResolveHostFS h ''proc'') \<Longrightarrow>
     thread_rank (begin_call e st ListCall) \<le> 3 * length entries + 1"
  using next_name_rank[of "map ent_name entries" Map.empty "[]"] by (auto split: option.splits)

section \<open>Properties\<close>


text \<open>
  C8. Any number of \<open>Get\<close>, \<open>GetOne\<close> and \<open>GetSelf\<close> on one collector, their steps interleaved
  in any order: no call panics if the readers of files do not, every process in the table is
  filed under its number, with statistics that are nil or point to something, and the time
  since its sample is never negative, so no percentage is taken over a negative interval.
\<close>

theorem threads_safe:
  assumes "threads_run E cfg st (ths, t, bt, now)" "st_Procs cfg \<noteq> []" "\<And>e. E e \<Longrightarrow> calm st e"
  shows "Finished Crashed \<notin> set ths \<and> typed_map (pids t) \<and>
    (\<forall>e now' pid k prev. ticks now e now' \<longrightarrow> pids t k = Some prev \<longrightarrow> 0 \<le> time_Sub (pe_now e pid) (ps_SampleTime prev))"
proof -
  have p: "past_state (ths, t, bt, now)" by (rule threads_run_past(1)[OF assms])
  then have m: "past_map now (pids t)" and th: "\<forall>th \<in> set ths. past_thread now th" by (simp_all add: past_state_def)
  have "0 \<le> time_Sub (pe_now e pid) (ps_SampleTime prev)" if "ticks now e now'" "pids t k = Some prev" for e now' pid k prev
  proof -
    have "ps_SampleTime prev \<le> now" using m that(2) by (simp add: past_map_def past_entry_def)
    moreover have "now \<le> pe_now e pid" using that(1) by (simp add: ticks_def)
    ultimately show ?thesis by (simp add: time_Sub_def)
  qed
  then show ?thesis using past_map_typed[OF m] th by auto
qed

lemma turn_of:
  assumes "thread_step e st (th, t, bt) = (th', t', bt')" "E e" "ticks now e now'"
  shows "interleave E st ([th], t, bt, now) ([th'], t', bt', now')"
    and "interleave E st ([th, u], t, bt, now) ([th', u], t', bt', now')"
    and "interleave E st ([u, th], t, bt, now) ([u, th'], t', bt', now')"
  using interleave.turn[of 0 "[th]" E e now now' st t bt th' t' bt']
    interleave.turn[of 0 "[th, u]" E e now now' st t bt th' t' bt']
    interleave.turn[of 1 "[u, th]" E e now now' st t bt th' t' bt'] assms by simp_all

text \<open>One call in a collector of basic facts, on the system of sleeping processes.\<close>

definition basic_cfg :: Stats where
  "basic_cfg = (init_base (snapshot_env (sleeping_env [''42''])) (list_stats host_root))
     \<lparr>st_procRegexps := [\<lambda>_. True], st_envRegexps := []\<rparr>"

lemma basic_cfg_fields: "st_skipExtended basic_cfg" "st_Hostfs basic_cfg = Some host_root" "st_cgroups basic_cfg = None"
  by (simp_all add: basic_cfg_def init_base_def list_stats_def)

lemma basic_init: "Init (snapshot_env (sleeping_env [''42''])) (list_stats host_root) = (basic_cfg, Ok ())"
proof -
  have "st_Procs (list_stats host_root) = [''.*'']" "st_EnvWhitelist (list_stats host_root) = []"
    "\<not> st_EnableCgroups (init_base (snapshot_env (sleeping_env [''42''])) (list_stats host_root))"
    by (simp_all add: list_stats_def init_base_def)
  moreover have "pe_Compile (snapshot_env w) = (\<lambda>_. Ok (\<lambda>_. True))" for w by (simp add: snapshot_env_def)
  ultimately show ?thesis by (simp add: Init_base init_cgroups_def basic_cfg_def split: unit.splits)
qed

lemma sleeping_statm: "getMemData (sleeping_env names) hostfs pid \<noteq> Panic \<and> (\<forall>m. getMemData (sleeping_env names) hostfs pid \<noteq> Ok m)"
proof -
  define rest where "rest = join (CHR '' '') (stat_tail (CHR ''S'') 1 42 (replicate 34 ''0''))"
  define line where "line = show_stat 42 ''cat'' (stat_tail (CHR ''S'') 1 42 (replicate 34 ''0''))"
  have "plain ''(cat)''" "ascii_ws (CHR '' '')" by (simp_all add: plain_def plain_char_def code_def)
  then have "Fields (itoa 42 @ CHR '' '' # ''(cat)'' @ CHR '' '' # rest) = itoa 42 # ''(cat)'' # Fields rest"
    by (simp only: fields_token_ws itoa_plain)
  then have f: "Fields line = itoa 42 # ''(cat)'' # Fields rest"
    by (simp add: line_def show_stat_def rest_def)
  have u: "parse_uint ''(cat)'' = Err (NumError ErrSyntax)"
    by (simp add: parse_uint_def parse_uint_nat_def is_digit_def code_def)
  have "os_ReadFile (sleeping_env names) p = Ok line" for p
    by (simp add: os_ReadFile_def sleeping_env_def line_def)
  then show ?thesis using u by (cases "parse_uint (itoa 42)") (auto simp: getMemData_def f Let_def)
qed

lemma basic_calm: "calm basic_cfg (snapshot_env (sleeping_env [''42'']))"
proof -
  have "fst (FillPidMetrics S F (sleeping_env [''42'']) h pid p filt bt) \<noteq> Panic" for S F h pid p filt bt
    using sleeping_statm[of "[''42'']" h pid]
    by (cases "getMemData (sleeping_env [''42'']) h pid") (auto simp: FillPidMetrics_def)
  moreover have "pe_os (snapshot_env w) = w" for w by (simp add: snapshot_env_def)
  ultimately show ?thesis
    by (simp add: calm_def basic_cfg_fields os_ReadDir_def sleeping_env_def)
qed

theorem threads_safe_witness:
  "\<exists>t. threads_run (\<lambda>e. e = snapshot_env (sleeping_env [''42''])) (list_stats host_root) basic_cfg
      ([Finished (Stored (sleeping_process 42))], t, 5, 0) \<and> typed_map (pids t) \<and> pids t 42 = Some (sleeping_process 42)"
proof -
  let ?e = "snapshot_env (sleeping_env [''42''])" and ?E = "\<lambda>e. e = snapshot_env (sleeping_env [''42''])"
  let ?t = "\<lparr>pids = [42 \<mapsto> sleeping_process 42]\<rparr>"
  have w: "pe_os ?e = sleeping_env [''42'']" by (simp add: snapshot_env_def)
  have now: "ticks 0 ?e 0" by (simp add: ticks_def snapshot_env_def)
  have "interleave ?E basic_cfg ([], NewProcsTrack, 5, 0) ([] @ [begin_call ?e basic_cfg (OneCall 42)], NewProcsTrack, 5, 0)"
    by (rule interleave.call) simp
  then have 1: "interleave ?E basic_cfg ([], NewProcsTrack, 5, 0) ([Basic 42 OneProcess], NewProcsTrack, 5, 0)" by simp
  have "thread_step ?e basic_cfg (Basic 42 OneProcess, NewProcsTrack, 5) = (StoreOne 42 (sleeping_process 42), NewProcsTrack, 5)"
    by (simp add: basic_step_def basic_cfg_fields w sleeping_info)
  then have 2: "interleave ?E basic_cfg ([Basic 42 OneProcess], NewProcsTrack, 5, 0) ([StoreOne 42 (sleeping_process 42)], NewProcsTrack, 5, 0)"
    using now by (intro turn_of(1)) simp_all
  have "thread_step ?e basic_cfg (StoreOne 42 (sleeping_process 42), NewProcsTrack, 5) = (Finished (Stored (sleeping_process 42)), ?t, 5)"
    by (simp add: SetPid_def NewProcsTrack_def)
  then have 3: "interleave ?E basic_cfg ([StoreOne 42 (sleeping_process 42)], NewProcsTrack, 5, 0) ([Finished (Stored (sleeping_process 42))], ?t, 5, 0)"
    using now by (intro turn_of(1)) simp_all
  have run: "threads_run ?E (list_stats host_root) basic_cfg ([Finished (Stored (sleeping_process 42))], ?t, 5, 0)"
    unfolding threads_run_def
    using basic_init interleaves.next_turn[OF interleaves.next_turn[OF interleaves.next_turn[OF interleaves.start 1] 2] 3] by fastforce
  have p: "st_Procs (list_stats host_root) \<noteq> []" by (simp add: list_stats_def)
  have "typed_map (pids ?t)"
    using threads_safe[OF run p] basic_calm by blast
  then show ?thesis using run by (intro exI[of _ ?t]) simp
qed



section \<open>A race\<close>

text \<open>
  The lock of the table covers one access, not the call. A sample is taken before the table
  is read for the second time, so a call can compare its counters with later ones that
  another call stored in between: two calls on the same process, the first with a counter of
  1000 milliseconds, the second with 2000. When the second stores first, the first reports
  a processor use of minus one.
\<close>

definition at_ticks :: "u64 \<Rightarrow> ProcState" where
  "at_ticks n = (sampled n 0)\<lparr>ps_Pid := Some 7\<rparr>"

definition clock_env :: "int \<Rightarrow> proc_env" where
  "clock_env time = (snapshot_env (files_env []))\<lparr>pe_now := \<lambda>_. time\<rparr>"

definition race_cfg :: Stats where
  "race_cfg = (list_stats host_root)\<lparr>st_skipExtended := False\<rparr>"

lemma clock_env_simps [simp]: "pe_now (clock_env time) pid = time" "pe_os (clock_env time) = files_env []" "pe_NumCPU (clock_env time) = 1"
  by (simp_all add: clock_env_def snapshot_env_def)

lemma race_post_fill:
  "post_fill (clock_env time) (seen race_cfg t) 7 (at_ticks n) =
     Ok (case pids t 7 of None \<Rightarrow> cpu_value ((at_ticks n)\<lparr>ps_SampleTime := time\<rparr>)
         | Some prev \<Rightarrow> GetProcCPUPercentage (files_env []) 1 prev (cpu_value ((at_ticks n)\<lparr>ps_SampleTime := time\<rparr>)))"
proof -
  have "shown_cmdline (at_ticks n) = ps_Cmdline (at_ticks n)"
    by (simp add: shown_cmdline_def at_ticks_def sampled_def zeroProcState_def)
  then have "(at_ticks n)\<lparr>ps_Cmdline := shown_cmdline (at_ticks n)\<rparr> = at_ticks n" by simp
  moreover have "ps_Pid (at_ticks n) = Some 7" by (simp add: at_ticks_def)
  moreover have "\<not> st_EnableCgroups (seen race_cfg t)" "\<not> st_EnableNetwork (seen race_cfg t)"
    by (simp_all add: race_cfg_def list_stats_def)
  ultimately show ?thesis by (simp add: post_fill_def GetPid_def cgroup_data_def network_data_def Let_def split: option.splits)
qed

lemma cpu_value_ticks [simp]: "ct_Ticks (pc_Total (ps_CPU (cpu_value p))) = ct_Ticks (pc_Total (ps_CPU p))"
  by (simp add: cpu_value_def split: option.splits)

lemma f64_round_int: "0 \<le> m \<Longrightarrow> m \<le> 2 ^ 53 \<Longrightarrow> f64_round s (of_int m) = F64Fin s (of_int m)"
  using f64_round_fin[of "of_int m" s] round53_int[of m] p2_64_1023 of_int_le_iff[of m "2 ^ 64", where ?'a = rat]
  by (simp add: p2_int del: of_int_le_iff)

lemma f64_round_1: "f64_round s 1 = F64Fin s 1" and f64_round_1000: "f64_round s 1000 = F64Fin s 1000"
  and f64_round_10000: "f64_round s 10000 = F64Fin s 10000"
  using f64_round_int[of 1 s] f64_round_int[of 1000 s] f64_round_int[of 10000 s] by simp_all

lemma Round_minus_one: "Round (F64Fin True 1) = F64Fin True 1"
  by (simp add: Round_def RoundWithPrecision_def DefaultDecimalPlacesCount_def math_Pow10_def Let_def f64_round_1 f64_round_10000)

lemma race_percentage:
  "ct_Pct (pc_Total (ps_CPU (GetProcCPUPercentage (files_env []) 1 (cpu_value ((at_ticks 2000)\<lparr>ps_SampleTime := s\<rparr>))
     (cpu_value ((at_ticks 1000)\<lparr>ps_SampleTime := s + 1000000000\<rparr>))))) = Some (F64Fin True 1)"
proof -
  have "time_Sub (s + 1000000000) s = 1000000000" by (simp add: time_Sub_def)
  moreover have "(1000000000 :: int) sdiv 1000000 = 1000" by (simp add: signed_divide_int_def)
  moreover have "int64_of (1000 - 2000) = - 1000" by (simp add: int64_of_def)
  moreover have "f64_of_int (- 1000) = F64Fin True 1000" "f64_of_int 1000 = F64Fin False 1000"
    by (simp_all add: f64_of_int_def f64_round_1000)
  ultimately show ?thesis
    by (simp add: GetProcCPUPercentage_def Let_def at_ticks_def percent_time cpu_network_time NumCPU_unreadable
        f64_round_1 Round_minus_one)
qed

theorem concurrent_percentage:
  "\<exists>p q t. interleaves (\<lambda>e. \<exists>time. e = clock_env time) race_cfg
      ([Metrics 7 OneProcess (at_ticks 1000), Metrics 7 OneProcess (at_ticks 2000)], NewProcsTrack, bt, 0)
      ([StoreOne 7 p, Finished (Stored q)], t, bt, 1000000000) \<and>
    ct_Pct (pc_Total (ps_CPU p)) = Some (F64Fin True 1)"
proof -
  let ?E = "\<lambda>e. \<exists>time. e = clock_env time"
  define q where "q = cpu_value ((at_ticks 2000)\<lparr>ps_SampleTime := 0\<rparr>)"
  define p where "p = GetProcCPUPercentage (files_env []) 1 q (cpu_value ((at_ticks 1000)\<lparr>ps_SampleTime := 0 + 1000000000\<rparr>))"
  define t where "t = \<lparr>pids = [7 \<mapsto> q]\<rparr>"
  define a where "a = Metrics 7 OneProcess (at_ticks 1000)"
  have now: "ticks 0 (clock_env 0) 0" "ticks 0 (clock_env 1000000000) 1000000000" by (simp_all add: ticks_def)
  have "thread_step (clock_env 0) race_cfg (Metrics 7 OneProcess (at_ticks 2000), NewProcsTrack, bt) = (StoreOne 7 q, NewProcsTrack, bt)"
    by (simp add: race_post_fill q_def NewProcsTrack_def)
  then have 1: "interleave ?E race_cfg ([a, Metrics 7 OneProcess (at_ticks 2000)], NewProcsTrack, bt, 0) ([a, StoreOne 7 q], NewProcsTrack, bt, 0)"
    by (rule turn_of(3)[OF _ _ now(1)]) blast
  have "thread_step (clock_env 0) race_cfg (StoreOne 7 q, NewProcsTrack, bt) = (Finished (Stored q), t, bt)"
    by (simp add: SetPid_def NewProcsTrack_def t_def)
  then have 2: "interleave ?E race_cfg ([a, StoreOne 7 q], NewProcsTrack, bt, 0) ([a, Finished (Stored q)], t, bt, 0)"
    by (rule turn_of(3)[OF _ _ now(1)]) blast
  have "thread_step (clock_env 1000000000) race_cfg (a, t, bt) = (StoreOne 7 p, t, bt)"
    by (simp add: race_post_fill p_def t_def a_def)
  then have 3: "interleave ?E race_cfg ([a, Finished (Stored q)], t, bt, 0) ([StoreOne 7 p, Finished (Stored q)], t, bt, 1000000000)"
    by (rule turn_of(2)[OF _ _ now(2)]) blast
  have "interleaves ?E race_cfg ([a, Metrics 7 OneProcess (at_ticks 2000)], NewProcsTrack, bt, 0)
      ([StoreOne 7 p, Finished (Stored q)], t, bt, 1000000000)"
    by (rule interleaves.next_turn[OF interleaves.next_turn[OF interleaves.next_turn[OF interleaves.start 1] 2] 3])
  moreover have "ct_Pct (pc_Total (ps_CPU p)) = Some (F64Fin True 1)"
    unfolding p_def q_def by (rule race_percentage)
  ultimately show ?thesis unfolding a_def by blast
qed

text \<open>A listing that began before another call stored a process forgets it: \<open>SetMap\<close> replaces the table.\<close>

lemma listing_forgets:
  "thread_step e st (StoreMap m l, t, bt) = (Finished (Listed l), t', bt') \<Longrightarrow> pids t' = m"
  by (auto simp: SetMap_def)

end
