(* ===== verification/Process_Darwin.thy ===== *)
theory Process_Darwin
  imports Process_Bytes
begin

text \<open>
  \<open>process_darwin.go\<close>: the entry points \<open>pidFill\<close> uses on macOS, and its \<open>FetchPids\<close>. The
  system calls (\<open>proc_listpids\<close>, \<open>proc_pidinfo\<close>, \<open>sysctl\<close>), the constants of the C headers
  and the user database are arguments. Proved: the decoding of the numbers of the
  processes, the round trip of the arguments and the environment of a process and where it
  fails, and that the entry points provide what the collector relies on.
\<close>

section \<open>The operating system\<close>

text \<open>The fields of \<open>struct proc_taskallinfo\<close> that are read.\<close>

record taskallinfo =
  pbi_comm :: string
  pbi_status :: u32
  pbi_ppid :: u32
  pbi_pgid :: u32
  pbi_uid :: u32
  pbi_start_tvsec :: u64
  pbi_start_tvusec :: u64
  pti_virtual_size :: u64
  pti_resident_size :: u64
  pti_total_user :: u64
  pti_total_system :: u64

text \<open>
  \<open>dw_listpids\<close> answers for a nil buffer or one of the given length, with the number of
  bytes and the buffer; \<open>dw_pidinfo\<close> with the number of bytes it wrote; \<open>dw_sysctl\<close> for a
  name and a buffer of the given length, with the error number, the buffer and the length.
\<close>

record darwin_env =
  dw_listpids :: "nat option \<Rightarrow> int \<times> string"
  dw_pidinfo :: "int \<Rightarrow> int \<times> taskallinfo"
  dw_taskinfo_size :: int
  dw_sysctl :: "int list \<Rightarrow> nat \<Rightarrow> nat \<times> string \<times> nat"
  dw_CTL_KERN :: int
  dw_KERN_PROCARGS2 :: int
  dw_ARG_MAX :: nat
  dw_SIDL :: u32
  dw_SRUN :: u32
  dw_SSLEEP :: u32
  dw_SSTOP :: u32
  dw_SZOMB :: u32
  dw_LookupId :: "string \<Rightarrow> string option"

definition ENOMEM :: go_error where
  "ENOMEM = Sentinel ''ENOMEM''"

section \<open>Numbers in a buffer\<close>

text \<open>\<open>binary.Read\<close> of a little-endian \<open>int32\<close>; a short buffer is used up.\<close>

definition le_int32 :: "string \<Rightarrow> int" where
  "le_int32 bs = signed_take_bit 31 (int (foldr (\<lambda>c n. code c + 256 * n) bs 0))"

definition read_int32 :: "string \<Rightarrow> int option \<times> string" where
  "read_int32 buf = (if length buf < 4 then (None, []) else (Some (le_int32 (take 4 buf)), drop 4 buf))"

definition put_int32 :: "int \<Rightarrow> string" where
  "put_int32 i = map (\<lambda>k. char_of (nat (take_bit 32 i) div 256 ^ k)) [0..<4]"

section \<open>FetchPids\<close>

text \<open>The loop over the buffer; an entry that cannot be read is skipped, and so is the number 0.\<close>

fun darwin_pids ::
  "(int \<Rightarrow> u64 \<Rightarrow> (ProcState \<times> bool) outcome \<times> u64) \<Rightarrow> nat \<Rightarrow> string \<Rightarrow> ProcsMap \<Rightarrow> ProcState list \<Rightarrow> u64 \<Rightarrow>
     (ProcsMap \<times> ProcState list) outcome \<times> u64" where
  "darwin_pids fill 0 bbuf procMap plist bootTime = (Ok (procMap, plist), bootTime)"
| "darwin_pids fill (Suc n) bbuf procMap plist bootTime =
     (case read_int32 bbuf of
        (None, bbuf) \<Rightarrow> darwin_pids fill n bbuf procMap plist bootTime
      | (Some pid, bbuf) \<Rightarrow>
          if pid = 0 then darwin_pids fill n bbuf procMap plist bootTime
          else
            (case keep_filled (fill pid bootTime) pid procMap plist of
               (Ok (procMap, plist), bootTime) \<Rightarrow> darwin_pids fill n bbuf procMap plist bootTime
             | r \<Rightarrow> r))"

definition FetchPidsDarwin ::
  "(int \<Rightarrow> u64 \<Rightarrow> (ProcState \<times> bool) outcome \<times> u64) \<Rightarrow> darwin_env \<Rightarrow> u64 \<Rightarrow>
     (ProcsMap \<times> ProcState list) outcome \<times> u64" where
  "FetchPidsDarwin fill d bootTime =
     (let n = fst (dw_listpids d None) in
      if n \<le> 0 then (Err EINVAL, bootTime)
      else
        let (n, buf) = dw_listpids d (Some (nat n)) in
        if n \<le> 0 then (Err ENOMEM, bootTime)
        else darwin_pids fill (nat n div 4) buf Map.empty [] bootTime)"

section \<open>GetInfoForPid\<close>

definition taskInfo :: "darwin_env \<Rightarrow> int \<Rightarrow> taskallinfo outcome" where
  "taskInfo d pid =
     (case dw_pidinfo d pid of (n, info) \<Rightarrow>
        if n \<noteq> dw_taskinfo_size d then Err (Message ''could not read process info for pid'') else Ok info)"

definition darwin_state :: "darwin_env \<Rightarrow> u32 \<Rightarrow> PidState" where
  "darwin_state d status =
     (if status = dw_SIDL d then ''idle''
      else if status = dw_SRUN d then ''running''
      else if status = dw_SSLEEP d then ''sleeping''
      else if status = dw_SSTOP d then ''stopped''
      else if status = dw_SZOMB d then ''zombie''
      else ''unknown'')"

definition user_or_uid :: "(string \<Rightarrow> string option) \<Rightarrow> string \<Rightarrow> string" where
  "user_or_uid LookupId uid = (case LookupId uid of Some name \<Rightarrow> if name \<noteq> [] then name else uid | None \<Rightarrow> uid)"

definition darwin_cpu :: "(u64 option list \<Rightarrow> u64) \<Rightarrow> (int \<Rightarrow> string) \<Rightarrow> taskallinfo \<Rightarrow> ProcCPUInfo" where
  "darwin_cpu SumOptUint format_time info =
     (let user = Some (pti_total_user info div 1000000); sys = Some (pti_total_system info div 1000000) in
      \<lparr>pc_StartTime = unixTimeMsToTime format_time (pbi_start_tvsec info * 1000 + pbi_start_tvusec info div 1000),
       pc_Total = \<lparr>ct_Value = None, ct_Ticks = Some (SumOptUint [user, sys]), ct_Pct = None, ct_Norm = None\<rparr>,
       pc_User = user, pc_System = sys\<rparr>)"

definition GetInfoForPidDarwin ::
  "(u64 option list \<Rightarrow> u64) \<Rightarrow> (int \<Rightarrow> string) \<Rightarrow> darwin_env \<Rightarrow> int \<Rightarrow> ProcState outcome" where
  "GetInfoForPidDarwin SumOptUint format_time d pid =
     (case taskInfo d pid of
        Err err \<Rightarrow> Err (Message ''could not read task for pid'')
      | Panic \<Rightarrow> Panic
      | Ok info \<Rightarrow>
          Ok (zeroProcState\<lparr>ps_Name := GoString (pbi_comm info), ps_State := darwin_state d (pbi_status info),
                ps_Ppid := Some (int (unat (pbi_ppid info))), ps_Pid := Some pid,
                ps_Pgid := Some (int (unat (pbi_pgid info))),
                ps_Username := user_or_uid (dw_LookupId d) (itoa (int (unat (pbi_uid info)))),
                ps_Memory := zeroProcMemInfo\<lparr>pm_Size := Some (pti_virtual_size info),
                  pm_Rss := \<lparr>mb_Bytes = Some (pti_resident_size info), mb_Pct = None\<rparr>\<rparr>,
                ps_CPU := darwin_cpu SumOptUint format_time info\<rparr>))"

section \<open>FillPidMetrics\<close>

definition darwin_sysctl :: "darwin_env \<Rightarrow> int list \<Rightarrow> nat \<Rightarrow> (string \<times> nat) outcome" where
  "darwin_sysctl d mib oldlen =
     (case dw_sysctl d mib oldlen of (e1, buf, len) \<Rightarrow> if e1 \<noteq> 0 then Err (syscall_Errno e1) else Ok (buf, len))"

fun skip_nuls :: "string \<Rightarrow> string outcome" where
  "skip_nuls [] = Err (Wrapped ''error skipping nul values in KERN_PROCARGS2 buffer'' EOF)"
| "skip_nuls (c # cs) = (if c \<noteq> nul then Ok (c # cs) else skip_nuls cs)"

text \<open>What follows the system call: the number of arguments, the executable, the arguments and the environment.\<close>

definition darwin_procargs ::
  "(string \<Rightarrow> bool) option \<Rightarrow> string \<Rightarrow> (string list \<times> string \<times> (string \<rightharpoonup> string)) outcome" where
  "darwin_procargs filt bbuf =
     (case read_int32 bbuf of (argc, bbuf) \<Rightarrow>
      case ReadBytes nul bbuf of (path, eof, bbuf) \<Rightarrow>
        if eof then Err (Wrapped ''error reading the executable name'' EOF)
        else
          and_then (stripNullByte path) (\<lambda>exeName.
          and_then (skip_nuls bbuf) (\<lambda>bbuf.
          and_then (read_args (nat (valueOr 0 argc)) [] bbuf) (\<lambda>(argv, bbuf).
          and_then (read_env ''error reading process information from KERN_PROCARGS2: %!w(<nil>)'' filt Map.empty bbuf) (\<lambda>envVars.
            Ok (argv, exeName, envVars))))))"

text \<open>\<open>Truncate\<close> panics when the length the system returns is greater than the buffer's.\<close>

definition getProcArgsDarwin ::
  "darwin_env \<Rightarrow> int \<Rightarrow> (string \<Rightarrow> bool) option \<Rightarrow> (string list \<times> string \<times> (string \<rightharpoonup> string)) outcome" where
  "getProcArgsDarwin d pid filt =
     and_then (wrap_err ''error in sysctl'' (darwin_sysctl d [dw_CTL_KERN d, dw_KERN_PROCARGS2 d, signed_take_bit 31 pid] (dw_ARG_MAX d)))
       (\<lambda>(buf, argmax). if dw_ARG_MAX d < argmax then Panic else darwin_procargs filt (take argmax buf))"

definition FillPidMetricsDarwin ::
  "darwin_env \<Rightarrow> int \<Rightarrow> ProcState \<Rightarrow> (string \<Rightarrow> bool) option \<Rightarrow> u64 \<Rightarrow> ProcState outcome \<times> u64" where
  "FillPidMetricsDarwin d pid state filt bootTime =
     (and_then (wrap_err ''error fetching string data from process'' (getProcArgsDarwin d pid filt)) (\<lambda>(args, exe, env).
        Ok (state\<lparr>ps_Args := args, ps_Exe := exe,
              ps_Env := (case ps_Env state of None \<Rightarrow> Some env | e \<Rightarrow> e)\<rparr>)),
      bootTime)"

section \<open>Numbers\<close>

lemma code_char_of: "code (char_of n) = n mod 256"
  by (simp add: code_def)

lemma base256:
  assumes "(n :: nat) < 4294967296"
  shows "n mod 256 + 256 * (n div 256 mod 256 + 256 * (n div 65536 mod 256 + 256 * (n div 16777216 mod 256))) = n"
proof -
  define a b c where "a = n div 256" and "b = a div 256" and "c = b div 256"
  have d: "n div 256 = a" "n div 65536 = b" "n div 16777216 = c"
    by (simp_all add: a_def b_def c_def div_mult2_eq[symmetric])
  have c: "c mod 256 = c" using assms d(3) by auto
  have b: "b mod 256 + 256 * c = b" unfolding c_def by (rule mod_mult_div_eq)
  have a: "a mod 256 + 256 * b = a" unfolding b_def by (rule mod_mult_div_eq)
  have "n mod 256 + 256 * a = n" unfolding a_def by (rule mod_mult_div_eq)
  then show ?thesis unfolding d c b a .
qed

lemma put_int32_value:
  assumes "- (2 ^ 31) \<le> i" "i < 2 ^ 31"
  shows "le_int32 (put_int32 i) = i"
proof -
  define n where "n = nat (take_bit 32 i)"
  have n: "n < 4294967296" "int n = take_bit 32 i"
    using take_bit_int_less_exp[of 32 i] by (simp_all add: n_def)
  have "foldr (\<lambda>c n. code c + 256 * n) (put_int32 i) 0 = n"
  proof -
    have "n div 16777216 mod 256 = n div 16777216" using n(1) by auto
    moreover have "put_int32 i = [char_of n, char_of (n div 256), char_of (n div 65536), char_of (n div 16777216)]"
      by (simp add: put_int32_def n_def upt_rec)
    ultimately show ?thesis using base256[OF n(1)] by (simp add: code_char_of)
  qed
  then have "le_int32 (put_int32 i) = signed_take_bit 31 (take_bit 32 i)" by (simp add: le_int32_def n(2))
  also have "\<dots> = signed_take_bit 31 i" by (simp add: signed_take_bit_take_bit)
  also have "\<dots> = i" using assms by (simp add: signed_take_bit_int_eq_self_iff)
  finally show ?thesis .
qed

lemma length_put_int32 [simp]: "length (put_int32 i) = 4"
  by (simp add: put_int32_def)

lemma read_put_int32: "- (2 ^ 31) \<le> i \<Longrightarrow> i < 2 ^ 31 \<Longrightarrow> read_int32 (put_int32 i @ rest) = (Some i, rest)"
  by (simp add: read_int32_def put_int32_value)

section \<open>The listing\<close>

definition int32s :: "int list \<Rightarrow> bool" where
  "int32s ids \<longleftrightarrow> list_all (\<lambda>i. - (2 ^ 31) \<le> i \<and> i < 2 ^ 31) ids"

lemma darwin_pids_iter:
  "int32s ids \<Longrightarrow> darwin_pids fill (length ids) (concat (map put_int32 ids) @ rest) m l bt =
     iter_pids fill m l bt (filter (\<lambda>i. i \<noteq> 0) ids)"
proof (induction ids arbitrary: m l bt)
  case (Cons i ids)
  then have r: "read_int32 (put_int32 i @ concat (map put_int32 ids) @ rest) = (Some i, concat (map put_int32 ids) @ rest)"
    by (simp add: int32s_def read_put_int32)
  then show ?case using Cons
    by (simp add: int32s_def split: prod.splits outcome.splits)
qed simp

section \<open>The arguments of a process\<close>

definition procargs_buffer :: "string list \<Rightarrow> string \<Rightarrow> nat \<Rightarrow> (string \<times> string) list \<Rightarrow> string \<Rightarrow> string" where
  "procargs_buffer args exe padding kvs dropped =
     put_int32 (int (length args)) @ exe @ nul # replicate padding nul @
     concat (map (\<lambda>a. a @ [nul]) args) @ concat (map env_line kvs) @ dropped"

lemma skip_nuls_padding [simp]: "skip_nuls (replicate k nul @ s) = skip_nuls s"
  by (induction k) simp_all

lemma darwin_procargs_unfold:
  assumes "nul \<notin> set exe" "length args < 2 ^ 31"
  shows "darwin_procargs filt (procargs_buffer args exe padding kvs dropped) =
    and_then (skip_nuls (concat (map (\<lambda>a. a @ [nul]) args) @ concat (map env_line kvs) @ dropped)) (\<lambda>bbuf.
    and_then (read_args (length args) [] bbuf) (\<lambda>(argv, bbuf).
    and_then (read_env ''error reading process information from KERN_PROCARGS2: %!w(<nil>)'' filt Map.empty bbuf) (\<lambda>envVars.
      Ok (argv, exe, envVars))))"
proof -
  have "- (2 ^ 31) \<le> int (length args)" "int (length args) < 2 ^ 31" using assms(2) by simp_all
  note read_put_int32[OF this]
  then show ?thesis
    by (simp add: darwin_procargs_def procargs_buffer_def ReadBytes_line[OF assms(1)])
qed

text \<open>
  C17. Of a buffer as the system writes it (the number of arguments, the executable, padding,
  the arguments, the environment, whatever follows) \<open>getProcArgs\<close> returns exactly the
  arguments, the executable and the environment variables the filter accepts, when the
  first argument is not empty.
\<close>

theorem darwin_procargs_roundtrip:
  assumes "nul \<notin> set exe" "list_all (\<lambda>a. nul \<notin> set a) (arg # args)" "arg \<noteq> []" "length (arg # args) < 2 ^ 31"
    and "list_all env_ok kvs" "nul \<notin> set dropped \<or> (\<exists>rest. dropped = nul # rest)"
  shows "darwin_procargs filt (procargs_buffer (arg # args) exe padding kvs dropped) =
    Ok (arg # args, exe, env_of filt kvs Map.empty)"
proof -
  have "skip_nuls (concat (map (\<lambda>a. a @ [nul]) (arg # args)) @ s) = Ok (concat (map (\<lambda>a. a @ [nul]) (arg # args)) @ s)" for s
    using assms(2,3) by (cases arg) auto
  moreover have "read_args (length (arg # args)) [] (concat (map (\<lambda>a. a @ [nul]) (arg # args)) @ concat (map env_line kvs) @ dropped) =
      Ok ([] @ arg # args, concat (map env_line kvs) @ dropped)" for s
    by (rule read_args_lines[OF assms(2)])
  ultimately show ?thesis
    unfolding darwin_procargs_unfold[OF assms(1,4)] by (simp add: read_env_lines[OF assms(5,6)])
qed

text \<open>
  An empty first argument is taken for padding: the arguments are the others and the first
  environment variable, which is missing from the environment.
\<close>

lemma darwin_empty_first:
  assumes "nul \<notin> set exe" "list_all (\<lambda>a. nul \<notin> set a) (arg # args)" "arg \<noteq> []" "length (arg # args) < 2 ^ 31 - 1"
    and "list_all env_ok (kv # kvs)" "nul \<notin> set dropped \<or> (\<exists>rest. dropped = nul # rest)"
  shows "darwin_procargs filt (procargs_buffer ([] # arg # args) exe padding (kv # kvs) dropped) =
    Ok (arg # args @ [fst kv @ ''='' @ snd kv], exe, env_of filt kvs Map.empty)"
proof -
  let ?last = "fst kv @ ''='' @ snd kv"
  let ?args = "(arg # args) @ [?last]"
  let ?s = "concat (map env_line kvs) @ dropped"
  have n: "length ([] # arg # args) < 2 ^ 31" using assms(4) by simp
  have nn: "list_all (\<lambda>a. nul \<notin> set a) ?args" using assms(2,5) by (simp add: env_ok_def)
  have b: "concat (map (\<lambda>a. a @ [nul]) ([] # arg # args)) @ concat (map env_line (kv # kvs)) @ dropped =
      nul # concat (map (\<lambda>a. a @ [nul]) ?args) @ ?s" by (simp add: env_line_def)
  have "skip_nuls (nul # concat (map (\<lambda>a. a @ [nul]) ?args) @ ?s) = Ok (concat (map (\<lambda>a. a @ [nul]) ?args) @ ?s)"
    using assms(2,3) by (cases arg) auto
  moreover have "read_args (length ([] # arg # args)) [] (concat (map (\<lambda>a. a @ [nul]) ?args) @ ?s) = Ok (?args, ?s)"
    using read_args_lines[OF nn, of "[]" ?s] by simp
  ultimately show ?thesis
    unfolding darwin_procargs_unfold[OF assms(1) n] b using assms(5) by (simp add: read_env_lines[OF _ assms(6)])
qed


theorem darwin_procargs_roundtrip_witness:
  "darwin_procargs None (procargs_buffer [''cat'', [], ''f''] ''/bin/cat'' 3 [(''HOME'', ''/''), (''E'', ''a=b'')] (nul # ''rest'')) =
   Ok ([''cat'', [], ''f''], ''/bin/cat'', [''HOME'' \<mapsto> ''/'', ''E'' \<mapsto> ''a=b''])"
  by (subst darwin_procargs_roundtrip) (auto simp: env_ok_def env_of_def)

section \<open>The entry points\<close>

interpretation darwin: os_process "GetInfoForPidDarwin S F d" "FillPidMetricsDarwin d" for S F d
proof unfold_locales
  show "GetInfoForPidDarwin S F d pid = Ok p \<Longrightarrow> ps_Pid p = Some pid" for pid p
    by (auto simp: GetInfoForPidDarwin_def split: outcome.splits)
  show "FillPidMetricsDarwin d pid p filt bt = (Ok q, bt') \<Longrightarrow>
      (ps_Name q, ps_State q, ps_Pid q, ps_Cgroup q) = (ps_Name p, ps_State p, ps_Pid p, ps_Cgroup p)" for pid p filt bt q bt'
    by (auto simp: FillPidMetricsDarwin_def go_outcome)
qed

definition pidFillDarwin :: "darwin_env \<Rightarrow> proc_env \<Rightarrow> Stats \<Rightarrow> int \<Rightarrow> u64 \<Rightarrow> (ProcState \<times> bool) outcome \<times> u64" where
  "pidFillDarwin d e st pid bootTime =
     fill_pid (GetInfoForPidDarwin (pe_SumOptUint e) (pe_format_time e) d) (FillPidMetricsDarwin d) e st pid True bootTime"

lemma FetchPidsDarwin_iter:
  assumes "dw_listpids d None = (int n, b)" "0 < n" "ids \<noteq> []" "int32s ids"
    and "dw_listpids d (Some n) = (int (4 * length ids), concat (map put_int32 ids) @ rest)"
  shows "FetchPidsDarwin fill d bt = iter_pids fill Map.empty [] bt (filter (\<lambda>i. i \<noteq> 0) ids)"
proof -
  have "nat (4 * int (length ids)) div 4 = length ids" by (simp add: nat_mult_distrib)
  then show ?thesis
    using assms(1-3,5) by (simp add: FetchPidsDarwin_def Let_def darwin_pids_iter[OF assms(4)])
qed

text \<open>
  \<open>FetchPids\<close> on macOS reads the numbers of the processes from the buffer of the system
  and fills each but 0: map and list agree, each process is there once under its own
  number, in the order of the buffer, and only processes the filter accepts.
\<close>

theorem FetchPidsDarwin_agree:
  assumes "dw_listpids d None = (int n, b)" "0 < n" "ids \<noteq> []" "int32s ids"
    and "dw_listpids d (Some n) = (int (4 * length ids), concat (map put_int32 ids) @ rest)"
    and "distinct (filter (\<lambda>i. i \<noteq> 0) ids)"
    and "FetchPidsDarwin (pidFillDarwin d e st) d bt = (Ok (m, l), bt')"
  shows "agree m l \<and> list_all (accepted st True) l \<and>
    (\<exists>ks. map ps_Pid l = map Some ks \<and> subseq ks (filter (\<lambda>i. i \<noteq> 0) ids))"
proof -
  have "iter_pids (pidFillDarwin d e st) Map.empty [] bt (filter (\<lambda>i. i \<noteq> 0) ids) = (Ok (m, l), bt')"
    using FetchPidsDarwin_iter[OF assms(1-5)] assms(7) by simp
  from iter_pids_agree[OF _ this, of "accepted st True"]
  have "agree m l \<and> (\<exists>new. l = [] @ new \<and> list_all (accepted st True) new \<and>
      (\<exists>ks. map ps_Pid new = map Some ks \<and> subseq ks (filter (\<lambda>i. i \<noteq> 0) ids)))"
    using darwin.fill_pid_basic assms(6) by (fastforce simp: pidFillDarwin_def agree_def)
  then show ?thesis by auto
qed

text \<open>A system with two processes for the witness.\<close>

definition two_processes :: darwin_env where
  "two_processes =
     \<lparr>dw_listpids = (\<lambda>b. case b of None \<Rightarrow> (12, []) | Some _ \<Rightarrow> (12, concat (map put_int32 [7, 0, 300]))),
      dw_pidinfo = (\<lambda>pid. (232, \<lparr>pbi_comm = ''launchd'', pbi_status = 2, pbi_ppid = 0, pbi_pgid = 1, pbi_uid = 0,
        pbi_start_tvsec = 1, pbi_start_tvusec = 0, pti_virtual_size = 4096, pti_resident_size = 4096, pti_total_user = 0,
        pti_total_system = 0\<rparr>)),
      dw_taskinfo_size = 232, dw_sysctl = (\<lambda>mib n. (1, [], 0)), dw_CTL_KERN = 1, dw_KERN_PROCARGS2 = 49, dw_ARG_MAX = 64,
      dw_SIDL = 1, dw_SRUN = 2, dw_SSLEEP = 3, dw_SSTOP = 4, dw_SZOMB = 5, dw_LookupId = (\<lambda>_. None)\<rparr>"

theorem FetchPidsDarwin_agree_witness:
  "\<exists>m l. FetchPidsDarwin (pidFillDarwin two_processes (snapshot_env (files_env [])) (list_stats host_root)) two_processes 0 =
     (Ok (m, l), 0) \<and> agree m l \<and> map ps_Pid l = [Some 7, Some 300]"
proof -
  let ?fill = "pidFillDarwin two_processes (snapshot_env (files_env [])) (list_stats host_root)"
  let ?ids = "[7, 0, 300]"
  have i: "int32s ?ids" by (simp add: int32s_def)
  have "\<exists>p. ?fill pid 0 = (Ok (p, True), 0) \<and> ps_Pid p = Some pid" for pid
    by (simp add: pidFillDarwin_def fill_pid_def list_stats_def GetInfoForPidDarwin_def taskInfo_def two_processes_def)
  then obtain f where f: "?fill pid 0 = (Ok (f pid, True), 0)" "ps_Pid (f pid) = Some pid" for pid by metis
  have listed: "dw_listpids two_processes None = (int 12, [])"
    "dw_listpids two_processes (Some 12) = (int (4 * length ?ids), concat (map put_int32 ?ids) @ [])"
    by (simp_all add: two_processes_def)
  have F: "FetchPidsDarwin ?fill two_processes 0 = (Ok ([7 \<mapsto> f 7, 300 \<mapsto> f 300], [f 7, f 300]), 0)"
    by (subst FetchPidsDarwin_iter[OF listed(1) _ _ i listed(2)]) (simp_all add: keep_filled_def f)
  have "agree [7 \<mapsto> f 7, 300 \<mapsto> f 300] [f 7, f 300]"
    by (rule FetchPidsDarwin_agree[OF listed(1) _ _ i listed(2) _ F, THEN conjunct1]) simp_all
  then show ?thesis using F f by simp
qed

end
