(* ===== verification/Process_AIX.thy ===== *)
theory Process_AIX
  imports Process_Bytes
begin

text \<open>
  \<open>process_aix.go\<close>: the entry points \<open>pidFill\<close> uses on AIX, its walk over the table of
  processes, and the test for a process. \<open>getprocs\<close>, \<open>getargs\<close> and \<open>getevars\<close>, the
  constants of the C headers and the user database are arguments. The walk has a fuel: it
  is proved how much is enough when the table is finite, and that the loop lists the last
  process twice. Also proved: the round trip of arguments and environment.
\<close>

section \<open>The operating system\<close>

text \<open>The fields of \<open>struct procsinfo64\<close> that are read; integers have the width the code converts them to.\<close>

record procsinfo =
  pi_pid :: int
  pi_comm :: string
  pi_ppid :: int
  pi_pgrp :: int
  pi_state :: u32
  pi_uid :: int
  pi_size :: u64
  pi_sdsize :: u64
  pi_drss :: u64
  pi_trss :: u64
  pi_start :: u64
  pi_utime :: u64
  pi_stime :: u64

text \<open>
  \<open>ai_getprocs\<close> is called with the index pointer and the greatest number of entries: an
  error, or the number of entries, the entries (which overwrite the start of the buffer
  of the caller) and the new index. \<open>ai_zero\<close> is the zero value of an entry.
\<close>

record aix_env =
  ai_getprocs :: "int \<Rightarrow> nat \<Rightarrow> go_error + (procsinfo list \<times> int)"
  ai_getargs :: "procsinfo \<Rightarrow> go_error + string"
  ai_getevars :: "procsinfo \<Rightarrow> go_error + string"
  ai_Getpagesize :: u64
  ai_SACTIVE :: u32
  ai_SIDL :: u32
  ai_SSTOP :: u32
  ai_SZOMB :: u32
  ai_SSWAP :: u32
  ai_LookupId :: "string \<Rightarrow> string option"

definition zero_procsinfo :: procsinfo where
  "zero_procsinfo = \<lparr>pi_pid = 0, pi_comm = [], pi_ppid = 0, pi_pgrp = 0, pi_state = 0, pi_uid = 0, pi_size = 0,
     pi_sdsize = 0, pi_drss = 0, pi_trss = 0, pi_start = 0, pi_utime = 0, pi_stime = 0\<rparr>"

text \<open>What a buffer holds after a call that wrote \<open>new\<close> at its start.\<close>

definition overwrite :: "'a list \<Rightarrow> 'a list \<Rightarrow> 'a list" where
  "overwrite new buf = new @ drop (length new) buf"

section \<open>FetchPids\<close>

text \<open>
  The buffer has one entry. The number of entries is looked at after the entry has been
  used: the round that finds the end of the table uses the entry of the round before.
  The fuel bounds the rounds; \<open>None\<close> when it runs out.
\<close>

fun aix_pids ::
  "nat \<Rightarrow> (int \<Rightarrow> u64 \<Rightarrow> ((ProcState \<times> bool) outcome \<times> u64) option) \<Rightarrow> aix_env \<Rightarrow> procsinfo \<Rightarrow> int \<Rightarrow> ProcsMap \<Rightarrow> ProcState list \<Rightarrow>
     u64 \<Rightarrow> ((ProcsMap \<times> ProcState list) outcome \<times> u64) option" where
  "aix_pids 0 fill a info pid procMap plist bootTime = None"
| "aix_pids (Suc fuel) fill a info pid procMap plist bootTime =
     (case ai_getprocs a pid 1 of
        Inl err \<Rightarrow> Some (Err (Wrapped ''error fetching PIDs'' err), bootTime)
      | Inr (entries, pid) \<Rightarrow>
          let info = hd (overwrite (take 1 entries) [info]) in
          (case fill (pi_pid info) bootTime of
             None \<Rightarrow> None
           | Some filled \<Rightarrow>
               (case keep_filled filled (pi_pid info) procMap plist of
                  (Ok (procMap, plist), bootTime) \<Rightarrow>
                    if length entries = 0 then Some (Ok (procMap, plist), bootTime)
                    else aix_pids fuel fill a info pid procMap plist bootTime
                | r \<Rightarrow> Some r)))"

definition FetchPidsAIX ::
  "nat \<Rightarrow> (int \<Rightarrow> u64 \<Rightarrow> ((ProcState \<times> bool) outcome \<times> u64) option) \<Rightarrow> aix_env \<Rightarrow> u64 \<Rightarrow>
     ((ProcsMap \<times> ProcState list) outcome \<times> u64) option" where
  "FetchPidsAIX fuel fill a bootTime = aix_pids fuel fill a zero_procsinfo 0 Map.empty [] bootTime"

section \<open>procExists\<close>

text \<open>All twenty entries of the buffer are looked at, also those the call has not written.\<close>

fun procExists_loop :: "nat \<Rightarrow> aix_env \<Rightarrow> procsinfo list \<Rightarrow> int \<Rightarrow> int \<Rightarrow> bool outcome option" where
  "procExists_loop 0 a info idxPtr pid = None"
| "procExists_loop (Suc fuel) a info idxPtr pid =
     (case ai_getprocs a idxPtr 20 of
        Inl err \<Rightarrow> Some (Err (Wrapped ''error fetching PID at IndexPointer'' err))
      | Inr (entries, idxPtr) \<Rightarrow>
          if length entries = 0 then Some (Ok False)
          else
            let info = overwrite (take 20 entries) info in
            if list_ex (\<lambda>i. pi_pid i = pid) info then Some (Ok True)
            else procExists_loop fuel a info idxPtr pid)"

definition procExists :: "nat \<Rightarrow> aix_env \<Rightarrow> int \<Rightarrow> bool outcome option" where
  "procExists fuel a pid = procExists_loop fuel a (replicate 20 zero_procsinfo) 0 pid"

section \<open>GetInfoForPid\<close>

definition aix_state :: "aix_env \<Rightarrow> u32 \<Rightarrow> PidState" where
  "aix_state a status =
     (if status = ai_SACTIVE a then ''running''
      else if status = ai_SIDL a then ''idle''
      else if status = ai_SSTOP a then ''stopped''
      else if status = ai_SZOMB a then ''zombie''
      else if status = ai_SSWAP a then ''sleeping''
      else ''unknown'')"

definition aix_username :: "aix_env \<Rightarrow> int \<Rightarrow> string" where
  "aix_username a uid =
     (case ai_LookupId a (itoa uid) of Some name \<Rightarrow> if name \<noteq> [] then name else itoa uid | None \<Rightarrow> itoa uid)"

text \<open>The entry at an index, for the two functions that want exactly one.\<close>

definition aix_entry :: "aix_env \<Rightarrow> int \<Rightarrow> procsinfo outcome" where
  "aix_entry a pid =
     (case ai_getprocs a (signed_take_bit 31 pid) 1 of
        Inl err \<Rightarrow> Err (Wrapped ''error in getprocs'' err)
      | Inr (entries, _) \<Rightarrow> if length entries \<noteq> 1 then Err NoSuchProcess else Ok (hd entries))"

definition GetInfoForPidAIX :: "nat \<Rightarrow> aix_env \<Rightarrow> int \<Rightarrow> ProcState outcome option" where
  "GetInfoForPidAIX fuel a pid =
     (case aix_entry a pid of
        Ok info \<Rightarrow>
          map_option (\<lambda>r. and_then (wrap_err ''error in procExists'' r) (\<lambda>found.
            if \<not> found then Err NoSuchProcess
            else
              Ok (zeroProcState\<lparr>ps_Pid := Some pid, ps_Name := GoString (pi_comm info), ps_Ppid := Some (pi_ppid info),
                    ps_Pgid := Some (pi_pgrp info), ps_State := aix_state a (pi_state info),
                    ps_Username := aix_username a (pi_uid info)\<rparr>)))
            (procExists fuel a pid)
      | Err err \<Rightarrow> Some (Err err)
      | Panic \<Rightarrow> Some Panic)"

section \<open>FillPidMetrics\<close>

text \<open>A buffer of 8192 bytes, which the call fills from its start.\<close>

definition text_buffer :: "string \<Rightarrow> string" where
  "text_buffer written = take 8192 (overwrite written (replicate 8192 nul))"

definition aix_metrics :: "(u64 option list \<Rightarrow> u64) \<Rightarrow> (int \<Rightarrow> string) \<Rightarrow> aix_env \<Rightarrow> procsinfo \<Rightarrow> ProcState \<Rightarrow> ProcState" where
  "aix_metrics SumOptUint format_time a info state =
     (let pagesize = ai_Getpagesize a;
          user = Some (pi_utime info * 1000); sys = Some (pi_stime info * 1000) in
      state\<lparr>ps_Memory := \<lparr>pm_Size = Some (pi_size info * pagesize), pm_Share = Some (pi_sdsize info * pagesize),
              pm_Rss = (pm_Rss (ps_Memory state))\<lparr>mb_Bytes := Some ((pi_drss info + pi_trss info) * pagesize)\<rparr>\<rparr>,
            ps_CPU := (ps_CPU state)\<lparr>pc_StartTime := unixTimeMsToTime format_time (pi_start info * 1000),
              pc_User := user, pc_System := sys,
              pc_Total := (pc_Total (ps_CPU state))\<lparr>ct_Ticks := Some (SumOptUint [user, sys])\<rparr>\<rparr>\<rparr>)"

definition aix_args :: "aix_env \<Rightarrow> procsinfo \<Rightarrow> ProcState \<Rightarrow> ProcState outcome" where
  "aix_args a info state =
     (case ai_getargs a info of
        Inl err \<Rightarrow> Err (Wrapped ''error in getargs'' err)
      | Inr buf \<Rightarrow>
          and_then (read_args_nul [] (text_buffer buf)) (\<lambda>args.
            Ok (state\<lparr>ps_Args := args, ps_Exe := (if 0 < length args then args ! 0 else ps_Exe state)\<rparr>)))"

definition aix_environment :: "aix_env \<Rightarrow> (string \<Rightarrow> bool) option \<Rightarrow> procsinfo \<Rightarrow> ProcState \<Rightarrow> ProcState outcome" where
  "aix_environment a filt info state =
     (case ai_getevars a info of
        Inl err \<Rightarrow> Err (Wrapped ''error in getevars'' err)
      | Inr buf \<Rightarrow>
          if ps_Env state \<noteq> None then Ok state
          else
            and_then (read_env ''error reading environment: %!w(<nil>)'' filt Map.empty (text_buffer buf)) (\<lambda>vars.
              Ok (state\<lparr>ps_Env := Some vars\<rparr>)))"

definition FillPidMetricsAIX ::
  "(u64 option list \<Rightarrow> u64) \<Rightarrow> (int \<Rightarrow> string) \<Rightarrow> aix_env \<Rightarrow> int \<Rightarrow> ProcState \<Rightarrow> (string \<Rightarrow> bool) option \<Rightarrow> u64 \<Rightarrow>
     ProcState outcome \<times> u64" where
  "FillPidMetricsAIX SumOptUint format_time a pid state filt bootTime =
     (and_then (aix_entry a pid) (\<lambda>info.
      let state = aix_metrics SumOptUint format_time a info state;
          info = info\<lparr>pi_pid := signed_take_bit 31 pid\<rparr> in
      and_then (aix_args a info state) (\<lambda>state. aix_environment a filt info state)), bootTime)"


text \<open>\<open>pidFill\<close>, when the test for the process ends; \<open>aix_info\<close> is only used then.\<close>

definition aix_info :: "nat \<Rightarrow> aix_env \<Rightarrow> int \<Rightarrow> ProcState outcome" where
  "aix_info fuel a pid = (case GetInfoForPidAIX fuel a pid of Some r \<Rightarrow> r | None \<Rightarrow> Panic)"

definition pidFillAIX ::
  "nat \<Rightarrow> aix_env \<Rightarrow> proc_env \<Rightarrow> Stats \<Rightarrow> int \<Rightarrow> u64 \<Rightarrow> ((ProcState \<times> bool) outcome \<times> u64) option" where
  "pidFillAIX fuel a e st pid bootTime =
     (if GetInfoForPidAIX fuel a pid = None then None
      else Some (fill_pid (aix_info fuel a) (FillPidMetricsAIX (pe_SumOptUint e) (pe_format_time e) a) e st pid True bootTime))"

definition basics :: "ProcState \<Rightarrow> string \<times> PidState \<times> int option \<times> CGStats" where
  "basics p = (ps_Name p, ps_State p, ps_Pid p, ps_Cgroup p)"

lemma basics_metrics: "basics (aix_metrics S F a info p) = basics p"
  by (simp add: aix_metrics_def Let_def basics_def)

lemma basics_args: "aix_args a info p = Ok q \<Longrightarrow> basics q = basics p"
  by (auto simp: aix_args_def basics_def go_outcome split: sum.splits)

lemma basics_environment: "aix_environment a filt info p = Ok q \<Longrightarrow> basics q = basics p"
  by (auto simp: aix_environment_def basics_def go_outcome split: sum.splits if_splits)

interpretation aix: os_process "aix_info fuel a" "FillPidMetricsAIX S F a" for fuel a S F
proof unfold_locales
  show "aix_info fuel a pid = Ok p \<Longrightarrow> ps_Pid p = Some pid" for pid p
    by (auto simp: aix_info_def GetInfoForPidAIX_def go_outcome split: outcome.splits option.splits if_splits)
  show "FillPidMetricsAIX S F a pid p filt bt = (Ok q, bt') \<Longrightarrow>
      (ps_Name q, ps_State q, ps_Pid q, ps_Cgroup q) = (ps_Name p, ps_State p, ps_Pid p, ps_Cgroup p)" for pid p filt bt q bt'
    unfolding basics_def[symmetric]
    by (auto simp: FillPidMetricsAIX_def Let_def go_outcome dest!: basics_args basics_environment)
      (simp_all add: basics_metrics)
qed

section \<open>Walking the table of processes\<close>

text \<open>
  What \<open>getprocs\<close> documents: it walks a table, the index pointer 0 is its start, a call
  returns the next entries, at most as many as asked for, and moves the index behind them;
  at the end it returns none.
\<close>

definition walks :: "aix_env \<Rightarrow> procsinfo list \<Rightarrow> (nat \<Rightarrow> int) \<Rightarrow> bool" where
  "walks a ts idx \<longleftrightarrow> idx 0 = 0 \<and>
     (\<forall>k n. k \<le> length ts \<longrightarrow> ai_getprocs a (idx k) n = Inr (take n (drop k ts), idx (min (length ts) (k + n))))"

lemma walks_next: "walks a ts idx \<Longrightarrow> k < length ts \<Longrightarrow> ai_getprocs a (idx k) 1 = Inr ([ts ! k], idx (Suc k))"
proof -
  assume "walks a ts idx" "k < length ts"
  moreover from \<open>k < length ts\<close> have "min (length ts) (k + 1) = Suc k" by simp
  ultimately show ?thesis by (simp add: walks_def Cons_nth_drop_Suc[symmetric])
qed

lemma walks_end: "walks a ts idx \<Longrightarrow> \<exists>i. ai_getprocs a (idx (length ts)) n = Inr ([], i)"
  by (simp add: walks_def)

lemma aix_pids_walk:
  assumes "walks a ts idx" "k \<le> length ts" "length ts - k < fuel"
  shows "aix_pids fuel (\<lambda>pid bt. Some (fill pid bt)) a info (idx k) m l bt =
    Some (iter_pids fill m l bt (map pi_pid (drop k ts @ [last (info # drop k ts)])))"
  using assms(2,3)
proof (induction fuel arbitrary: k info m l bt)
  case (Suc fuel)
  show ?case
  proof (cases "k = length ts")
    case True
    then obtain i where "ai_getprocs a (idx k) 1 = Inr ([], i)" using walks_end[OF assms(1)] by blast
    then show ?thesis using True by (simp add: overwrite_def split: prod.splits outcome.splits)
  next
    case False
    then have k: "k < length ts" using Suc.prems by simp
    then have d: "drop k ts = ts ! k # drop (Suc k) ts" by (simp add: Cons_nth_drop_Suc)
    have ih: "aix_pids fuel (\<lambda>pid bt. Some (fill pid bt)) a (ts ! k) (idx (Suc k)) m l bt =
        Some (iter_pids fill m l bt (map pi_pid (drop (Suc k) ts @ [last (ts ! k # drop (Suc k) ts)])))" for m l bt
      using Suc.IH[of "Suc k"] Suc.prems k by simp
    show ?thesis
      using walks_next[OF assms(1) k] unfolding d
      by (simp add: overwrite_def ih split: prod.splits outcome.splits)
  qed
qed simp

text \<open>The test for a process looks at every entry of the table, twenty at a time.\<close>

lemma procExists_walk:
  assumes "walks a ts idx" "pid \<noteq> 0"
  shows "k \<le> length ts \<Longrightarrow> length ts - k < fuel \<Longrightarrow> pid \<notin> pi_pid ` set buf \<Longrightarrow>
    procExists_loop fuel a buf (idx k) pid = Some (Ok (pid \<in> pi_pid ` set (drop k ts)))"
proof (induction fuel arbitrary: k buf)
  case (Suc fuel)
  define batch where "batch = take 20 (drop k ts)"
  define k' where "k' = min (length ts) (k + 20)"
  have call: "ai_getprocs a (idx k) 20 = Inr (batch, idx k')"
    using assms(1) Suc.prems(1) by (simp add: walks_def batch_def k'_def)
  have split: "drop k ts = batch @ drop k' ts"
    unfolding batch_def k'_def using append_take_drop_id[of 20 "drop k ts"]
    by (cases "length ts \<le> k + 20") (simp_all add: min_def add.commute)
  show ?case
  proof (cases "k = length ts")
    case True
    then show ?thesis using call by (simp add: batch_def)
  next
    case False
    then have b: "batch \<noteq> []" "take 20 batch = batch" "k < k'" using Suc.prems(1) by (simp_all add: batch_def k'_def)
    define buf' where "buf' = overwrite batch buf"
    have old: "pid \<in> pi_pid ` set buf' \<longleftrightarrow> pid \<in> pi_pid ` set batch"
      using Suc.prems(3) by (auto simp: buf'_def overwrite_def dest: in_set_dropD)
    have step: "procExists_loop (Suc fuel) a buf (idx k) pid =
        (if pid \<in> pi_pid ` set buf' then Some (Ok True) else procExists_loop fuel a buf' (idx k') pid)"
      using call b(1,2) by (auto simp: buf'_def list_ex_iff Let_def)
    show ?thesis
    proof (cases "pid \<in> pi_pid ` set batch")
      case True
      then show ?thesis using step old split by auto
    next
      case no: False
      have "procExists_loop fuel a buf' (idx k') pid = Some (Ok (pid \<in> pi_pid ` set (drop k' ts)))"
        using Suc.IH[of k' buf'] Suc.prems(1,2) b(3) no old by (simp add: k'_def)
      then show ?thesis using step old no by (simp add: split image_Un)
    qed
  qed
qed simp

lemma procExists_exact:
  assumes "walks a ts idx" "length ts < fuel" "pid \<noteq> 0"
  shows "procExists fuel a pid = Some (Ok (pid \<in> pi_pid ` set ts))"
proof -
  have "idx 0 = 0" using assms(1) by (simp add: walks_def)
  moreover have "pid \<notin> pi_pid ` set (replicate 20 zero_procsinfo)" using assms(3) by (simp add: zero_procsinfo_def)
  ultimately show ?thesis
    using procExists_walk[OF assms(1,3), of 0 fuel "replicate 20 zero_procsinfo"] assms(2) by (simp add: procExists_def)
qed

text \<open>For the number 0 the entries the call has not written count as well; the loop ends all the same.\<close>

lemma procExists_returns:
  assumes "walks a ts idx"
  shows "k \<le> length ts \<Longrightarrow> length ts - k < fuel \<Longrightarrow> procExists_loop fuel a buf (idx k) pid \<noteq> None"
proof (induction fuel arbitrary: k buf)
  case (Suc fuel)
  have call: "ai_getprocs a (idx k) 20 = Inr (take 20 (drop k ts), idx (min (length ts) (k + 20)))"
    using assms Suc.prems(1) by (simp add: walks_def)
  then show ?case
    using Suc.IH[of "min (length ts) (k + 20)"] Suc.prems by (cases "k = length ts") (auto simp: Let_def)
qed simp

lemma pidFillAIX_returns:
  assumes "walks a ts idx" "length ts < fuel"
  shows "pidFillAIX fuel a e st pid bt =
    Some (fill_pid (aix_info fuel a) (FillPidMetricsAIX (pe_SumOptUint e) (pe_format_time e) a) e st pid True bt)"
proof -
  have "idx 0 = 0" using assms(1) by (simp add: walks_def)
  then have "procExists fuel a pid \<noteq> None"
    using procExists_returns[OF assms(1), of 0 fuel] assms(2) by (simp add: procExists_def)
  then show ?thesis by (auto simp: pidFillAIX_def GetInfoForPidAIX_def split: outcome.splits)
qed

text \<open>
  C18. \<open>FetchPids\<close> on AIX ends on a finite table of processes, in one round more than the
  table has entries, the test for each process included, and fills every process of the
  table in its order; but the last round fills the last process again (and on an empty
  table the number 0), so that it can be in the list twice.
\<close>

theorem FetchPidsAIX_walk:
  assumes "walks a ts idx" "length ts < fuel"
  shows "FetchPidsAIX fuel (pidFillAIX fuel a e st) a bt =
    Some (iter_pids (\<lambda>pid bt. the (pidFillAIX fuel a e st pid bt)) Map.empty [] bt
      (map pi_pid ts @ [pi_pid (last (zero_procsinfo # ts))])) \<and>
    (\<forall>pid bt. pidFillAIX fuel a e st pid bt \<noteq> None)"
proof -
  have i: "idx 0 = 0" using assms(1) by (simp add: walks_def)
  define f where "f = (\<lambda>pid bt. fill_pid (aix_info fuel a) (FillPidMetricsAIX (pe_SumOptUint e) (pe_format_time e) a) e st pid True bt)"
  have f: "pidFillAIX fuel a e st = (\<lambda>pid bt. Some (f pid bt))"
    using pidFillAIX_returns[OF assms] by (intro ext) (simp add: f_def)
  show ?thesis using aix_pids_walk[OF assms(1), of 0 fuel f zero_procsinfo Map.empty "[]" bt] assms(2) i
    by (simp add: FetchPidsAIX_def f)
qed


text \<open>A table of one process for the witnesses.\<close>

definition cron :: procsinfo where
  "cron = zero_procsinfo\<lparr>pi_pid := 7, pi_comm := ''cron'', pi_ppid := 1, pi_pgrp := 7, pi_state := 1\<rparr>"

definition one_process :: aix_env where
  "one_process =
     \<lparr>ai_getprocs = (\<lambda>i n. if i = 0 then (if n = 0 then Inr ([], 0) else Inr ([cron], 8))
        else if i = 7 then Inr ([cron], 8) else Inr ([], 8)),
      ai_getargs = (\<lambda>_. Inr (''cron'' @ [nul] @ ''-f'' @ [nul])), ai_getevars = (\<lambda>_. Inr (''TZ=UTC'' @ [nul])),
      ai_Getpagesize = 4096, ai_SACTIVE = 1, ai_SIDL = 2, ai_SSTOP = 3, ai_SZOMB = 4, ai_SSWAP = 5, ai_LookupId = (\<lambda>_. None)\<rparr>"

lemma one_process_walks: "walks one_process [cron] (\<lambda>k. if k = 0 then 0 else 8)"
  by (auto simp: walks_def one_process_def min_def le_Suc_eq take_Cons' drop_Cons' split: nat.splits)

theorem FetchPidsAIX_walk_witness:
  "\<exists>p m. FetchPidsAIX 2 (pidFillAIX 2 one_process (snapshot_env (files_env [])) (list_stats host_root)) one_process 0 =
     Some (Ok (m, [p, p]), 0) \<and> ps_Pid p = Some 7"
proof -
  let ?fill = "pidFillAIX 2 one_process (snapshot_env (files_env [])) (list_stats host_root)"
  note w = FetchPidsAIX_walk[OF one_process_walks, of 2 "snapshot_env (files_env [])" "list_stats host_root" 0]
  have "procExists 2 one_process 7 = Some (Ok True)"
    using procExists_exact[OF one_process_walks, of 2 7] by (simp add: cron_def)
  then obtain p where p: "?fill 7 0 = Some (Ok (p, True), 0)" "ps_Pid p = Some 7"
    by (simp add: pidFillAIX_def fill_pid_def aix_info_def GetInfoForPidAIX_def aix_entry_def one_process_def list_stats_def)
  have "iter_pids (\<lambda>pid bt. the (?fill pid bt)) Map.empty [] 0 [7, 7] = (Ok ([7 \<mapsto> p], [p, p]), 0)"
    by (simp add: keep_filled_def p(1))
  then show ?thesis using w p(2) by (simp add: cron_def)
qed

section \<open>Arguments and environment\<close>

lemma text_buffer_short: "length s < 8192 \<Longrightarrow> text_buffer s = s @ nul # replicate (8191 - length s) nul"
proof -
  assume "length s < 8192"
  then have k: "8192 - length s = Suc (8191 - length s)" by linarith
  have "drop (length s) (replicate 8192 nul) = nul # replicate (8191 - length s) nul"
    unfolding drop_replicate k by (rule replicate_Suc)
  then have "overwrite s (replicate 8192 nul) = s @ nul # replicate (8191 - length s) nul" by (simp only: overwrite_def)
  moreover have "length (s @ nul # replicate (8191 - length s) nul) = 8192" using \<open>length s < 8192\<close> by simp
  ultimately show ?thesis unfolding text_buffer_def by simp
qed

text \<open>
  On AIX the metrics of a process carry its arguments, the first of which is the
  executable, and the environment variables the filter accepts, as \<open>getargs\<close> and
  \<open>getevars\<close> write them (nul-terminated, within their buffers); an empty argument ends
  the list, and an environment kept from an earlier sample stays.
\<close>

theorem FillPidMetricsAIX_texts:
  assumes "aix_entry a pid = Ok info" "list_all (\<lambda>s. nul \<notin> set s \<and> s \<noteq> []) args" "list_all env_ok kvs"
    and "ai_getargs a (info\<lparr>pi_pid := signed_take_bit 31 pid\<rparr>) = Inr (concat (map (\<lambda>s. s @ [nul]) args) @ hidden)"
    and "hidden = [] \<or> hd hidden = nul" "length (concat (map (\<lambda>s. s @ [nul]) args) @ hidden) < 8192"
    and "ai_getevars a (info\<lparr>pi_pid := signed_take_bit 31 pid\<rparr>) = Inr (concat (map env_line kvs))"
    and "length (concat (map env_line kvs)) < 8192"
  shows "\<exists>q. FillPidMetricsAIX S F a pid p filt bt = (Ok q, bt) \<and> ps_Args q = args \<and>
    ps_Exe q = (if args = [] then ps_Exe p else hd args) \<and>
    ps_Env q = (case ps_Env p of None \<Rightarrow> Some (env_of filt kvs Map.empty) | Some env \<Rightarrow> Some env)"
proof -
  let ?info = "info\<lparr>pi_pid := signed_take_bit 31 pid\<rparr>"
  let ?a = "concat (map (\<lambda>s. s @ [nul]) args)" and ?e = "concat (map env_line kvs)"
  obtain pad where "text_buffer (?a @ hidden) = ?a @ nul # pad"
    using text_buffer_short[OF assms(6)] assms(5) by (cases hidden) auto
  then have "read_args_nul [] (text_buffer (?a @ hidden)) = Ok args"
    using read_args_nul_lines[OF assms(2), of "nul # pad" "[]"] by simp
  then obtain q where q: "aix_args a ?info (aix_metrics S F a info p) = Ok q" "ps_Args q = args"
    "ps_Exe q = (if args = [] then ps_Exe p else hd args)" "ps_Env q = ps_Env p"
    using assms(4) by (auto simp: aix_args_def aix_metrics_def Let_def hd_conv_nth)
  have "read_env msg filt Map.empty (text_buffer ?e) = Ok (env_of filt kvs Map.empty)" for msg
    using read_env_lines[OF assms(3), of "nul # replicate (8191 - length ?e) nul"] text_buffer_short[OF assms(8)] by simp
  then have "aix_environment a filt ?info q = Ok (if ps_Env q = None then q\<lparr>ps_Env := Some (env_of filt kvs Map.empty)\<rparr> else q)"
    using assms(7) by (auto simp: aix_environment_def)
  then show ?thesis
    using q assms(1) by (auto simp: FillPidMetricsAIX_def Let_def split: option.splits)
qed

theorem FillPidMetricsAIX_texts_witness:
  "\<exists>q. FillPidMetricsAIX (\<lambda>_. 0) (\<lambda>_. []) one_process 7 zeroProcState None 0 = (Ok q, 0) \<and>
     ps_Args q = [''cron'', ''-f''] \<and> ps_Exe q = ''cron'' \<and> ps_Env q = Some [''TZ'' \<mapsto> ''UTC'']"
proof -
  have e: "aix_entry one_process 7 = Ok cron" by (simp add: aix_entry_def one_process_def)
  have "\<exists>q. FillPidMetricsAIX (\<lambda>_. 0) (\<lambda>_. []) one_process 7 zeroProcState None 0 = (Ok q, 0) \<and>
      ps_Args q = [''cron'', ''-f''] \<and> ps_Exe q = (if [''cron'', ''-f''] = [] then ps_Exe zeroProcState else hd [''cron'', ''-f'']) \<and>
      ps_Env q = (case ps_Env zeroProcState of None \<Rightarrow> Some (env_of None [(''TZ'', ''UTC'')] Map.empty) | Some env \<Rightarrow> Some env)"
    by (rule FillPidMetricsAIX_texts[OF e, where hidden = "[]"]) (simp_all add: env_ok_def env_line_def one_process_def)
  moreover have "ps_Env zeroProcState = None" by (simp add: zeroProcState_def)
  ultimately show ?thesis by (simp add: env_of_def)
qed

end
