(* ===== verification/Collector_OS.thy ===== *)
theory Collector_OS
  imports Collector Process_Darwin Process_AIX Process_Windows
begin

text \<open>
  The collector over any operating system. \<open>Get\<close>, \<open>GetOne\<close>, \<open>GetSelf\<close>, \<open>ListStates\<close> and
  \<open>GetPIDState\<close> are shared code; what they call, \<open>pidFill\<close> and \<open>FetchPids\<close>, is compiled
  from the files of one system. Here the shared code has them as arguments, on Linux it is
  the code of the theory Process, and on Darwin, Windows and AIX it is run on the models of
  their files. A call that does not return (on AIX a walk of the process table can last for
  ever) is \<open>None\<close>.
\<close>

section \<open>The shared operations\<close>

type_synonym filled = "((ProcState \<times> bool) outcome \<times> u64) option"
type_synonym fetched = "((ProcsMap \<times> ProcState list) outcome \<times> u64) option"

definition Get_over ::
  "fetched \<Rightarrow> (ProcState \<Rightarrow> 'm outcome) \<Rightarrow> proc_env \<Rightarrow> Stats \<Rightarrow> u64 \<Rightarrow>
     ((('m \<times> (string \<rightharpoonup> proto_entry) option) list \<times> ProcStateRootEvent list) outcome \<times> Stats \<times> u64) option" where
  "Get_over fetch Convert e st bootTime =
     (if length (st_Procs st) = 0 then Some (Ok ([], []), st, bootTime)
      else
        case fetch of
          None \<Rightarrow> None
        | Some (Err err, bootTime) \<Rightarrow> Some (Err (Wrapped ''error gathering PIDs'' err), st, bootTime)
        | Some (Panic, bootTime) \<Rightarrow> Some (Panic, st, bootTime)
        | Some (Ok (pidMap, plist), bootTime) \<Rightarrow>
            (case SetMap (st_ProcsMap st) pidMap of
               Ok procsMap \<Rightarrow>
                 let st = st\<lparr>st_ProcsMap := procsMap\<rparr>;
                     plist = includeTopProcesses (pe_Slice e) (st_IncludeTop st) plist;
                     totalPhyMem = (if st_host st then valueOr 0 (pe_Memory e) else 0) in
                 Some (format_all Convert e st totalPhyMem plist, st, bootTime)
             | _ \<Rightarrow> Some (Panic, st, bootTime)))"

definition GetSelf_over :: "filled \<Rightarrow> Stats \<Rightarrow> int \<Rightarrow> (ProcState outcome \<times> Stats \<times> u64) option" where
  "GetSelf_over fill st pid =
     map_option (\<lambda>(r, bootTime). case set_filled st pid r of (r, st) \<Rightarrow> (r, st, bootTime)) fill"

definition GetOne_over ::
  "filled \<Rightarrow> (ProcState \<Rightarrow> 'm outcome) \<Rightarrow> proc_env \<Rightarrow> Stats \<Rightarrow> int \<Rightarrow>
     (('m \<times> (string \<rightharpoonup> proto_entry) option) outcome \<times> Stats \<times> u64) option" where
  "GetOne_over fill Convert e st pid =
     map_option (\<lambda>(r, st, bootTime). (and_then r (\<lambda>pidStat. getProcessEvent Convert (pe_order e) st pidStat), st, bootTime))
       (GetSelf_over fill st pid)"

definition ListStates_over :: "(Stats \<Rightarrow> fetched) \<Rightarrow> proc_env \<Rightarrow> resolver \<Rightarrow> u64 \<Rightarrow> (ProcState list outcome \<times> u64) option" where
  "ListStates_over fetch e hostfs bootTime =
     (case Init e (list_stats hostfs) of
        (st, Ok ()) \<Rightarrow>
          map_option (\<lambda>(r, bootTime). (and_then (wrap_err ''error gathering PIDs'' r) (\<lambda>(_, plist). Ok plist), bootTime)) (fetch st)
      | (st, Err err) \<Rightarrow> Some (Err (Wrapped ''error initializing process collectors'' err), bootTime)
      | (st, Panic) \<Rightarrow> Some (Panic, bootTime))"

definition GetPIDState_over :: "(int \<Rightarrow> ProcState outcome) \<Rightarrow> proc_env \<Rightarrow> int \<Rightarrow> PidState outcome" where
  "GetPIDState_over info e pid =
     and_then (wrap_err ''Error trying to find process'' (pe_PidExists e (signed_take_bit 31 pid))) (\<lambda>exists.
       if \<not> exists then Err ProcNotExist
       else and_then (wrap_err ''error getting state info'' (info pid)) (\<lambda>procState. Ok (ps_State procState)))"

text \<open>On AIX \<open>GetPIDState\<close> takes its first branch: psutil is not asked, \<open>ESRCH\<close> is the missing process.\<close>

definition GetPIDStateAIX :: "nat \<Rightarrow> aix_env \<Rightarrow> int \<Rightarrow> PidState outcome option" where
  "GetPIDStateAIX fuel a pid =
     map_option (\<lambda>r. case r of
         Err err \<Rightarrow> if err = NoSuchProcess then Err ProcNotExist else Err (Wrapped ''error getting PID info'' err)
       | Panic \<Rightarrow> Panic
       | Ok state \<Rightarrow> Ok (ps_State state))
     (GetInfoForPidAIX fuel a pid)"

section \<open>The systems\<close>

definition fill_linux :: "proc_env \<Rightarrow> Stats \<Rightarrow> int \<Rightarrow> bool \<Rightarrow> u64 \<Rightarrow> filled" where
  "fill_linux e st pid filt bootTime = Some (pidFill e st pid filt bootTime)"

definition fetch_linux :: "proc_env \<Rightarrow> Stats \<Rightarrow> u64 \<Rightarrow> fetched" where
  "fetch_linux e st bootTime = Some (FetchPids e st bootTime)"

definition fill_darwin :: "darwin_env \<Rightarrow> proc_env \<Rightarrow> Stats \<Rightarrow> int \<Rightarrow> bool \<Rightarrow> u64 \<Rightarrow> filled" where
  "fill_darwin d e st pid filt bootTime =
     Some (fill_pid (GetInfoForPidDarwin (pe_SumOptUint e) (pe_format_time e) d) (FillPidMetricsDarwin d) e st pid filt bootTime)"

definition fetch_darwin :: "darwin_env \<Rightarrow> proc_env \<Rightarrow> Stats \<Rightarrow> u64 \<Rightarrow> fetched" where
  "fetch_darwin d e st bootTime = Some (FetchPidsDarwin (pidFillDarwin d e st) d bootTime)"

definition fill_windows :: "('h, 'b, 'u, 't, 's) win_env \<Rightarrow> proc_env \<Rightarrow> Stats \<Rightarrow> int \<Rightarrow> bool \<Rightarrow> u64 \<Rightarrow> filled" where
  "fill_windows x e st pid filt bootTime =
     Some (fill_pid (GetInfoForPidWindows x) (FillPidMetricsWindows (pe_format_time e) x) e st pid filt bootTime)"

definition fetch_windows :: "('h, 'b, 'u, 't, 's) win_env \<Rightarrow> proc_env \<Rightarrow> Stats \<Rightarrow> u64 \<Rightarrow> fetched" where
  "fetch_windows x e st bootTime = Some (FetchPidsWindows (pidFillWindows x e st) x bootTime)"

definition fill_aix :: "nat \<times> aix_env \<Rightarrow> proc_env \<Rightarrow> Stats \<Rightarrow> int \<Rightarrow> bool \<Rightarrow> u64 \<Rightarrow> filled" where
  "fill_aix w e st pid filt bootTime =
     (case w of (fuel, a) \<Rightarrow>
        if GetInfoForPidAIX fuel a pid = None then None
        else Some (fill_pid (aix_info fuel a) (FillPidMetricsAIX (pe_SumOptUint e) (pe_format_time e) a) e st pid filt bootTime))"

definition fetch_aix :: "nat \<times> aix_env \<Rightarrow> proc_env \<Rightarrow> Stats \<Rightarrow> u64 \<Rightarrow> fetched" where
  "fetch_aix w e st bootTime = (case w of (fuel, a) \<Rightarrow> FetchPidsAIX fuel (pidFillAIX fuel a e st) a bootTime)"

text \<open>What a listing calls is what a single process gets, with the filter on.\<close>

lemma fill_listing:
  "fill_darwin d e st pid True bt = Some (pidFillDarwin d e st pid bt)"
  "fill_windows x e st pid True bt = Some (pidFillWindows x e st pid bt)"
  "fill_aix (fuel, a) e st pid True bt = pidFillAIX fuel a e st pid bt"
  by (simp_all add: fill_darwin_def pidFillDarwin_def fill_windows_def pidFillWindows_def fill_aix_def pidFillAIX_def)

text \<open>On Linux the shared code is the code of the theory Process.\<close>

lemma linux_over:
  "Get_over (fetch_linux e st bt) Convert e st bt = Some (Get Convert e st bt)"
  "GetSelf_over (fill_linux e st (pe_Getpid e) False bt) st (pe_Getpid e) = Some (GetSelf e st bt)"
  "GetOne_over (fill_linux e st pid False bt) Convert e st pid = Some (GetOne Convert e st pid bt)"
  "ListStates_over (\<lambda>st. fetch_linux e st bt) e hostfs bt = Some (ListStates e hostfs bt)"
  "GetPIDState_over (GetInfoForPid (pe_os e) hostfs) e pid = GetPIDState e hostfs pid"
  by (simp_all add: Get_over_def Get_def fetch_linux_def fill_linux_def GetSelf_over_def GetSelf_def GetOne_over_def GetOne_def
      ListStates_over_def ListStates_def GetPIDState_over_def GetPIDState_def Let_def
      split: prod.splits outcome.splits unit.splits)

section \<open>Steps\<close>

text \<open>As in the theory Collector; \<open>'w\<close> is what a call meets of the operating system.\<close>

inductive os_step ::
  "('w \<Rightarrow> proc_env \<Rightarrow> Stats \<Rightarrow> int \<Rightarrow> bool \<Rightarrow> u64 \<Rightarrow> filled) \<Rightarrow> ('w \<Rightarrow> proc_env \<Rightarrow> Stats \<Rightarrow> u64 \<Rightarrow> fetched) \<Rightarrow>
     (ProcState \<Rightarrow> 'm outcome) \<Rightarrow> Stats \<times> u64 \<Rightarrow> Stats \<times> u64 \<Rightarrow> bool"
  for fill :: "'w \<Rightarrow> proc_env \<Rightarrow> Stats \<Rightarrow> int \<Rightarrow> bool \<Rightarrow> u64 \<Rightarrow> filled"
    and fetch :: "'w \<Rightarrow> proc_env \<Rightarrow> Stats \<Rightarrow> u64 \<Rightarrow> fetched" and Convert :: "ProcState \<Rightarrow> 'm outcome" where
  os_get: "Get_over (fetch w e st bt) Convert e st bt = Some (r, st', bt') \<Longrightarrow> os_step fill fetch Convert (st, bt) (st', bt')"
| os_get_one: "GetOne_over (fill w e st pid False bt) Convert e st pid = Some (q, st', bt') \<Longrightarrow>
    os_step fill fetch Convert (st, bt) (st', bt')"
| os_get_self: "GetSelf_over (fill w e st (pe_Getpid e) False bt) st (pe_Getpid e) = Some (s, st', bt') \<Longrightarrow>
    os_step fill fetch Convert (st, bt) (st', bt')"
| os_other: "bt = 0 \<Longrightarrow> os_step fill fetch Convert (st, bt) (st, bt')"

inductive os_reaches ::
  "('w \<Rightarrow> proc_env \<Rightarrow> Stats \<Rightarrow> int \<Rightarrow> bool \<Rightarrow> u64 \<Rightarrow> filled) \<Rightarrow> ('w \<Rightarrow> proc_env \<Rightarrow> Stats \<Rightarrow> u64 \<Rightarrow> fetched) \<Rightarrow>
     (ProcState \<Rightarrow> 'm outcome) \<Rightarrow> Stats \<times> u64 \<Rightarrow> Stats \<times> u64 \<Rightarrow> bool"
  for fill :: "'w \<Rightarrow> proc_env \<Rightarrow> Stats \<Rightarrow> int \<Rightarrow> bool \<Rightarrow> u64 \<Rightarrow> filled"
    and fetch :: "'w \<Rightarrow> proc_env \<Rightarrow> Stats \<Rightarrow> u64 \<Rightarrow> fetched" and Convert :: "ProcState \<Rightarrow> 'm outcome" and s :: "Stats \<times> u64" where
  os_start: "os_reaches fill fetch Convert s s"
| os_next: "os_reaches fill fetch Convert s t \<Longrightarrow> os_step fill fetch Convert t u \<Longrightarrow> os_reaches fill fetch Convert s u"

inductive_cases os_stepE [consumes 1, case_names get get_one get_self other]:
  "os_step fill fetch Convert (st, bt) (st', bt')"

section \<open>What a system promises the collector\<close>

locale collector_os =
  fixes fill :: "'w \<Rightarrow> proc_env \<Rightarrow> Stats \<Rightarrow> int \<Rightarrow> bool \<Rightarrow> u64 \<Rightarrow> filled"
    and fetch :: "'w \<Rightarrow> proc_env \<Rightarrow> Stats \<Rightarrow> u64 \<Rightarrow> fetched"
  assumes fill_typed: "fill w e st pid filt bt = Some (Ok (p, saved), bt') \<Longrightarrow> typed_entry pid p"
    and fetch_typed: "fetch w e st bt = Some (Ok (m, l), bt') \<Longrightarrow> typed_map m"
begin

lemma over_self_table:
  assumes "GetSelf_over (fill w e st pid False bt) st pid = Some (q, st', bt')" "st_ProcsMap st = Some t" "typed_map (pids t)"
  shows "\<exists>t'. st' = st\<lparr>st_ProcsMap := Some t'\<rparr> \<and> typed_map (pids t')"
proof -
  obtain r b where f: "fill w e st pid False bt = Some (r, b)"
    using assms(1) by (auto simp: GetSelf_over_def)
  then have r: "set_filled st pid r = (q, st')"
    using assms(1) by (cases "set_filled st pid r") (simp add: GetSelf_over_def)
  show ?thesis
    by (rule set_filled_table[OF r assms(2,3)]) (use f fill_typed in blast)
qed

lemma over_get_table:
  assumes "Get_over (fetch w e st bt) Convert e st bt = Some (r, st', bt')" "st_ProcsMap st = Some t" "typed_map (pids t)"
  shows "\<exists>t'. st' = st\<lparr>st_ProcsMap := Some t'\<rparr> \<and> typed_map (pids t')"
proof -
  have keep: "\<exists>t'. st = st\<lparr>st_ProcsMap := Some t'\<rparr> \<and> typed_map (pids t')"
    using assms(2,3) by (intro exI[of _ t]) simp
  show ?thesis
  proof (cases "length (st_Procs st) = 0")
    case True
    then show ?thesis using assms(1) keep by (simp add: Get_over_def)
  next
    case False
    then obtain f b where f: "fetch w e st bt = Some (f, b)"
      using assms(1) by (cases "fetch w e st bt") (auto simp: Get_over_def)
    show ?thesis
    proof (cases f)
      case (Ok x)
      then obtain m l where x: "f = Ok (m, l)" by (cases x) auto
      then have "st' = st\<lparr>st_ProcsMap := Some \<lparr>pids = m\<rparr>\<rparr>"
        using assms(1,2) False f by (auto simp: Get_over_def SetMap_def Let_def)
      then show ?thesis using fetch_typed f x by auto
    qed (use assms(1) False f keep in \<open>auto simp: Get_over_def\<close>)
  qed
qed

lemma os_step_table:
  assumes "os_step fill fetch Convert (st, bt) (st', bt')" "st_ProcsMap st = Some t" "typed_map (pids t)"
  shows "\<exists>t'. st' = st\<lparr>st_ProcsMap := Some t'\<rparr> \<and> typed_map (pids t')"
  using assms(1)
proof (cases rule: os_stepE)
  case (get w e r)
  then show ?thesis using over_get_table assms(2,3) by blast
next
  case (get_one w e pid q)
  then show ?thesis using over_self_table assms(2,3) by (auto simp: GetOne_over_def)
next
  case (get_self w e s)
  then show ?thesis using over_self_table assms(2,3) by blast
next
  case other
  then show ?thesis using assms(2,3) by (intro exI[of _ t]) simp
qed

lemma os_reaches_table:
  assumes "os_reaches fill fetch Convert s s'" "st_ProcsMap (fst s) = Some k" "typed_map (pids k)"
  shows "\<exists>t'. fst s' = (fst s)\<lparr>st_ProcsMap := Some t'\<rparr> \<and> typed_map (pids t')"
  using assms
proof (induction rule: os_reaches.induct)
  case os_start
  then show ?case by (intro exI[of _ k]) simp
next
  case (os_next t u)
  then obtain t' where t: "fst t = (fst s)\<lparr>st_ProcsMap := Some t'\<rparr>" "typed_map (pids t')" by blast
  obtain t'' where "fst u = (fst t)\<lparr>st_ProcsMap := Some t''\<rparr>" "typed_map (pids t'')"
    using os_step_table[of Convert "fst t" "snd t" "fst u" "snd u"] os_next.hyps(2) t by (cases t; cases u) auto
  then show ?case using t(1) by auto
qed

text \<open>From the table that \<open>Init\<close> makes.\<close>

lemma os_run_table:
  assumes "Init e cfg = (st0, Ok ())" "os_reaches fill fetch Convert (st0, bt) (st, bt')"
  shows "\<exists>t. st = st0\<lparr>st_ProcsMap := Some t\<rparr> \<and> typed_map (pids t)"
  using os_reaches_table[OF assms(2), of NewProcsTrack] Init_table[OF assms(1)] by (simp add: NewProcsTrack_def)

end

section \<open>The listings are typed\<close>

lemma keep_filled_typed:
  assumes "keep_filled f pid m l = (Ok (m', l'), bt')" "typed_map m" "\<And>p bt'. f = (Ok (p, True), bt') \<Longrightarrow> typed_entry pid p"
  shows "typed_map m'"
  using keep_filled_cases[OF assms(1)] assms(2,3) by auto

lemma iter_pids_typed:
  assumes "\<And>pid bt p saved bt'. fill pid bt = (Ok (p, saved), bt') \<Longrightarrow> typed_entry pid p"
  shows "iter_pids fill m l bt ids = (Ok (m', l'), bt') \<Longrightarrow> typed_map m \<Longrightarrow> typed_map m'"
proof (induction ids arbitrary: m l bt)
  case (Cons pid ids)
  obtain k b where k: "keep_filled (fill pid bt) pid m l = (k, b)" by fastforce
  then obtain m1 l1 where m1: "k = Ok (m1, l1)" using Cons.prems(1) by (cases k) auto
  have "typed_map m1"
    by (rule keep_filled_typed[OF k[unfolded m1] Cons.prems(2)]) (use assms in blast)
  then show ?case using Cons k m1 by simp
qed simp

lemma darwin_pids_typed:
  assumes "\<And>pid bt p saved bt'. fill pid bt = (Ok (p, saved), bt') \<Longrightarrow> typed_entry pid p"
  shows "darwin_pids fill n buf m l bt = (Ok (m', l'), bt') \<Longrightarrow> typed_map m \<Longrightarrow> typed_map m'"
proof (induction n arbitrary: buf m l bt)
  case (Suc n)
  obtain r rest where r: "read_int32 buf = (r, rest)" by fastforce
  show ?case
  proof (cases "r = None \<or> r = Some 0")
    case True
    then show ?thesis using Suc r by auto
  next
    case False
    then obtain pid where pid: "r = Some pid" "pid \<noteq> 0" by auto
    obtain k b where k: "keep_filled (fill pid bt) pid m l = (k, b)" by fastforce
    then obtain m1 l1 where m1: "k = Ok (m1, l1)" using Suc.prems(1) r pid by (cases k) auto
    have "typed_map m1"
      by (rule keep_filled_typed[OF k[unfolded m1] Suc.prems(2)]) (use assms in blast)
    then show ?thesis using Suc k m1 r pid by simp
  qed
qed simp

lemma aix_pids_typed:
  assumes "\<And>pid bt p saved bt'. fill pid bt = Some (Ok (p, saved), bt') \<Longrightarrow> typed_entry pid p"
  shows "aix_pids fuel fill a info i m l bt = Some (Ok (m', l'), bt') \<Longrightarrow> typed_map m \<Longrightarrow> typed_map m'"
proof (induction fuel arbitrary: info i m l bt)
  case (Suc fuel)
  obtain entries j where g: "ai_getprocs a i 1 = Inr (entries, j)"
    using Suc.prems(1) by (cases "ai_getprocs a i 1") auto
  define info' where "info' = hd (overwrite (take (Suc 0) entries) [info])"
  obtain f where f: "fill (pi_pid info') bt = Some f"
    using Suc.prems(1) g by (cases "fill (pi_pid info') bt") (auto simp: info'_def)
  obtain k b where k: "keep_filled f (pi_pid info') m l = (k, b)" by fastforce
  then obtain m1 l1 where m1: "k = Ok (m1, l1)"
    using Suc.prems(1) g f by (cases k) (auto simp: info'_def[symmetric] Let_def)
  have t: "typed_map m1"
    by (rule keep_filled_typed[OF k[unfolded m1] Suc.prems(2)]) (use assms f in blast)
  have step: "(if length entries = 0 then Some (Ok (m1, l1), b) else aix_pids fuel fill a info' j m1 l1 b) = Some (Ok (m', l'), bt')"
    using Suc.prems(1) g f k m1 unfolding info'_def by (simp add: Let_def)
  show ?case
  proof (cases "entries = []")
    case True
    then show ?thesis using step t by simp
  next
    case False
    then have "aix_pids fuel fill a info' j m1 l1 b = Some (Ok (m', l'), bt')" using step by simp
    then show ?thesis using Suc.IH t by blast
  qed
qed simp

section \<open>Every system keeps the promise\<close>

lemma fresh_cgroup:
  "GetInfoForPidDarwin S F d pid = Ok p \<Longrightarrow> proper_cgroup (ps_Cgroup p)"
  "GetInfoForPidWindows x pid = Ok p \<Longrightarrow> proper_cgroup (ps_Cgroup p)"
  "aix_info fuel a pid = Ok p \<Longrightarrow> proper_cgroup (ps_Cgroup p)"
  by (auto simp: GetInfoForPidDarwin_def GetInfoForPidWindows_def aix_info_def GetInfoForPidAIX_def go_outcome
      split: outcome.splits option.splits if_splits)

lemma fill_darwin_typed: "fill_darwin d e st pid filt bt = Some (Ok (p, saved), bt') \<Longrightarrow> typed_entry pid p"
  using os_process.fill_pid_typed[OF darwin.os_process_axioms] fresh_cgroup(1) unfolding fill_darwin_def by blast

lemma fill_windows_typed: "fill_windows x e st pid filt bt = Some (Ok (p, saved), bt') \<Longrightarrow> typed_entry pid p"
  using os_process.fill_pid_typed[OF windows.os_process_axioms] fresh_cgroup(2) unfolding fill_windows_def by blast

lemma fill_aix_typed: "fill_aix w e st pid filt bt = Some (Ok (p, saved), bt') \<Longrightarrow> typed_entry pid p"
  using os_process.fill_pid_typed[OF aix.os_process_axioms] fresh_cgroup(3) unfolding fill_aix_def by (auto split: prod.splits if_splits)

interpretation linux_os: collector_os "\<lambda>_ :: unit. fill_linux" "\<lambda>_. fetch_linux"
  by unfold_locales (auto simp: fill_linux_def fetch_linux_def dest: pidFill_typed FetchPids_typed)

interpretation darwin_os: collector_os fill_darwin fetch_darwin
proof unfold_locales
  show "fetch_darwin d e st bt = Some (Ok (m, l), bt') \<Longrightarrow> typed_map m" for d e st bt m l bt'
    using darwin_pids_typed[of "pidFillDarwin d e st"] fill_darwin_typed[of d e st _ True]
    by (auto simp: fetch_darwin_def FetchPidsDarwin_def fill_listing Let_def split: if_splits prod.splits)
qed (rule fill_darwin_typed)

interpretation windows_os: collector_os fill_windows fetch_windows
proof unfold_locales
  show "fetch_windows x e st bt = Some (Ok (m, l), bt') \<Longrightarrow> typed_map m" for x :: "('h, 'b, 'u, 't, 's) win_env" and e st bt m l bt'
    using iter_pids_typed[of "pidFillWindows x e st"] fill_windows_typed[of x e st _ True]
    by (auto simp: fetch_windows_def FetchPidsWindows_def fill_listing split: outcome.splits)
qed (rule fill_windows_typed)

interpretation aix_os: collector_os fill_aix fetch_aix
proof unfold_locales
  show "fetch_aix w e st bt = Some (Ok (m, l), bt') \<Longrightarrow> typed_map m" for w e st bt m l bt'
    using aix_pids_typed[of "pidFillAIX (fst w) (snd w) e st"] fill_aix_typed[of w e st _ True]
    by (cases w) (auto simp: fetch_aix_def FetchPidsAIX_def fill_listing)
qed (rule fill_aix_typed)

section \<open>Properties\<close>

text \<open>
  C11. The invariant of the collector on the other systems: after \<open>Init\<close> and any calls on
  Darwin, on Windows or on AIX the configuration is the one it was given, and every process
  in the table is filed under its own number with statistics that are nil or point to
  something. The shared code rests on what each system's \<open>pidFill\<close> and \<open>FetchPids\<close> promise.
\<close>

theorem other_collectors_typed:
  assumes "Init e cfg = (st0, Ok ())"
    and "os_reaches fill_darwin fetch_darwin Convert (st0, bt) (st, bt') \<or>
      os_reaches fill_windows fetch_windows Convert (st0, bt) (st, bt') \<or>
      os_reaches fill_aix fetch_aix Convert (st0, bt) (st, bt')"
  shows "\<exists>t. st = st0\<lparr>st_ProcsMap := Some t\<rparr> \<and> typed_map (pids t)"
  using assms(2)
    darwin_os.os_run_table[OF assms(1), of Convert bt st bt']
    windows_os.os_run_table[OF assms(1), of Convert bt st bt']
    aix_os.os_run_table[OF assms(1), of Convert bt st bt'] by blast

theorem other_collectors_typed_witness:
  "\<exists>q st bt t. GetSelf_over (fill_darwin two_processes (snapshot_env cgroup_files) plain_st 1 False 0) plain_st 1 = Some (q, st, bt) \<and>
     st = plain_st\<lparr>st_ProcsMap := Some t\<rparr> \<and> typed_map (pids t)"
proof -
  let ?e = "snapshot_env cgroup_files"
  have self: "pe_Getpid ?e = 1" by (simp add: snapshot_env_def)
  obtain q st bt where g: "GetSelf_over (fill_darwin two_processes ?e plain_st 1 False 0) plain_st 1 = Some (q, st, bt)"
    unfolding GetSelf_over_def fill_darwin_def by (simp split: prod.splits) (metis surj_pair)
  have "os_step fill_darwin fetch_darwin (\<lambda>p. Ok ()) (plain_st, 0) (st, bt)"
    by (rule os_step.os_get_self[of fill_darwin two_processes ?e]) (simp add: self g)
  then have r: "os_reaches fill_darwin fetch_darwin (\<lambda>p. Ok ()) (plain_st, 0) (st, bt)"
    by (rule os_reaches.os_next[OF os_reaches.os_start])
  show ?thesis using other_collectors_typed[OF plain_run disjI1[OF r]] g by blast
qed

text \<open>
  C19. \<open>GetPIDState\<close> on AIX: on a table that can be walked, a process that is not in it is
  \<open>ProcNotExist\<close>, whether or not \<open>getprocs\<close> has an entry at its index, one that is in it has
  the state of that entry, and a failing call is an error of its own that wraps its cause.
\<close>

theorem GetPIDStateAIX_errors:
  assumes "walks a ts idx" "length ts < fuel" "pid \<noteq> 0"
  shows "GetPIDStateAIX fuel a pid = Some
    (case ai_getprocs a (signed_take_bit 31 pid) 1 of
       Inl err \<Rightarrow> Err (Wrapped ''error getting PID info'' (Wrapped ''error in getprocs'' err))
     | Inr (entries, _) \<Rightarrow>
         if length entries = 1 \<and> pid \<in> pi_pid ` set ts then Ok (aix_state a (pi_state (hd entries))) else Err ProcNotExist)"
proof -
  have "Wrapped ''error in getprocs'' err \<noteq> NoSuchProcess" for err by simp
  then show ?thesis
    using procExists_exact[OF assms]
    by (auto simp: GetPIDStateAIX_def GetInfoForPidAIX_def aix_entry_def split: sum.splits prod.splits)
qed

theorem GetPIDStateAIX_errors_witness:
  "GetPIDStateAIX 2 one_process 7 = Some (Ok (aix_state one_process 1)) \<and> GetPIDStateAIX 2 one_process 9 = Some (Err ProcNotExist)"
  using GetPIDStateAIX_errors[OF one_process_walks, of 2 7] GetPIDStateAIX_errors[OF one_process_walks, of 2 9]
  by (simp add: one_process_def cron_def)

end
