(* ===== verification/Hwmon.thy ===== *)
theory Hwmon
  imports Resolve Go_Numbers
begin

text \<open>
  \<open>metric/system/hwmon\<close>: the sensors of \<open>/sys/class/hwmon\<close>. The regular expression
  \<open>(^[a-z]*)([0-9]*)\<close> always matches at the start of a name: its groups are the letters and
  the digits that follow them. Which paths are symbolic links is an argument. Proved:
  which sensors a directory has, what a reading is, and how a sensor without a value
  makes the whole report fail.
\<close>

definition hwmon_baseDir :: string where
  "hwmon_baseDir = ''/sys/class/hwmon''"

definition ErrNoMetric :: go_error where
  "ErrNoMetric = Sentinel ''no Metrics exist in this device''"

record SensorType =
  fileKey :: string
  units :: string

definition TempSensor :: SensorType where
  "TempSensor = \<lparr>fileKey = ''temp'', units = ''celsius''\<rparr>"

definition VoltSensor :: SensorType where
  "VoltSensor = \<lparr>fileKey = ''in'', units = ''millivolts''\<rparr>"

definition FanSensor :: SensorType where
  "FanSensor = \<lparr>fileKey = ''fan'', units = ''rpm''\<rparr>"

record Sensor =
  DevType :: SensorType
  SensorNum :: int

record Device =
  dev_Name :: string
  AbsPath :: string
  Sensors :: "Sensor list"

record SensorMetrics =
  sm_Label :: string
  sm_sensorType :: SensorType
  sm_Critical :: "u64 option"
  sm_Max :: "u64 option"
  sm_Lowest :: "u64 option"
  sm_Average :: "u64 option"
  sm_Value :: "u64 option"

type_synonym MonData = "string \<rightharpoonup> SensorMetrics"

section \<open>Reading one value\<close>

definition getName :: "Sensor \<Rightarrow> string \<Rightarrow> string" where
  "getName s kind = fileKey (DevType s) @ itoa (SensorNum s) @ ''_'' @ kind"

definition stringStrip :: "os_env \<Rightarrow> string \<Rightarrow> string \<Rightarrow> string outcome" where
  "stringStrip w name path =
     (case os_ReadFile w (path_Join [path, name]) of
        Err err \<Rightarrow> if os_IsNotExist err then Err err else Err (Wrapped ''error reading file'' err)
      | Panic \<Rightarrow> Panic
      | Ok raw \<Rightarrow> Ok (trim_space raw))"

text \<open>The number is signed; the conversion to \<open>uint64\<close> keeps its bits.\<close>

definition stringStripInt :: "os_env \<Rightarrow> string \<Rightarrow> string \<Rightarrow> u64 outcome" where
  "stringStripInt w name path =
     and_then (stringStrip w name path) (\<lambda>raw.
       case parse_int raw of
         (conv, None) \<Rightarrow> Ok (of_int conv)
       | (_, Some e) \<Rightarrow> Err (Wrapped ''error converting value'' (NumError e)))"

definition millicelsiusToCelsius :: "u64 \<Rightarrow> u64" where
  "millicelsiusToCelsius x = x div 1000"

definition getValueForSensor :: "os_env \<Rightarrow> string \<Rightarrow> string \<Rightarrow> SensorType \<Rightarrow> u64 outcome" where
  "getValueForSensor w name path st =
     and_then (wrap_err ''error fetching int val'' (stringStripInt w name path)) (\<lambda>intval.
       Ok (if st = TempSensor then millicelsiusToCelsius intval else intval))"

text \<open>\<open>critVal, _ := getValueForSensor(\<dots>)\<close> and its like: nothing on an error.\<close>

definition optional_value :: "u64 outcome \<Rightarrow> u64 option" where
  "optional_value r = (case r of Ok v \<Rightarrow> Some v | _ \<Rightarrow> None)"

definition sensor_value :: "os_env \<Rightarrow> Sensor \<Rightarrow> string \<Rightarrow> string \<Rightarrow> u64 outcome" where
  "sensor_value w s path kind = getValueForSensor w (getName s kind) path (DevType s)"

definition Sensor_Fetch :: "os_env \<Rightarrow> Sensor \<Rightarrow> string \<Rightarrow> SensorMetrics outcome" where
  "Sensor_Fetch w s path =
     and_then
       (case stringStrip w (getName s ''label'') path of
          Err err \<Rightarrow>
            if os_IsNotExist err then Ok (fileKey (DevType s) @ ''_'' @ itoa (SensorNum s))
            else Err (Wrapped ''error fetching label'' err)
        | r \<Rightarrow> r) (\<lambda>label.
     and_then
       (case sensor_value w s path ''input'' of
          Err err \<Rightarrow> if os_IsNotExist err then Err ErrNoMetric else Err (Wrapped ''error fetching input'' err)
        | r \<Rightarrow> r) (\<lambda>input.
     Ok \<lparr>sm_Label = label, sm_sensorType = DevType s,
         sm_Critical = optional_value (sensor_value w s path ''crit''),
         sm_Max = optional_value (sensor_value w s path ''max''),
         sm_Lowest = optional_value (sensor_value w s path ''lowest''),
         sm_Average = optional_value (sensor_value w s path ''average''),
         sm_Value = Some input\<rparr>))"

section \<open>A report\<close>

definition label_key :: "string \<Rightarrow> string" where
  "label_key label = to_lower (map (\<lambda>c. if c = CHR '' '' then CHR ''_'' else c) label)"

fun report_loop :: "os_env \<Rightarrow> string \<Rightarrow> MonData \<Rightarrow> Sensor list \<Rightarrow> MonData outcome" where
  "report_loop w path metrics [] = Ok metrics"
| "report_loop w path metrics (sensor # rest) =
     (case Sensor_Fetch w sensor path of
        Err err \<Rightarrow>
          if errors_Is err ErrNoMetric then report_loop w path metrics rest
          else Err (Wrapped ''error fetching sensor data'' err)
      | Panic \<Rightarrow> Panic
      | Ok data \<Rightarrow> report_loop w path (metrics(label_key (sm_Label data) \<mapsto> data)) rest)"

definition ReportSensors :: "os_env \<Rightarrow> Device \<Rightarrow> MonData outcome" where
  "ReportSensors w dev = report_loop w (AbsPath dev) Map.empty (Sensors dev)"

section \<open>Finding sensors\<close>

definition getSensorType :: "string \<Rightarrow> SensorType option" where
  "getSensorType s =
     (if s = ''temp'' then Some TempSensor
      else if s = ''in'' then Some VoltSensor
      else if s = ''fan'' then Some FanSensor
      else None)"

definition is_lower :: "char \<Rightarrow> bool" where
  "is_lower c \<longleftrightarrow> 97 \<le> code c \<and> code c \<le> 122"

text \<open>The two groups of the regular expression; their concatenation is the whole match.\<close>

definition sensor_groups :: "string \<Rightarrow> string \<times> string" where
  "sensor_groups name = (takeWhile is_lower name, takeWhile is_digit (dropWhile is_lower name))"

fun sensors_loop :: "string set \<Rightarrow> Sensor list \<Rightarrow> dirent list \<Rightarrow> Sensor list outcome" where
  "sensors_loop found sensorList [] = Ok sensorList"
| "sensors_loop found sensorList (entry # rest) =
     (if ent_is_dir entry then sensors_loop found sensorList rest
      else if CHR ''_'' \<notin> set (ent_name entry) then sensors_loop found sensorList rest
      else
        case sensor_groups (ent_name entry) of (key, num) \<Rightarrow>
          if key @ num \<in> found then sensors_loop found sensorList rest
          else
            (case getSensorType key of
               None \<Rightarrow> sensors_loop found sensorList rest
             | Some st \<Rightarrow>
                 (case parse_int num of
                    (_, Some e) \<Rightarrow> Err (Wrapped ''error parsing int'' (NumError e))
                  | (sensorNum, None) \<Rightarrow>
                      sensors_loop (insert (key @ num) found)
                        (sensorList @ [\<lparr>DevType = st, SensorNum = sensorNum\<rparr>]) rest)))"

definition findSensorsInPath :: "os_env \<Rightarrow> string \<Rightarrow> Sensor list outcome" where
  "findSensorsInPath w path =
     and_then (wrap_err ''error reading from hwmon path'' (os_ReadDir w path)) (\<lambda>files. sensors_loop {} [] files)"

section \<open>Detection\<close>

text \<open>\<open>lstat\<close> says whether a path is a symbolic link. A relative target is joined to the base directory.\<close>

definition device_path :: "(string \<Rightarrow> errno + bool) \<Rightarrow> os_env \<Rightarrow> string \<Rightarrow> string outcome" where
  "device_path lstat w name =
     (case lstat name of
        Inl e \<Rightarrow> Err (Wrapped ''error statting hwinfo path'' (PathError e))
      | Inr False \<Rightarrow> Ok name
      | Inr True \<Rightarrow>
          and_then (wrap_err ''error reading path link'' (os_Readlink w name)) (\<lambda>apath.
            Ok (if \<not> path_IsAbs apath then path_Join [hwmon_baseDir, apath] else apath)))"

fun detect_loop :: "(string \<Rightarrow> errno + bool) \<Rightarrow> os_env \<Rightarrow> string \<Rightarrow> Device list \<Rightarrow> dirent list \<Rightarrow> Device list outcome" where
  "detect_loop lstat w fullPath sensorList [] = Ok sensorList"
| "detect_loop lstat w fullPath sensorList (path # rest) =
     and_then (device_path lstat w (path_Join [fullPath, ent_name path])) (\<lambda>apath.
     and_then (findSensorsInPath w apath) (\<lambda>sensors.
     and_then (wrap_err ''error reading sensor name file'' (os_ReadFile w (path_Join [apath, ''name'']))) (\<lambda>sensorName.
       detect_loop lstat w fullPath
         (sensorList @ [\<lparr>dev_Name = trim_space sensorName, AbsPath = apath, Sensors = sensors\<rparr>]) rest)))"

definition DetectHwmon :: "(string \<Rightarrow> errno + bool) \<Rightarrow> os_env \<Rightarrow> resolver \<Rightarrow> Device list outcome" where
  "DetectHwmon lstat w hostfs =
     (let fullPath = ResolveHostFS hostfs hwmon_baseDir in
      if (case os_Stat w fullPath of Err err \<Rightarrow> os_IsNotExist err | _ \<Rightarrow> False)
      then Err (Message ''hwmon path does not exist'')
      else
        and_then (wrap_err ''error reading directory'' (os_ReadDir w fullPath)) (\<lambda>paths.
        and_then (detect_loop lstat w fullPath [] paths) (\<lambda>sensorList.
          if length sensorList = 0 then Err (Message ''no hwmon devices found'') else Ok sensorList)))"

section \<open>The sensors of a directory\<close>

text \<open>A file of a sensor: its type, its number and what it holds.\<close>

definition sensor_file :: "SensorType \<Rightarrow> nat \<Rightarrow> string \<Rightarrow> dirent" where
  "sensor_file st n kind = \<lparr>ent_name = fileKey st @ show_nat n @ ''_'' @ kind, ent_is_dir = False\<rparr>"

definition sensor_types :: "SensorType set" where
  "sensor_types = {TempSensor, VoltSensor, FanSensor}"

text \<open>Entries that are passed over: directories, names without an underscore, other types.\<close>

definition unrelated :: "dirent \<Rightarrow> bool" where
  "unrelated d \<longleftrightarrow> ent_is_dir d \<or> CHR ''_'' \<notin> set (ent_name d) \<or> getSensorType (fst (sensor_groups (ent_name d))) = None"

datatype hwmon_entry = SensorFile SensorType nat string | OtherEntry dirent

fun entry_ok :: "hwmon_entry \<Rightarrow> bool" where
  "entry_ok (SensorFile st n kind) \<longleftrightarrow> st \<in> sensor_types \<and> n < 2 ^ 63"
| "entry_ok (OtherEntry d) \<longleftrightarrow> unrelated d"

fun show_entry :: "hwmon_entry \<Rightarrow> dirent" where
  "show_entry (SensorFile st n kind) = sensor_file st n kind"
| "show_entry (OtherEntry d) = d"

fun sensors_of :: "hwmon_entry list \<Rightarrow> Sensor list" where
  "sensors_of [] = []"
| "sensors_of (OtherEntry d # rest) = sensors_of rest"
| "sensors_of (SensorFile st n kind # rest) = \<lparr>DevType = st, SensorNum = int n\<rparr> # sensors_of rest"

definition add_new :: "'a \<Rightarrow> 'a list \<Rightarrow> 'a list" where
  "add_new x xs = (if x \<in> set xs then xs else xs @ [x])"

lemma fold_add_new: "distinct ys \<Longrightarrow> distinct (fold add_new xs ys) \<and> set (fold add_new xs ys) = set xs \<union> set ys"
  by (induction xs arbitrary: ys) (auto simp: add_new_def)

lemma getSensorType_key: "st \<in> sensor_types \<Longrightarrow> getSensorType (fileKey st) = Some st"
  by (auto simp: sensor_types_def getSensorType_def TempSensor_def VoltSensor_def FanSensor_def)

lemma fileKey_lower: "st \<in> sensor_types \<Longrightarrow> list_all is_lower (fileKey st)"
  by (auto simp: sensor_types_def is_lower_def TempSensor_def VoltSensor_def FanSensor_def code_def)

lemma digit_not_lower: "is_digit c \<Longrightarrow> \<not> is_lower c"
  by (simp add: is_digit_def is_lower_def)

lemma sensor_groups_file:
  assumes "st \<in> sensor_types"
  shows "sensor_groups (fileKey st @ show_nat n @ CHR ''_'' # kind) = (fileKey st, show_nat n)"
proof -
  obtain c cs where c: "show_nat n = c # cs" by (meson neq_Nil_conv show_nat_nonempty)
  then have nl: "\<not> is_lower c" using hd_show_nat[of n] digit_not_lower by simp
  have "takeWhile is_lower (fileKey st @ show_nat n @ CHR ''_'' # kind) = fileKey st"
    "dropWhile is_lower (fileKey st @ show_nat n @ CHR ''_'' # kind) = show_nat n @ CHR ''_'' # kind"
    using fileKey_lower[OF assms] nl by (simp_all add: c list_all_iff takeWhile_append2 dropWhile_append2)
  moreover have "takeWhile is_digit (show_nat n @ CHR ''_'' # kind) = show_nat n"
    by (rule takeWhile_show_nat) (simp add: is_digit_def code_def)
  ultimately show ?thesis by (simp add: sensor_groups_def)
qed

text \<open>What the loop remembers of a sensor.\<close>

definition sensor_key :: "Sensor \<Rightarrow> string" where
  "sensor_key s = fileKey (DevType s) @ show_nat (nat (SensorNum s))"

lemma parse_show_nat: "n < 2 ^ 63 \<Longrightarrow> parse_int (show_nat n) = (int n, None)"
  using parse_int_itoa[of "int n"] by (simp add: itoa_def)

lemma show_nat_inject: "show_nat m = show_nat n \<Longrightarrow> m < 2 ^ 63 \<Longrightarrow> n < 2 ^ 63 \<Longrightarrow> m = n"
  by (metis Pair_inject of_nat_eq_iff parse_show_nat)

definition sensor_ok :: "Sensor \<Rightarrow> bool" where
  "sensor_ok s \<longleftrightarrow> DevType s \<in> sensor_types \<and> 0 \<le> SensorNum s \<and> SensorNum s < 2 ^ 63"

lemma sensor_key_inject:
  assumes "sensor_ok s" "sensor_ok t" "sensor_key s = sensor_key t"
  shows "s = t"
proof -
  have g: "sensor_groups (sensor_key u @ ''_'') = (fileKey (DevType u), show_nat (nat (SensorNum u)))" if "sensor_ok u" for u
    using sensor_groups_file[of "DevType u" "nat (SensorNum u)" "[]"] that by (simp add: sensor_key_def sensor_ok_def)
  have k: "fileKey (DevType s) = fileKey (DevType t)" "show_nat (nat (SensorNum s)) = show_nat (nat (SensorNum t))"
    using g[OF assms(1)] g[OF assms(2)] assms(3) by simp_all
  have "DevType s = DevType t"
    using k(1) assms(1,2) unfolding sensor_ok_def by (metis getSensorType_key option.inject)
  moreover have "nat (SensorNum s) = nat (SensorNum t)"
    using k(2) assms by (intro show_nat_inject) (simp_all add: sensor_ok_def nat_less_iff)
  ultimately show ?thesis using assms by (cases s; cases t) (auto simp: sensor_ok_def)
qed

lemma sensors_of_ok: "list_all entry_ok es \<Longrightarrow> list_all sensor_ok (sensors_of es)"
  by (induction es rule: sensors_of.induct) (auto simp: sensor_ok_def)

lemma sensors_loop_finds:
  "list_all entry_ok es \<Longrightarrow> list_all sensor_ok ss \<Longrightarrow>
     sensors_loop (sensor_key ` set ss) ss (map show_entry es) = Ok (fold add_new (sensors_of es) ss)"
proof (induction es arbitrary: ss rule: sensors_of.induct)
  case (2 d rest)
  then show ?case by (auto simp: unrelated_def split: prod.splits)
next
  case (3 st n kind rest)
  let ?s = "\<lparr>DevType = st, SensorNum = int n\<rparr>"
  have st: "st \<in> sensor_types" "n < 2 ^ 63" using 3 by auto
  have ok: "sensor_ok ?s" using st by (simp add: sensor_ok_def)
  have key: "fileKey st @ show_nat n = sensor_key ?s" by (simp add: sensor_key_def)
  have mem: "sensor_key ?s \<in> sensor_key ` set ss \<longleftrightarrow> ?s \<in> set ss"
    using sensor_key_inject[OF ok] 3(3) by (auto simp: list_all_iff)
  have "sensors_loop (sensor_key ` set ss) ss (map show_entry (SensorFile st n kind # rest)) =
      (if ?s \<in> set ss then sensors_loop (sensor_key ` set ss) ss (map show_entry rest)
       else sensors_loop (insert (sensor_key ?s) (sensor_key ` set ss)) (ss @ [?s]) (map show_entry rest))"
    using st by (simp add: sensor_file_def sensor_groups_file getSensorType_key parse_show_nat key mem)
  moreover have "sensors_loop (sensor_key ` set (ss @ [?s])) (ss @ [?s]) (map show_entry rest) =
      Ok (fold add_new (sensors_of rest) (ss @ [?s]))"
    using 3 ok by (intro 3(1)) simp_all
  moreover have "sensors_loop (sensor_key ` set ss) ss (map show_entry rest) = Ok (fold add_new (sensors_of rest) ss)"
    using 3 by (intro 3(1)) simp_all
  ultimately show ?case by (simp add: add_new_def[of ?s ss])
qed simp

text \<open>
  C38. In a directory of sensor files (a type, a number, an underscore) and unrelated
  entries, every sensor that some file names is found, once, in the order of the files.
\<close>

theorem findSensorsInPath_finds:
  assumes "dir_of w path = Inr (map show_entry es)" "list_all entry_ok es"
  shows "findSensorsInPath w path = Ok (fold add_new (sensors_of es) []) \<and>
    distinct (fold add_new (sensors_of es) []) \<and> set (fold add_new (sensors_of es) []) = set (sensors_of es)"
  using assms sensors_loop_finds[of es "[]"] fold_add_new[of "[]" "sensors_of es"]
  by (simp add: findSensorsInPath_def os_ReadDir_def)

definition demo_entries :: "hwmon_entry list" where
  "demo_entries = [OtherEntry \<lparr>ent_name = ''device'', ent_is_dir = True\<rparr>, SensorFile TempSensor 1 ''input'',
     SensorFile FanSensor 2 ''input'', SensorFile TempSensor 1 ''label'', OtherEntry \<lparr>ent_name = ''pwm1_enable'', ent_is_dir = False\<rparr>]"

theorem findSensorsInPath_finds_witness:
  "findSensorsInPath ((files_env [])\<lparr>dir_of := (\<lambda>_. Inr (map show_entry demo_entries))\<rparr>) ''/x'' =
     Ok [\<lparr>DevType = TempSensor, SensorNum = 1\<rparr>, \<lparr>DevType = FanSensor, SensorNum = 2\<rparr>]"
proof -
  have "fold add_new (sensors_of demo_entries) [] = [\<lparr>DevType = TempSensor, SensorNum = 1\<rparr>, \<lparr>DevType = FanSensor, SensorNum = 2\<rparr>]"
    by (simp add: demo_entries_def add_new_def TempSensor_def FanSensor_def)
  moreover have "list_all entry_ok demo_entries"
    by (simp add: demo_entries_def unrelated_def sensor_types_def getSensorType_def sensor_groups_def is_lower_def code_def)
  ultimately show ?thesis
    using findSensorsInPath_finds[of "(files_env [])\<lparr>dir_of := (\<lambda>_. Inr (map show_entry demo_entries))\<rparr>" "''/x''" demo_entries]
    by simp
qed

section \<open>Readings\<close>

text \<open>A file with a number: what a sensor's value is, below zero included.\<close>

lemma getValueForSensor_number:
  assumes "file_of w (path_Join [path, name]) = Inr (itoa i @ [newline])" "- (2 ^ 63) \<le> i" "i < 2 ^ 63"
  shows "getValueForSensor w name path st = Ok (if st = TempSensor then of_int i div 1000 else of_int i)"
proof -
  have "trim_space (itoa i @ [newline]) = itoa i"
    using trim_number[of "[]" "[newline]"] by (simp add: itoa_def newline_def)
  then show ?thesis
    using assms by (simp add: getValueForSensor_def stringStripInt_def stringStrip_def os_ReadFile_def parse_int_itoa
        millicelsiusToCelsius_def)
qed

text \<open>No error of a sensor is ever recognized as a missing value: they are wrapped before they are looked at.\<close>

lemma stringStrip_Err: "stringStrip w name path = Err e \<Longrightarrow> \<not> errors_Is e ErrNoMetric"
  by (auto simp: stringStrip_def ErrNoMetric_def go_outcome split: outcome.splits if_splits)

lemma stringStripInt_Err:
  assumes "stringStripInt w name path = Err e"
  shows "\<not> errors_Is e ErrNoMetric"
proof (cases "stringStrip w name path")
  case (Ok raw)
  obtain n r where "parse_int raw = (n, r)" by (rule prod.exhaust)
  then show ?thesis using assms Ok by (cases r) (auto simp: stringStripInt_def ErrNoMetric_def)
qed (use assms in \<open>auto simp: stringStripInt_def dest: stringStrip_Err\<close>)

lemma getValueForSensor_Err:
  "getValueForSensor w name path st = Err e \<Longrightarrow> \<not> os_IsNotExist e \<and> \<not> errors_Is e ErrNoMetric"
  by (auto simp: getValueForSensor_def go_outcome dest!: stringStripInt_Err) (auto simp: ErrNoMetric_def)

lemma Sensor_Fetch_Err:
  assumes "Sensor_Fetch w s path = Err e"
  shows "\<not> errors_Is e ErrNoMetric"
proof (cases "sensor_value w s path ''input''")
  case (Err e')
  then show ?thesis
    using assms getValueForSensor_Err[of w _ path _ e']
    by (auto simp: Sensor_Fetch_def sensor_value_def go_outcome ErrNoMetric_def dest!: stringStrip_Err
        split: outcome.splits if_splits)
qed (use assms in \<open>auto simp: Sensor_Fetch_def go_outcome ErrNoMetric_def dest!: stringStrip_Err split: outcome.splits if_splits\<close>)

lemma report_loop_Ok:
  "report_loop w path metrics sensors = Ok m \<Longrightarrow> s \<in> set sensors \<Longrightarrow> \<exists>d. Sensor_Fetch w s path = Ok d"
  by (induction sensors arbitrary: metrics) (auto dest: Sensor_Fetch_Err split: outcome.splits if_splits)

text \<open>
  A sensor whose value file is missing, which is meant to be skipped, makes the report
  of its whole device fail: a report that succeeds has read every sensor.
\<close>

theorem ReportSensors_missing_value:
  assumes "s \<in> set (Sensors dev)" "file_of w (path_Join [AbsPath dev, getName s ''input'']) = Inl ENOENT"
  shows "\<not> (\<exists>m. ReportSensors w dev = Ok m)"
proof -
  have "\<not> (\<exists>d. Sensor_Fetch w s (AbsPath dev) = Ok d)"
    using assms(2) by (auto simp: Sensor_Fetch_def sensor_value_def getValueForSensor_def stringStripInt_def stringStrip_def
        os_ReadFile_def go_outcome)
  then show ?thesis using assms(1) report_loop_Ok unfolding ReportSensors_def by blast
qed

theorem ReportSensors_missing_value_witness:
  "\<not> (\<exists>m. ReportSensors (files_env []) \<lparr>dev_Name = ''x'', AbsPath = ''/x'', Sensors = [\<lparr>DevType = FanSensor, SensorNum = 1\<rparr>]\<rparr> = Ok m)"
  by (rule ReportSensors_missing_value[of "\<lparr>DevType = FanSensor, SensorNum = 1\<rparr>"]) (simp_all add: files_env_def)

text \<open>A temperature below zero is reported as a number beyond \<open>2 ^ 53\<close>.\<close>

lemma negative_temperature:
  assumes "file_of w (path_Join [path, name]) = Inr (itoa (- 5000) @ [newline])"
  shows "getValueForSensor w name path TempSensor = Ok 18446744073709546"
  using getValueForSensor_number[OF assms, of TempSensor] by simp

end
