(* ===== verification/Hwmon_Fold.thy ===== *)
theory Hwmon_Fold
  imports Hwmon
begin

text \<open>
  \<open>SensorMetrics.Fold\<close> of \<open>hwmon_types.go\<close>: how the metrics of a sensor are handed to a
  visitor of structform, which may fail at any event. Proved: the events and their order,
  and that the first error of the visitor ends the fold.
\<close>

section \<open>The code\<close>

text \<open>The calls on a visitor; the object of \<open>OnUint64Object\<close> has one entry, a unit and a number.\<close>

datatype fold_event = OnObjectStart nat | OnKey string | OnUint64Object string u64 | OnObjectFinished

type_synonym 'v visitor = "fold_event \<Rightarrow> 'v \<Rightarrow> go_error option \<times> 'v"

text \<open>
  The exported fields in their order, with the name in the struct tag and the result of the
  cast to \<open>opt.Uint\<close>, which fails for the label.
\<close>

definition struct_fields :: "SensorMetrics \<Rightarrow> (string \<times> u64 option) list" where
  "struct_fields sm =
     [(''label'', None), (''critical'', sm_Critical sm), (''max'', sm_Max sm), (''lowest'', sm_Lowest sm),
      (''average'', sm_Average sm), (''value'', sm_Value sm)]"

fun fold_fields :: "'v visitor \<Rightarrow> SensorType \<Rightarrow> (string \<times> u64 option) list \<Rightarrow> 'v \<Rightarrow> unit outcome \<times> 'v" where
  "fold_fields visit t [] v = (Ok (), v)"
| "fold_fields visit t ((skey, castUint) # rest) v =
     (let skey = (if skey = ''value'' then fileKey t else skey) in
      case castUint of
        None \<Rightarrow> fold_fields visit t rest v
      | Some x \<Rightarrow>
          (case visit (OnKey skey) v of
             (Some err, v) \<Rightarrow> (Err (Wrapped ''error in OnKey'' err), v)
           | (None, v) \<Rightarrow>
               (case visit (OnUint64Object (units t) x) v of
                  (Some err, v) \<Rightarrow> (Err (Wrapped ''error in OnKey'' err), v)
                | (None, v) \<Rightarrow> fold_fields visit t rest v)))"

text \<open>The struct has seven fields, one of them not exported.\<close>

definition Fold :: "'v visitor \<Rightarrow> SensorMetrics \<Rightarrow> 'v \<Rightarrow> unit outcome \<times> 'v" where
  "Fold visit sm v =
     (case visit (OnObjectStart 7) v of
        (Some err, v) \<Rightarrow> (Err (Wrapped ''error starting object in Fold'' err), v)
      | (None, v) \<Rightarrow>
          (case fold_fields visit (sm_sensorType sm) (struct_fields sm) v of
             (Ok (), v) \<Rightarrow>
               (case visit OnObjectFinished v of
                  (Some err, v) \<Rightarrow> (Err (Wrapped ''error in OnObjectFinished'' err), v)
                | (None, v) \<Rightarrow> (Ok (), v))
           | r \<Rightarrow> r))"

section \<open>What a visitor sees\<close>

definition reading_events :: "SensorType \<Rightarrow> string \<times> u64 option \<Rightarrow> fold_event list" where
  "reading_events t f =
     (case f of (key, None) \<Rightarrow> []
      | (key, Some x) \<Rightarrow> [OnKey (if key = ''value'' then fileKey t else key), OnUint64Object (units t) x])"

definition fold_events :: "SensorMetrics \<Rightarrow> fold_event list" where
  "fold_events sm = OnObjectStart 7 # concat (map (reading_events (sm_sensorType sm)) (struct_fields sm)) @ [OnObjectFinished]"

text \<open>Events handed over one after the other, up to the first error.\<close>

fun deliver :: "'v visitor \<Rightarrow> fold_event list \<Rightarrow> 'v \<Rightarrow> go_error option \<times> 'v" where
  "deliver visit [] v = (None, v)"
| "deliver visit (ev # evs) v =
     (case visit ev v of (Some err, v) \<Rightarrow> (Some err, v) | (None, v) \<Rightarrow> deliver visit evs v)"

definition wraps :: "go_error option \<Rightarrow> unit outcome \<Rightarrow> bool" where
  "wraps err r \<longleftrightarrow> (case err of None \<Rightarrow> r = Ok () | Some err \<Rightarrow> \<exists>msg. r = Err (Wrapped msg err))"

lemma deliver_append:
  "deliver visit (xs @ ys) v = (case deliver visit xs v of (None, v) \<Rightarrow> deliver visit ys v | r \<Rightarrow> r)"
  by (induction visit xs v rule: deliver.induct) (auto split: prod.splits option.splits)

lemma fold_fields_deliver:
  "\<exists>r. fold_fields visit t fs v = (r, snd (deliver visit (concat (map (reading_events t) fs)) v)) \<and>
     wraps (fst (deliver visit (concat (map (reading_events t) fs)) v)) r"
proof (induction visit t fs v rule: fold_fields.induct)
  case (2 visit t key cast rest v)
  show ?case
  proof (cases cast)
    case None
    then show ?thesis using 2(1)[OF refl None] by (simp add: reading_events_def)
  next
    case (Some x)
    let ?k = "if key = ''value'' then fileKey t else key"
    obtain e1 v1 where v1: "visit (OnKey ?k) v = (e1, v1)" by (metis surj_pair)
    obtain e2 v2 where v2: "visit (OnUint64Object (units t) x) v1 = (e2, v2)" by (metis surj_pair)
    show ?thesis
      using v1 v2 2(2)[OF refl Some v1[symmetric] _ v2[symmetric]]
      by (cases e1; cases e2) (simp_all add: Some reading_events_def wraps_def Let_def)
  qed
qed (simp add: wraps_def)

text \<open>
  What a visitor sees of the metrics of a sensor is an object with one entry for each
  number that exists, in the order of the fields and without the label; the visitor's first
  error ends the fold and is what it returns, wrapped.
\<close>

theorem Fold_delivers:
  "\<exists>r. Fold visit sm v = (r, snd (deliver visit (fold_events sm) v)) \<and> wraps (fst (deliver visit (fold_events sm) v)) r"
proof -
  let ?evs = "concat (map (reading_events (sm_sensorType sm)) (struct_fields sm))"
  obtain e1 v1 where v1: "visit (OnObjectStart 7) v = (e1, v1)" by (metis surj_pair)
  obtain r where r: "fold_fields visit (sm_sensorType sm) (struct_fields sm) v1 = (r, snd (deliver visit ?evs v1))"
    "wraps (fst (deliver visit ?evs v1)) r"
    using fold_fields_deliver[of visit "sm_sensorType sm" "struct_fields sm" v1] by blast
  obtain e2 v2 where d: "deliver visit ?evs v1 = (e2, v2)" by (metis surj_pair)
  obtain e3 v3 where v3: "visit OnObjectFinished v2 = (e3, v3)" by (metis surj_pair)
  show ?thesis
    using r d v1 v3
    by (cases e1; cases e2; cases e3)
      (auto simp: Fold_def fold_events_def deliver_append wraps_def split: unit.splits)
qed

text \<open>
  The length announced at the start is the number of fields, never the number of entries:
  at most five follow.
\<close>

lemma fold_events_keys:
  "length (filter (\<lambda>ev. \<exists>k. ev = OnKey k) (fold_events sm)) \<le> 5 \<and> hd (fold_events sm) = OnObjectStart 7"
  by (auto simp: fold_events_def struct_fields_def reading_events_def split: option.splits)

end
