(* ===== verification/Load_Average.thy ===== *)
theory Load_Average
  imports Numcpu Metric_Math
begin

text \<open>
  \<open>metric/system/cpu/cpu.go\<close>: load averages and those per CPU. The averages themselves
  come from gosigar: its \<open>LoadAverage.Get\<close> is an argument of \<open>Load\<close>. Proved: an average
  per CPU is at most the average itself.
\<close>

text \<open>\<open>sigar.LoadAverage\<close>.\<close>

record sigar_load =
  la_One :: f64
  la_Five :: f64
  la_Fifteen :: f64

record LoadMetrics =
  lm_sample :: sigar_load

record LoadAverages =
  OneMinute :: f64
  FiveMinute :: f64
  FifteenMinute :: f64

definition Load :: "sigar_load outcome \<Rightarrow> LoadMetrics outcome" where
  "Load get = and_then get (\<lambda>load. Ok \<lparr>lm_sample = load\<rparr>)"

definition Averages :: "LoadMetrics \<Rightarrow> LoadAverages" where
  "Averages m = \<lparr>OneMinute = Round (la_One (lm_sample m)), FiveMinute = Round (la_Five (lm_sample m)),
     FifteenMinute = Round (la_Fifteen (lm_sample m))\<rparr>"

definition NormalizedAverages :: "os_env \<Rightarrow> int \<Rightarrow> LoadMetrics \<Rightarrow> LoadAverages" where
  "NormalizedAverages w runtimeNumCPU m =
     (let cpus = NumCPU w runtimeNumCPU; per_cpu = (\<lambda>x. Round (f64_div x (f64_of_int cpus))) in
      \<lparr>OneMinute = per_cpu (la_One (lm_sample m)), FiveMinute = per_cpu (la_Five (lm_sample m)),
       FifteenMinute = per_cpu (la_Fifteen (lm_sample m))\<rparr>)"

text \<open>A load average: a float from 0 up, not too large to be rounded.\<close>

definition load_value :: "f64 \<Rightarrow> bool" where
  "load_value v \<longleftrightarrow> (\<exists>m. v = F64Fin False m \<and> 0 \<le> m \<and> m \<le> p2 1000 \<and> round53 m = m)"

lemma per_cpu_le:
  assumes "load_value v" "0 < n" "n \<le> 2 ^ 53"
  shows "f64_le (Round (f64_div v (f64_of_int (int n)))) (Round v)"
proof -
  obtain m where m: "v = F64Fin False m" "0 \<le> m" "m \<le> p2 1000" "round53 m = m"
    using assms(1) by (auto simp: load_value_def)
  have n: "f64_of_int (int n) = F64Fin False (of_nat n)" using f64_of_small_int[of "int n"] assms(3) by simp
  have "m * 1 \<le> m * of_nat n" using m(2) assms(2) by (intro mult_left_mono) simp_all
  then have q: "m / of_nat n \<le> m" using assms(2) by (simp add: divide_le_eq)
  then have "m / of_nat n \<le> p2 1023" using m(3) by (intro p2_1000_1023) linarith
  then have d: "f64_div v (f64_of_int (int n)) = F64Fin False (round53 (m / of_nat n))"
    using m assms(2) unfolding m(1) n by (intro f64_div_fin) simp_all
  have r: "round53 (m / of_nat n) \<le> m" using m q assms(2) by (intro round53_le) simp_all
  show ?thesis
    unfolding d unfolding m(1) using m r assms(2) by (intro Round_mono) (simp_all add: in_round_range_def)
qed

text \<open>An average per CPU is at most the average.\<close>

lemma NormalizedAverages_le:
  assumes "NumCPU w rt = int n" "0 < n" "n \<le> 2 ^ 53"
    and "load_value (la_One (lm_sample m))" "load_value (la_Five (lm_sample m))" "load_value (la_Fifteen (lm_sample m))"
  shows "f64_le (OneMinute (NormalizedAverages w rt m)) (OneMinute (Averages m)) \<and>
    f64_le (FiveMinute (NormalizedAverages w rt m)) (FiveMinute (Averages m)) \<and>
    f64_le (FifteenMinute (NormalizedAverages w rt m)) (FifteenMinute (Averages m))"
  using assms per_cpu_le by (simp add: NormalizedAverages_def Averages_def Let_def)

end
