(* ===== verification/Host_Info.thy ===== *)
theory Host_Info
  imports Events
begin

text \<open>
  \<open>metric/system/host/host.go\<close>: go-sysinfo's description of the host as an event, and as
  the calls a monitoring visitor sees. \<open>Put\<close> stores under a dotted path (theory Events).
  Proved: which fields the event has.
\<close>

text \<open>The fields of \<open>types.HostInfo\<close> and \<open>types.OSInfo\<close> that are read; \<open>OS\<close> is a pointer.\<close>

record OSInfo =
  os_Type :: string
  os_Family :: string
  os_Platform :: string
  os_Name :: string
  os_Version :: string
  os_Build :: string
  os_Codename :: string

record HostInfo =
  hi_Architecture :: string
  hi_Hostname :: string
  hi_KernelVersion :: string
  hi_Containerized :: "bool option"
  hi_OS :: OSInfo
  hi_UniqueID :: string

definition put_if :: "string \<Rightarrow> string \<Rightarrow> mapstr" where
  "put_if path v = (if v \<noteq> [] then [PutAt path (VString v)] else [])"

definition MapHostInfo :: "HostInfo \<Rightarrow> string \<Rightarrow> mapstr" where
  "MapHostInfo info fqdn =
     (let name = (if fqdn \<noteq> [] then fqdn else hi_Hostname info); os = hi_OS info in
      [SetKey ''host'' (VObj
         [SetKey ''name'' (VString name),
          SetKey ''hostname'' (VString (hi_Hostname info)),
          SetKey ''architecture'' (VString (hi_Architecture info)),
          SetKey ''os'' (VObj
            [SetKey ''platform'' (VString (os_Platform os)),
             SetKey ''version'' (VString (os_Version os)),
             SetKey ''family'' (VString (os_Family os)),
             SetKey ''name'' (VString (os_Name os)),
             SetKey ''kernel'' (VString (hi_KernelVersion info))])])] @
      put_if ''host.id'' (hi_UniqueID info) @
      (case hi_Containerized info of Some c \<Rightarrow> [PutAt ''host.containerized'' (VBool c)] | None \<Rightarrow> []) @
      put_if ''host.os.codename'' (os_Codename os) @
      put_if ''host.os.build'' (os_Build os) @
      put_if ''host.os.type'' (os_Type os))"

section \<open>Reports\<close>

text \<open>
  What a monitoring visitor is told; a namespace is its key and the report inside it,
  which the monitoring library brackets itself.
\<close>

datatype visit =
    RegistryStart
  | RegistryFinished
  | ReportInt string int
  | ReportFloat string f64
  | ReportString string string
  | ReportBool string bool
  | ReportNamespace string "visit list"

text \<open>\<open>V.OnRegistryStart(); defer V.OnRegistryFinished()\<close> around a body.\<close>

definition in_registry :: "visit list \<Rightarrow> visit list" where
  "in_registry body = RegistryStart # body @ [RegistryFinished]"

definition report_if :: "string \<Rightarrow> string \<Rightarrow> visit list" where
  "report_if key v = (if v \<noteq> [] then [ReportString key v] else [])"

definition ReportInfo :: "string \<Rightarrow> HostInfo option \<Rightarrow> visit list" where
  "ReportInfo fqdn host =
     in_registry (case host of
        None \<Rightarrow> []
      | Some info \<Rightarrow>
          let hostname = (if fqdn \<noteq> [] then fqdn else hi_Hostname info); os = hi_OS info in
          [ReportString ''hostname'' hostname,
           ReportString ''architecture'' (hi_Architecture info),
           ReportNamespace ''os''
             ([ReportString ''platform'' (os_Platform os),
               ReportString ''version'' (os_Version os),
               ReportString ''family'' (os_Family os),
               ReportString ''name'' (os_Name os),
               ReportString ''kernel'' (hi_KernelVersion info)] @
              report_if ''codename'' (os_Codename os) @
              report_if ''build'' (os_Build os))] @
          report_if ''id'' (hi_UniqueID info) @
          (case hi_Containerized info of Some c \<Rightarrow> [ReportBool ''containerized'' c] | None \<Rightarrow> []))"

lemma put_if_lookup [simp]:
  "lookup_put k (put_if path v) = (if k = path \<and> v \<noteq> [] then Some (VString v) else None)"
  "lookup_set k (put_if path v) = None"
  by (auto simp: put_if_def)

text \<open>The optional fields of the event are there exactly when the host has them.\<close>

lemma MapHostInfo_optional:
  "lookup_put ''host.id'' (MapHostInfo info fqdn) = (if hi_UniqueID info = [] then None else Some (VString (hi_UniqueID info)))"
  "lookup_put ''host.containerized'' (MapHostInfo info fqdn) = map_option VBool (hi_Containerized info)"
  "lookup_put ''host.os.codename'' (MapHostInfo info fqdn) =
     (if os_Codename (hi_OS info) = [] then None else Some (VString (os_Codename (hi_OS info))))"
  "lookup_put ''host.os.build'' (MapHostInfo info fqdn) =
     (if os_Build (hi_OS info) = [] then None else Some (VString (os_Build (hi_OS info))))"
  "lookup_put ''host.os.type'' (MapHostInfo info fqdn) =
     (if os_Type (hi_OS info) = [] then None else Some (VString (os_Type (hi_OS info))))"
  by (auto simp: MapHostInfo_def Let_def split: option.splits)

end
