(* ===== verification/Report.thy ===== *)
theory Report
  imports Process Load_Average Host_Info
begin

text \<open>
  \<open>report\<close>: the callbacks that the self-monitoring registry calls. Each is modelled as the
  list of calls its visitor sees; the collector of processes and the boot time, which the
  callbacks change through \<open>GetSelf\<close>, are passed along. A callback that fails logs and
  reports nothing more. Proved: what a visitor sees is always one complete registry, and
  the values in it are those of the process.
\<close>

datatype report_mode = Reported | Full

text \<open>The fields of \<open>runtime.MemStats\<close> that are read.\<close>

record MemStats =
  ms_TotalAlloc :: u64
  ms_Alloc :: u64
  ms_Sys :: u64
  ms_NextGC :: u64

text \<open>A callback over \<open>GetSelf\<close>: the body gets the state, or nothing after an error.\<close>

definition with_self ::
  "proc_env \<Rightarrow> (ProcState option \<Rightarrow> visit list) \<Rightarrow> Stats \<Rightarrow> u64 \<Rightarrow> visit list outcome \<times> Stats \<times> u64" where
  "with_self e body st bootTime =
     (case GetSelf e st bootTime of
        (Ok state, st, bootTime) \<Rightarrow> (Ok (in_registry (body (Some state))), st, bootTime)
      | (Err err, st, bootTime) \<Rightarrow> (Ok (in_registry (body None)), st, bootTime)
      | (Panic, st, bootTime) \<Rightarrow> (Panic, st, bootTime))"

definition MemStatsReporter ::
  "proc_env \<Rightarrow> MemStats \<Rightarrow> report_mode \<Rightarrow> Stats \<Rightarrow> u64 \<Rightarrow> visit list outcome \<times> Stats \<times> u64" where
  "MemStatsReporter e stats m =
     with_self e (\<lambda>state.
       [ReportInt ''memory_total'' (int64_of (ms_TotalAlloc stats))] @
       (if m = Full then
          [ReportInt ''memory_alloc'' (int64_of (ms_Alloc stats)),
           ReportInt ''memory_sys'' (int64_of (ms_Sys stats)),
           ReportInt ''gc_next'' (int64_of (ms_NextGC stats))] else []) @
       (case state of None \<Rightarrow> []
        | Some state \<Rightarrow> [ReportInt ''rss'' (int64_of (valueOr 0 (mb_Bytes (pm_Rss (ps_Memory state)))))]))"

definition report_ticks :: "u64 option \<Rightarrow> visit list" where
  "report_ticks ticks =
     [ReportInt ''ticks'' (int64_of (valueOr 0 ticks)),
      ReportNamespace ''time'' [ReportInt ''ms'' (int64_of (valueOr 0 ticks))]]"

definition InstanceCPUReporter :: "proc_env \<Rightarrow> Stats \<Rightarrow> u64 \<Rightarrow> visit list outcome \<times> Stats \<times> u64" where
  "InstanceCPUReporter e =
     with_self e (\<lambda>state. case state of None \<Rightarrow> []
       | Some state \<Rightarrow>
           [ReportNamespace ''user'' (report_ticks (pc_User (ps_CPU state))),
            ReportNamespace ''system'' (report_ticks (pc_System (ps_CPU state))),
            ReportNamespace ''total''
              (ReportFloat ''value'' (valueOr (F64Fin False 0) (ct_Value (pc_Total (ps_CPU state)))) #
               report_ticks (ct_Ticks (pc_Total (ps_CPU state))))])"

definition report_averages :: "LoadAverages \<Rightarrow> visit list" where
  "report_averages avgs =
     [ReportFloat ''1'' (OneMinute avgs), ReportFloat ''5'' (FiveMinute avgs), ReportFloat ''15'' (FifteenMinute avgs)]"

definition ReportSystemLoadAverage :: "proc_env \<Rightarrow> sigar_load outcome \<Rightarrow> visit list outcome" where
  "ReportSystemLoadAverage e get =
     (case Load get of
        Err err \<Rightarrow> Ok (in_registry [])
      | Panic \<Rightarrow> Panic
      | Ok load \<Rightarrow>
          Ok (in_registry (report_averages (Averages load) @
            [ReportNamespace ''norm'' (report_averages (NormalizedAverages (pe_os e) (pe_NumCPU e) load))])))"

definition ReportSystemCPUUsage :: "proc_env \<Rightarrow> visit list" where
  "ReportSystemCPUUsage e = in_registry [ReportInt ''cores'' (NumCPU (pe_os e) (pe_NumCPU e))]"

definition ReportRuntime :: "int \<Rightarrow> visit list" where
  "ReportRuntime numGoroutine = in_registry [ReportInt ''goroutines'' numGoroutine]"

section \<open>Control groups\<close>

definition report_id :: "string \<Rightarrow> visit list" where
  "report_id ident = (if ident \<noteq> [] then [ReportString ''id'' ident] else [])"

definition opt_report :: "('a \<Rightarrow> visit) \<Rightarrow> 'a option \<Rightarrow> visit list" where
  "opt_report f x = (case x of Some y \<Rightarrow> [f y] | None \<Rightarrow> [])"

definition ReportMetricsCGV1 :: "cg_env \<Rightarrow> int \<Rightarrow> Reader \<Rightarrow> visit list outcome" where
  "ReportMetricsCGV1 e pid cgroups =
     (case GetV1StatsForProcess e cgroups pid of
        Err err \<Rightarrow> Ok []
      | Panic \<Rightarrow> Panic
      | Ok selfStats \<Rightarrow>
          Ok (opt_report (\<lambda>cpu. ReportNamespace ''cpu''
                (report_id (cpus_ID cpu) @
                 [ReportNamespace ''cfs''
                    [ReportNamespace ''period'' [ReportInt ''us'' (int64_of (cfs_PeriodMicros (cpus_CFS cpu)))],
                     ReportNamespace ''quota'' [ReportInt ''us'' (int64_of (cfs_QuotaMicros (cpus_CFS cpu)))]],
                  ReportNamespace ''stats''
                    [ReportInt ''periods'' (int64_of (cs_Periods (cpus_Stats cpu))),
                     ReportNamespace ''throttled''
                       [ReportInt ''periods'' (int64_of (th_Periods (cs_Throttled (cpus_Stats cpu)))),
                        ReportInt ''ns'' (int64_of (th_Us (cs_Throttled (cpus_Stats cpu))))]]]))
                (s1_CPU selfStats) @
              opt_report (\<lambda>cpuacct. ReportNamespace ''cpuacct''
                (report_id (acct_ID cpuacct) @
                 [ReportNamespace ''total'' [ReportInt ''ns'' (int64_of (cu_NS (acct_Total cpuacct)))]]))
                (s1_CPUAccounting selfStats) @
              opt_report (\<lambda>memory. ReportNamespace ''memory''
                (report_id (mems_ID memory) @
                 [ReportNamespace ''mem''
                    [ReportNamespace ''limit'' [ReportInt ''bytes'' (int64_of (md_Limit (mems_Mem memory)))],
                     ReportNamespace ''usage'' [ReportInt ''bytes'' (int64_of (mu_Bytes (md_Usage (mems_Mem memory))))]]]))
                (s1_Memory selfStats)))"

definition ReportMetricsCGV2 :: "cg_env \<Rightarrow> int \<Rightarrow> Reader \<Rightarrow> visit list outcome" where
  "ReportMetricsCGV2 e pid cgroups =
     (case GetV2StatsForProcess e cgroups pid of
        Err err \<Rightarrow> Ok []
      | Panic \<Rightarrow> Panic
      | Ok selfStats \<Rightarrow>
          Ok (opt_report (\<lambda>cpu. ReportNamespace ''cpu''
                (report_id (cpu2_ID cpu) @
                 [ReportNamespace ''stats''
                    [ReportInt ''periods'' (int64_of (valueOr 0 (cs2_Periods (cpu2_Stats cpu)))),
                     ReportNamespace ''throttled''
                       [ReportInt ''periods'' (int64_of (valueOr 0 (th2_Periods (cs2_Throttled (cpu2_Stats cpu))))),
                        ReportInt ''ns'' (int64_of (valueOr 0 (th2_Us (cs2_Throttled (cpu2_Stats cpu)))))]]]))
                (s2_CPU selfStats) @
              opt_report (\<lambda>memory. ReportNamespace ''memory''
                (report_id (mems2_ID memory) @
                 [ReportNamespace ''mem''
                    [ReportNamespace ''usage'' [ReportInt ''bytes'' (int64_of (md2_Usage (mems2_Mem memory)))]]]))
                (s2_Memory selfStats)))"

definition InstanceCroupsReporter :: "proc_env \<Rightarrow> string \<Rightarrow> visit list outcome" where
  "InstanceCroupsReporter e override =
     (let pid = pe_Getpid e; w = pe_os e in
      case NewReaderOptions w
             \<lparr>ro_RootfsMountpoint = testing_resolver (NewTestResolver ''/''), ro_IgnoreRootCgroups = True,
              ro_CgroupsHierarchyOverride = (case env_var w override of Some v \<Rightarrow> v | None \<Rightarrow> [])\<rparr> of
        Err err \<Rightarrow> Ok (in_registry [])
      | Panic \<Rightarrow> Panic
      | Ok cgroups \<Rightarrow>
          (case Reader_CgroupsVersion w cgroups pid of
             Err err \<Rightarrow> Ok (in_registry [])
           | Panic \<Rightarrow> Panic
           | Ok cgv \<Rightarrow>
               and_then (if cgv = CgroupsV1 then ReportMetricsCGV1 (pe_cg e) pid cgroups
                         else ReportMetricsCGV2 (pe_cg e) pid cgroups)
                 (\<lambda>body. Ok (in_registry body))))"

section \<open>File descriptors\<close>

definition getFDUsage :: "ProcState \<Rightarrow> u64 \<times> u64 \<times> u64" where
  "getFDUsage state =
     (valueOr 0 (fd_Open (ps_FD state)), valueOr 0 (lim_Hard (fd_Limit (ps_FD state))), valueOr 0 (lim_Soft (fd_Limit (ps_FD state))))"

definition FDUsageReporter :: "proc_env \<Rightarrow> Stats \<Rightarrow> u64 \<Rightarrow> visit list outcome \<times> Stats \<times> u64" where
  "FDUsageReporter e =
     with_self e (\<lambda>state. case state of None \<Rightarrow> []
       | Some state \<Rightarrow>
           (case getFDUsage state of (opened, hardLimit, softLimit) \<Rightarrow>
              [ReportInt ''open'' (int64_of opened),
               ReportNamespace ''limit'' [ReportInt ''hard'' (int64_of hardLimit), ReportInt ''soft'' (int64_of softLimit)]]))"

section \<open>Setup\<close>

definition processName :: "string \<Rightarrow> string" where
  "processName name = (if 15 < length name then take 15 name else name)"

definition infoReporter :: "int \<Rightarrow> int \<Rightarrow> string \<Rightarrow> string \<Rightarrow> string \<Rightarrow> visit list" where
  "infoReporter now startTime ephemeralID serviceName version =
     (let delta = time_Sub now startTime; uptime = delta sdiv 1000000 in
      in_registry
        [ReportNamespace ''uptime'' [ReportInt ''ms'' uptime],
         ReportString ''ephemeral_id'' ephemeralID,
         ReportString ''name'' serviceName,
         ReportString ''version'' version])"

text \<open>
  \<open>SetupMetrics\<close> on Linux: the callbacks registered, as the registry and the name of each,
  the collector the callbacks share, and the outcome.
\<close>

definition beat_stats :: "string \<Rightarrow> Stats" where
  "beat_stats name =
     \<lparr>st_Hostfs = None, st_Procs = [name], st_ProcsMap = None, st_CPUTicks = True, st_EnvWhitelist = [],
      st_CacheCmdLine = True, st_IncludeTop = \<lparr>it_Enabled = False, it_ByCPU = 0, it_ByMemory = 0\<rparr>,
      st_CgroupOpts = \<lparr>ro_RootfsMountpoint = testing_resolver (NewTestResolver ''/''), ro_IgnoreRootCgroups = False,
        ro_CgroupsHierarchyOverride = []\<rparr>,
      st_EnableCgroups = False, st_EnableNetwork = False, st_NetworkMetrics = [], st_skipExtended = False,
      st_procRegexps = [], st_envRegexps = [], st_cgroups = None, st_host = False\<rparr>"

definition platform_metrics :: "(string \<times> string) list" where
  "platform_metrics = [(''beat'', ''cgroup''), (''system'', ''load''), (''beat'', ''handles'')]"

definition SetupMetrics :: "proc_env \<Rightarrow> string \<Rightarrow> (string \<times> string) list \<times> Stats \<times> unit outcome" where
  "SetupMetrics e name =
     (case Init e (beat_stats (processName name)) of
        (st, Ok ()) \<Rightarrow>
          ([(''system'', ''cpu''), (''beat'', ''memstats''), (''beat'', ''cpu''), (''beat'', ''runtime''), (''beat'', ''info'')]
             @ platform_metrics, st, Ok ())
      | (st, r) \<Rightarrow> ([(''system'', ''cpu'')], st, wrap_err ''failed to init process stats for agent'' r))"

definition SetupInfoUserMetrics :: "(string \<times> string \<times> string) option \<Rightarrow> int \<Rightarrow> int \<Rightarrow> (string \<times> string) list" where
  "SetupInfoUserMetrics current uid gid =
     (case current of
        None \<Rightarrow> [(''uid'', itoa uid), (''gid'', itoa gid)]
      | Some (username, uid, gid) \<Rightarrow> [(''username'', username), (''uid'', uid), (''gid'', gid)])"

section \<open>Complete reports\<close>

text \<open>A report inside a registry or a namespace: no brackets of its own, at any depth.\<close>

fun quiet :: "visit \<Rightarrow> bool" where
  "quiet RegistryStart = False"
| "quiet RegistryFinished = False"
| "quiet (ReportNamespace key vs) = list_all quiet vs"
| "quiet _ = True"

definition one_registry :: "visit list \<Rightarrow> bool" where
  "one_registry vs \<longleftrightarrow> (\<exists>body. vs = RegistryStart # body @ [RegistryFinished] \<and> list_all quiet body)"

definition complete_report :: "visit list outcome \<Rightarrow> bool" where
  "complete_report r = (case r of Ok vs \<Rightarrow> one_registry vs | Err e \<Rightarrow> False | Panic \<Rightarrow> True)"

lemma one_registry_in: "one_registry (in_registry body) \<longleftrightarrow> list_all quiet body"
  by (auto simp: one_registry_def in_registry_def)

lemma with_self_complete:
  assumes "\<And>state. list_all quiet (body state)"
  shows "complete_report (fst (with_self e body st bt))"
  using assms by (auto simp: with_self_def complete_report_def one_registry_in split: prod.splits outcome.splits)

lemma quiet_parts [simp]:
  "list_all quiet (report_ticks t)" "list_all quiet (report_averages a)" "list_all quiet (report_id i)"
  "list_all quiet (report_if k v)"
  by (simp_all add: report_ticks_def report_averages_def report_id_def report_if_def)

lemma quiet_opt_report: "(\<And>x. quiet (f x)) \<Longrightarrow> list_all quiet (opt_report f o')"
  by (simp add: opt_report_def split: option.splits)

lemma quiet_CGV1: "ReportMetricsCGV1 e pid r = Ok body \<Longrightarrow> list_all quiet body"
  by (auto simp: ReportMetricsCGV1_def intro!: quiet_opt_report split: outcome.splits)

lemma quiet_CGV2: "ReportMetricsCGV2 e pid r = Ok body \<Longrightarrow> list_all quiet body"
  by (auto simp: ReportMetricsCGV2_def intro!: quiet_opt_report split: outcome.splits)

lemma cgroup_report_complete: "complete_report (InstanceCroupsReporter e override)"
proof -
  have e1: "ReportMetricsCGV1 c pid r \<noteq> Err err" and e2: "ReportMetricsCGV2 c pid r \<noteq> Err err" for c pid r err
    by (simp_all add: ReportMetricsCGV1_def ReportMetricsCGV2_def split: outcome.splits)
  show ?thesis
    by (auto simp: InstanceCroupsReporter_def Let_def complete_report_def one_registry_in go_outcome e1 e2
        dest: quiet_CGV1 quiet_CGV2 split: outcome.splits if_splits)
qed

text \<open>
  Whatever fails while a callback runs, what its visitor has seen when it returns is
  one registry, opened first and closed last, with no bracket out of place inside it.
\<close>

theorem reports_complete:
  "complete_report (fst (MemStatsReporter e stats m st bt)) \<and>
   complete_report (fst (InstanceCPUReporter e st bt)) \<and>
   complete_report (fst (FDUsageReporter e st bt)) \<and>
   complete_report (ReportSystemLoadAverage e get) \<and>
   complete_report (InstanceCroupsReporter e override) \<and>
   one_registry (ReportSystemCPUUsage e) \<and>
   one_registry (ReportRuntime n) \<and>
   one_registry (infoReporter now start ephemeralID serviceName version) \<and>
   one_registry (ReportInfo fqdn host)"
proof (intro conjI)
  show "complete_report (fst (MemStatsReporter e stats m st bt))"
    unfolding MemStatsReporter_def by (rule with_self_complete) (simp split: option.splits)
  show "complete_report (fst (InstanceCPUReporter e st bt))"
    unfolding InstanceCPUReporter_def by (rule with_self_complete) (simp split: option.splits)
  show "complete_report (fst (FDUsageReporter e st bt))"
    unfolding FDUsageReporter_def by (rule with_self_complete) (simp split: option.splits prod.splits)
  show "complete_report (ReportSystemLoadAverage e get)"
    by (cases get) (simp_all add: ReportSystemLoadAverage_def Load_def complete_report_def one_registry_in)
qed (simp_all add: cgroup_report_complete ReportSystemCPUUsage_def ReportRuntime_def infoReporter_def ReportInfo_def one_registry_in Let_def
    split: option.splits)

text \<open>The callbacks keep the state of the process they report.\<close>

lemma with_self_tracks:
  assumes "GetSelf e st bt = (Ok state, st', bt')"
  shows "with_self e body st bt = (Ok (in_registry (body (Some state))), st', bt') \<and>
    (\<exists>t. st_ProcsMap st' = Some t \<and> pids t (pe_Getpid e) = Some state)"
  using assms
  by (auto simp: with_self_def GetSelf_def set_filled_def SetPid_def split: prod.splits outcome.splits option.splits)

end
