(* ===== verification/Report_Other.thy ===== *)
theory Report_Other
  imports Report
begin

text \<open>
  \<open>report\<close> on the other systems: the open handles of Windows (\<open>metrics_handles.go\<close>), the
  stubs, and which callbacks are set up where. go-sysinfo's process and its handle counter
  are arguments. Proved: the callback for handles also reports one complete registry, and
  it is registered only with a counter.
\<close>

text \<open>\<open>handleCounter\<close> is a global variable: its answer, or nil.\<close>

definition openHandlesReporter :: "int outcome option \<Rightarrow> visit list outcome" where
  "openHandlesReporter handleCounter =
     (case handleCounter of
        None \<Rightarrow> Panic
      | Some (Ok n) \<Rightarrow> Ok (in_registry [ReportInt ''open'' n])
      | Some (Err e) \<Rightarrow> Ok (in_registry [])
      | Some Panic \<Rightarrow> Panic)"

text \<open>
  What is registered and the counter that is left; a process without the interface
  \<open>OpenHandleCounter\<close> makes it nil.
\<close>

definition SetupWindowsHandlesMetrics ::
  "'p outcome \<Rightarrow> ('p \<Rightarrow> int outcome option) \<Rightarrow> int outcome option \<Rightarrow> (string \<times> string) list \<times> int outcome option" where
  "SetupWindowsHandlesMetrics sysinfo_Self OpenHandleCounter handleCounter =
     (case sysinfo_Self of
        Ok beatProcessSysInfo \<Rightarrow>
          (case OpenHandleCounter beatProcessSysInfo of
             None \<Rightarrow> ([], None)
           | Some counter \<Rightarrow> ([(''system'', ''handles'')], Some counter))
      | _ \<Rightarrow> ([], handleCounter))"

definition SetupWindowsHandlesMetrics_stub :: "(string \<times> string) list" where
  "SetupWindowsHandlesMetrics_stub = []"

definition SetupLinuxBSDFDMetrics_stub :: "(string \<times> string) list" where
  "SetupLinuxBSDFDMetrics_stub = []"

section \<open>Setup\<close>

datatype goos = Linux | Darwin | FreeBSD | Windows

definition processName_on :: "goos \<Rightarrow> string \<Rightarrow> string" where
  "processName_on os name = (if (os = Linux \<or> os = Darwin) \<and> 15 < length name then take 15 name else name)"

definition setupPlatformSpecificMetrics :: "goos \<Rightarrow> (string \<times> string) list \<Rightarrow> (string \<times> string) list" where
  "setupPlatformSpecificMetrics os handles =
     (if os = Linux then [(''beat'', ''cgroup'')] else []) @
     (if os = Windows then handles else [(''system'', ''load'')]) @
     (if os = Linux \<or> os = FreeBSD then [(''beat'', ''handles'')] else SetupLinuxBSDFDMetrics_stub)"

text \<open>\<open>SetupMetrics\<close> of \<open>setup_other.go\<close>: it warns, registers nothing and succeeds.\<close>

definition SetupMetrics_other :: "string \<Rightarrow> string \<Rightarrow> (string \<times> string) list \<times> unit outcome" where
  "SetupMetrics_other name version = ([], Ok ())"

lemma setup_linux:
  "processName_on Linux = processName" "setupPlatformSpecificMetrics Linux handles = platform_metrics"
  by (simp_all add: fun_eq_iff processName_on_def processName_def setupPlatformSpecificMetrics_def platform_metrics_def)

lemma openHandlesReporter_complete: "complete_report (openHandlesReporter (Some counter))"
  by (cases counter) (simp_all add: openHandlesReporter_def complete_report_def one_registry_in)

lemma handles_registered:
  assumes "SetupWindowsHandlesMetrics self as_counter c = (regs, c')" "regs \<noteq> []"
  shows "\<exists>p counter. self = Ok p \<and> as_counter p = Some counter \<and> c' = Some counter"
proof (cases self)
  case (Ok p)
  show ?thesis
  proof (cases "as_counter p")
    case None
    then show ?thesis using assms Ok by (simp add: SetupWindowsHandlesMetrics_def)
  next
    case (Some counter)
    then have "c' = Some counter" using assms(1) Ok by (simp add: SetupWindowsHandlesMetrics_def)
    then show ?thesis using Ok Some by blast
  qed
qed (use assms in \<open>simp_all add: SetupWindowsHandlesMetrics_def\<close>)

end
