(* ===== verification/Spec2Isabelle.thy ===== *)
theory Spec2Isabelle
  imports CPU_Monitor CPU_Other Numcpu_Other Memory_Other Disk_Windows Filesystem_Other Filesystem_Windows Network
    Cgroup_Reader Collector Collector_Threads Collector_OS Hwmon_Fold Report_Other
begin

text \<open>
  \<^bold>\<open>elastic-agent-system-metrics\<close>: a model of the library and proofs about it: its Linux build
  in full, and the readers of AIX, the BSDs, macOS and Windows over their system calls.

  The library reads the state of a machine from the files of \<open>/proc\<close>, \<open>/sys\<close> and the
  control groups and turns it into samples, differences between samples, percentages and
  events. Its parts are independent readers that share a path resolver, a count of CPUs
  and a rounding function; the process collector uses the control group reader, and the
  self-monitoring report uses most of the others.

  \<^bold>\<open>Conventions.\<close> A Go function that returns a value and an error is a function to
  \<open>outcome\<close>: \<open>Ok\<close>, \<open>Err\<close> (a \<open>go_error\<close>, with the chain of \<open>%w\<close> wrappings that
  \<open>errors.Is\<close> follows), or \<open>Panic\<close> for an index out of range or a nil dereference. The
  text of an error keeps its constant part. \<open>uint64\<close> is a 64-bit word, so sums and
  differences wrap as in Go; \<open>int\<close> and \<open>int64\<close> are integers with their wrapping written
  out; \<open>float64\<close> is the type \<open>f64\<close> of exact binary64 values. Pointers that may be nil and
  optional numbers are options. The operating system is one snapshot (\<open>os_env\<close>) per call.
  A loop over a Go map takes the order it visits the keys in as an argument, and the
  theorems hold for every order. The log lines are left out; a mutex guards a single read
  or write, which is one step where calls are interleaved (\<open>Collector_Threads\<close>).

  \<^bold>\<open>Base theories.\<close> \<open>Prelude\<close> (words, errors, outcomes, optional values, map orders);
  \<open>Go_Strings\<close>, \<open>Go_Numbers\<close>, \<open>Go_Floats\<close> (package strings, \<open>bufio.Scanner\<close>, strconv and
  the scanning verbs of fmt as far as the code uses them); \<open>Go_OS\<close> (package os);
  \<open>Float64\<close> (round to nearest even over the rationals, overflow, zeros, infinities and NaN);
  \<open>Events\<close> (events as the list of writes that build them); \<open>Sampling\<close> (the locale of
  objects that keep the last sample).

  \<^bold>\<open>Components\<close>, each in the theory named, in the order they build on each other:

  \<^item> \<open>Resolve\<close>: \<open>metric/system/resolve\<close>. The interface \<open>Resolver\<close> is a record of functions
    with the laws of the locale \<open>host_resolver\<close>, interpreted on the testing resolver;
    paths without \<open>..\<close> stay below an alternate root.
  \<^item> \<open>Metric_Math\<close>: \<open>metric/math.go\<close>. Accuracy, monotonicity and idempotence of \<open>Round\<close>.
  \<^item> \<open>Numcpu\<close>: \<open>metric/system/numcpu\<close>. CPU lists are counted, with the fallback.
  \<^item> \<open>CPU_Stat\<close>, \<open>CPU_Monitor\<close>: \<open>metric/cpu\<close>. From \<open>/proc/stat\<close> and \<open>/proc/cpuinfo\<close> to
    samples (exact on files in the kernel's layout; which lines panic), the monitor's state
    over sequences of calls, and the events with the bounds of their percentages.
  \<^item> \<open>Memory\<close>: \<open>metric/memory\<close>, from \<open>/proc/meminfo\<close> to sums and percentages.
  \<^item> \<open>Diskio\<close>: \<open>metric/system/diskio\<close>. Statistics between samples, counter rollover, and
    the counters kept per device over a history of calls.
  \<^item> \<open>Filesystem\<close>: \<open>metric/system/filesystem\<close>. Mount lines, filters, removal of duplicates
    in every map order, usage figures.
  \<^item> \<open>Network\<close>: \<open>metric/system/network\<close>. Combining counter maps equals their filtered union.
  \<^item> \<open>Cgroup_Common\<close>, \<open>Cgroup_V1\<close>, \<open>Cgroup_V2\<close>: the files of the controllers of both
    versions under \<open>metric/system/cgroup\<close>.
  \<^item> \<open>Cgroup_Paths\<close>: \<open>cgroup/util.go\<close>. From \<open>mountinfo\<close> and \<open>/proc/<pid>/cgroup\<close> to the
    directories of a process's controllers.
  \<^item> \<open>Cgroup_Reader\<close>: \<open>cgroup/reader.go\<close> and \<open>cgstats.go\<close>. The version of a process, its
    statistics (each controller's own reading, in every order: the locale
    \<open>controller_field\<close>, interpreted seven times), common metadata and percentages.
  \<^item> \<open>Process_Linux\<close>: \<open>process_types.go\<close> and \<open>process_linux_common.go\<close>, the readers of
    \<open>/proc/<pid>\<close>; the boot time, a global variable, is passed through.
  \<^item> \<open>Process\<close>: \<open>process.go\<close>, \<open>process_common.go\<close>, \<open>helpers.go\<close>, \<open>config.go\<close>. The collector
    \<open>Stats\<close> and its operations; the entry points of an operating system are the locale
    \<open>os_entry_points\<close>, interpreted on the Linux readers.
  \<^item> \<open>Collector\<close>: the life of a collector, as a step relation over the calls a client makes
    after \<open>Init\<close>: the type invariant of its table, the nil dereferences that cannot happen,
    and that \<open>ListStates\<close> returns.
  \<^item> \<open>Collector_Threads\<close>: calls on one collector from several goroutines. A call is a thread
    that makes one access to the table (\<open>ProcsTrack\<close>) or the boot time in each step; alone
    it is the sequential operation, in every interleaving the table stays typed, nothing
    dereferences nil and no interval is negative, and every call returns after a bounded
    number of its own steps. A race that makes a percentage negative is a run of the model.
  \<^item> \<open>Hwmon\<close>, \<open>Hwmon_Fold\<close>: \<open>metric/system/hwmon\<close>, sensors and their readings, and the events
    \<open>Fold\<close> hands to a visitor.
  \<^item> \<open>Load_Average\<close>, \<open>Host_Info\<close>: \<open>metric/system/cpu/cpu.go\<close>, \<open>metric/system/host\<close>.
  \<^item> \<open>Report\<close>: the package \<open>report\<close>, callbacks as the calls their visitor sees.

  \<^bold>\<open>Other systems\<close>, with their system calls (sysctl, perfstat, getprocs, libproc, Win32, the
  calls of gosigar and gopsutil) as arguments and the C structures reduced to the fields
  that are read:

  \<^item> \<open>Process_Bytes\<close>, \<open>Process_Darwin\<close>, \<open>Process_AIX\<close>, \<open>Process_Windows\<close>: the entry points of
    the collector in \<open>process_darwin.go\<close>, \<open>process_aix.go\<close> and \<open>process_windows.go\<close>, which
    interpret the locale \<open>os_process\<close>; lists of processes, and the texts of a process from
    the bytes of a buffer.
  \<^item> \<open>Collector_OS\<close>: the shared \<open>Get\<close>, \<open>GetOne\<close>, \<open>GetSelf\<close>, \<open>ListStates\<close> and \<open>GetPIDState\<close> of
    \<open>process.go\<close> over each system; the locale \<open>collector_os\<close> says what a system promises, is
    interpreted on Linux, Darwin, Windows and AIX, and gives all of them the invariant of
    the table.
  \<^item> \<open>CPU_Other\<close>: \<open>Get\<close> of \<open>metrics_openbsd.go\<close>, \<open>metrics_aix.go\<close>, \<open>metrics_darwin.go\<close>,
    \<open>metrics_windows.go\<close> and the parser of \<open>metrics_freebsd.go\<close>.
  \<^item> \<open>Memory_Other\<close>: the five other implementations of \<open>get\<close>, which interpret the locale
    \<open>memory_reader\<close>: used and free memory add up.
  \<^item> \<open>Disk_Windows\<close>: the counters of logical drives (\<open>diskstat_windows_helper.go\<close>) and the
    stubs of the statistics; \<open>Filesystem_Other\<close>: mounts of macOS, drives of Windows;
    \<open>Filesystem_Windows\<close>: the whole listing of Windows, over its \<open>filepath.IsAbs\<close>;
    \<open>Numcpu_Other\<close>: CPU counts; \<open>Report_Other\<close>: handles of Windows and the setup per system.

  \<^bold>\<open>What the lemmas show.\<close> For the parsers: what is read from any file in the layout of the
  kernel, and which inputs are errors or panics. For state (monitor, disk statistics,
  collector): what is kept after any sequence of calls, or by one call. For computed
  figures: bounds under the conditions that make sense of them, on the floats themselves.
  For loops over maps: independence of the order. Properties are numbered C1 to C40 in the
  text before each; a theorem called \<open>\<dots>_witness\<close> applies one at a concrete input.

  \<^bold>\<open>Bounds.\<close> Functions recurse over their input, except the loops of AIX that ask the system
  for the next process or CPU until it has no more: they have fuel, with \<open>None\<close> when it
  runs out, and one more than the number of entries is enough (\<open>FetchPidsAIX_walk\<close>,
  \<open>CPU_Get_aix_walk\<close>, \<open>procExists_exact\<close>).
  Hypotheses such as \<open>n \<le> 2 ^ 39\<close> or \<open>\<dots> \<le> 2 ^ 53\<close> on counters and CPU numbers keep
  products exact in a float; \<open>Round\<close> multiplies by ten thousand, so its range ends at
  \<open>2 ^ 1000\<close>.

  \<^bold>\<open>Arguments for code outside the repository.\<close> The elastic libraries (\<open>opt.SumOptUint\<close>, the
  error list of multierror, \<open>match.Compile\<close>, \<open>typeconv\<close>), go-sysinfo, gosigar, gopsutil,
  the clock, \<open>runtime.NumCPU\<close>, \<open>statfs\<close>, device numbers of \<open>/dev\<close> and \<open>sort.Slice\<close> are
  arguments of the definitions; the laws a theorem needs of them are hypotheses, and the
  witnesses instantiate them.

  \<^bold>\<open>Not modelled.\<close> The conversion of structs to maps by \<open>typeconv\<close> and \<open>structform\<close>, the
  registration of callbacks inside the monitoring library, the closing of handles and
  files, build tooling, and the data race on the boot time, which no
  mutex guards: \<open>FillPidMetrics\<close> of one process is one step. \<open>ToLower\<close> is modelled on ASCII.
\<close>

end
